theory Spec2Isabelle
  imports Main "HOL-Library.Multiset"
begin

section \<open>JavaScript values\<close>

text \<open>
  The client handles dynamically typed values: parsed JSON bodies, option objects,
  identifiers. They are modelled by one datatype. Numbers are the integers (identifiers,
  page indices and vocabulary ids are integers); an object is an association list in
  insertion order, read by its first binding of a key.
\<close>

datatype json =
    JUndefined
  | JNull
  | JBool bool
  | JNum int
  | JStr string
  | JArr "json list"
  | JObj "(string \<times> json) list"

text \<open>
  Errors are values. \<open>Error\<close> is \<^verbatim>\<open>new Error(msg)\<close> thrown by the client itself,
  \<open>TypeError\<close> is raised by the language (a property of \<^verbatim>\<open>undefined\<close>, a call of
  something that is no function), \<open>LibError\<close> is whatever axios or simple-oauth2 reject with.
\<close>

datatype error = Error string | TypeError string | LibError string

text \<open>
  What a call of a JavaScript function can come to: it returns a plain value, it throws
  synchronously, or it returns a promise, which is fulfilled or rejected.
\<close>

datatype 'a outcome = Returned 'a | Thrown error | Fulfilled 'a | Rejected error

subsection \<open>Conversion to strings\<close>

definition digit_char :: "nat \<Rightarrow> char" where
  "digit_char d = ''0123456789'' ! d"

fun show_nat :: "nat \<Rightarrow> string" where
  "show_nat n = (if n < 10 then [digit_char n] else show_nat (n div 10) @ [digit_char (n mod 10)])"

declare show_nat.simps [simp del]

definition show_int :: "int \<Rightarrow> string" where
  "show_int i = (if i < 0 then CHR ''-'' # show_nat (nat (- i)) else show_nat (nat i))"

fun join :: "string \<Rightarrow> string list \<Rightarrow> string" where
  "join sep [] = []"
| "join sep [x] = x"
| "join sep (x # y # ys) = x @ sep @ join sep (y # ys)"

text \<open>
  \<^verbatim>\<open>String(v)\<close>, which a template literal \<^verbatim>\<open>`${v}`\<close> and \<^verbatim>\<open>'s' + v\<close> apply to \<open>v\<close>:
  an array joins its elements with commas, \<^verbatim>\<open>null\<close> and \<^verbatim>\<open>undefined\<close> elements
  giving the empty string; a plain object gives \<^verbatim>\<open>[object Object]\<close>.
\<close>

fun to_string :: "json \<Rightarrow> string" where
  "to_string JUndefined = ''undefined''"
| "to_string JNull = ''null''"
| "to_string (JBool b) = (if b then ''true'' else ''false'')"
| "to_string (JNum i) = show_int i"
| "to_string (JStr s) = s"
| "to_string (JArr xs) =
     join '','' (map (\<lambda>x. if x = JUndefined \<or> x = JNull then [] else to_string x) xs)"
| "to_string (JObj kvs) = ''[object Object]''"

subsection \<open>Property access, truthiness, \<^verbatim>\<open>concat\<close>\<close>

definition nullish :: "json \<Rightarrow> bool" where
  "nullish v \<longleftrightarrow> v = JNull \<or> v = JUndefined"

definition obj_get :: "(string \<times> json) list \<Rightarrow> string \<Rightarrow> json" where
  "obj_get kvs k = (case map_of kvs k of None \<Rightarrow> JUndefined | Some v \<Rightarrow> v)"

text \<open>
  \<^verbatim>\<open>v.k\<close> for the property names the client reads (\<^verbatim>\<open>list\<close>, \<^verbatim>\<open>last\<close>, \<^verbatim>\<open>vid\<close>,
  \<^verbatim>\<open>machine_name\<close>, \<^verbatim>\<open>page\<close>, \<^verbatim>\<open>type\<close>, \<^verbatim>\<open>id\<close>, ...): none of them is a built-in
  property of a number, a boolean, a string or an array, so these give \<^verbatim>\<open>undefined\<close>;
  \<^verbatim>\<open>null\<close> and \<^verbatim>\<open>undefined\<close> have no properties at all.
\<close>

definition no_properties :: "json \<Rightarrow> string \<Rightarrow> error" where
  "no_properties v k = TypeError (''Cannot read properties of '' @ to_string v @ '': '' @ k)"

definition js_prop :: "json \<Rightarrow> string \<Rightarrow> json" where
  "js_prop v k = (case v of JObj kvs \<Rightarrow> obj_get kvs k | _ \<Rightarrow> JUndefined)"

definition get_prop :: "json \<Rightarrow> string \<Rightarrow> error + json" where
  "get_prop v k = (if nullish v then Inl (no_properties v k) else Inr (js_prop v k))"

fun truthy :: "json \<Rightarrow> bool" where
  "truthy JUndefined = False"
| "truthy JNull = False"
| "truthy (JBool b) = b"
| "truthy (JNum i) = (i \<noteq> 0)"
| "truthy (JStr s) = (s \<noteq> [])"
| "truthy v = True"

text \<open>\<^verbatim>\<open>xs.concat(v)\<close> on an array: an array argument is spread, anything else is one element.\<close>

fun concat_arr :: "json list \<Rightarrow> json \<Rightarrow> json list" where
  "concat_arr xs (JArr ys) = xs @ ys"
| "concat_arr xs v = xs @ [v]"

text \<open>
  \<^verbatim>\<open>r.concat(v)\<close> on any receiver: arrays and strings have the method, \<^verbatim>\<open>null\<close> and
  \<^verbatim>\<open>undefined\<close> have no properties, every other value has no \<^verbatim>\<open>concat\<close> to call.
\<close>

fun js_concat :: "json \<Rightarrow> json \<Rightarrow> error + json" where
  "js_concat (JArr xs) v = Inr (JArr (concat_arr xs v))"
| "js_concat (JStr s) v = Inr (JStr (s @ to_string v))"
| "js_concat JUndefined v = Inl (no_properties JUndefined ''concat'')"
| "js_concat JNull v = Inl (no_properties JNull ''concat'')"
| "js_concat r v = Inl (TypeError ''concat is not a function'')"

text \<open>
  A default of a parameter or of a destructured property applies to \<^verbatim>\<open>undefined\<close> only,
  and each time the function is entered with \<^verbatim>\<open>undefined\<close> there.
\<close>

definition default_to :: "json \<Rightarrow> json \<Rightarrow> json" where
  "default_to d v = (if v = JUndefined then d else v)"

section \<open>The client's state and its environment\<close>

text \<open>
  The token object of simple-oauth2: the client reads its \<^verbatim>\<open>token\<close> property (always a
  plain object, the library builds it with \<^verbatim>\<open>Object.assign({}, ...)\<close>) and calls its
  methods \<^verbatim>\<open>expired\<close> and \<^verbatim>\<open>refresh\<close>.
\<close>

datatype access_token = AccessToken (tok: "(string \<times> json) list")

datatype body = JSON_stringify json

record axios_opts =
  "method" :: string
  headers :: "(string \<times> json) list"
  withCredentials :: bool
  data :: "body option"

text \<open>The calls that leave the process, in the order they are issued.\<close>

datatype event =
    Refresh access_token string string
  | Axios string axios_opts
  | GetToken json json json
  | RevokeAll access_token

text \<open>
  The constructor's arguments and the libraries the client calls. The libraries and the
  server are not part of the client: each is a parameter, answering a call as a function
  of the calls issued so far (the clock and the server's state are functions of that
  history). \<open>last_page v\<close> is \<^verbatim>\<open>+(new URL(v)).searchParams.get('page')\<close>: it throws when
  \<open>v\<close> is no URL, and gives \<open>None\<close> when the number is no integer (\<^verbatim>\<open>NaN\<close> or a
  fraction), which is all the client can observe of it by \<^verbatim>\<open>page === lastPage\<close>.
\<close>

record env =
  host :: string
  client_id :: string
  client_secret :: string
  create :: "event list \<Rightarrow> json \<Rightarrow> error + access_token"
  expired :: "event list \<Rightarrow> access_token \<Rightarrow> bool"
  refresh :: "event list \<Rightarrow> access_token \<Rightarrow> string \<Rightarrow> string \<Rightarrow> error + access_token"
  getToken :: "event list \<Rightarrow> json \<Rightarrow> json \<Rightarrow> json \<Rightarrow> error + json"
  revokeAll :: "event list \<Rightarrow> access_token \<Rightarrow> error + json"
  axios :: "event list \<Rightarrow> string \<Rightarrow> axios_opts \<Rightarrow> error + json"
  last_page :: "json \<Rightarrow> error + int option"

text \<open>
  The object \<^verbatim>\<open>farm\<close>: its two mutable properties, and the calls issued so far. There
  is no other state: nothing that a request has answered is kept, apart from the two tokens.
\<close>

record farm =
  token :: "access_token option"
  csrfToken :: json
  trace :: "event list"

subsection \<open>Promises\<close>

text \<open>
  What a \<^verbatim>\<open>then\<close> callback comes to settles the promise that \<^verbatim>\<open>then\<close> returned: a
  returned value fulfils it, a throw rejects it, a returned promise is adopted.
\<close>

fun settle :: "'a outcome \<times> 's \<Rightarrow> 'a outcome \<times> 's" where
  "settle (Returned v, s) = (Fulfilled v, s)"
| "settle (Thrown e, s) = (Rejected e, s)"
| "settle (Fulfilled v, s) = (Fulfilled v, s)"
| "settle (Rejected e, s) = (Rejected e, s)"

text \<open>
  \<^verbatim>\<open>p.then(f)\<close>, with \<open>p\<close> already run: a rejection of \<open>p\<close> passes through, and so does
  the handler \<^verbatim>\<open>.catch((err) => { throw err; })\<close> that the client puts after its chains.
  When the expression \<open>p\<close> threw, \<^verbatim>\<open>then\<close> is never reached; a plain value has no
  \<^verbatim>\<open>then\<close> to call.
\<close>

fun then_p :: "'a outcome \<times> 's \<Rightarrow> ('a \<Rightarrow> 's \<Rightarrow> 'b outcome \<times> 's) \<Rightarrow> 'b outcome \<times> 's" where
  "then_p (Fulfilled v, s) f = settle (f v s)"
| "then_p (Rejected e, s) f = (Rejected e, s)"
| "then_p (Thrown e, s) f = (Thrown e, s)"
| "then_p (Returned v, s) f = (Thrown (TypeError ''then is not a function''), s)"

section \<open>The token manager\<close>

definition useToken :: "env \<Rightarrow> json \<Rightarrow> farm \<Rightarrow> (error + json) \<times> farm" where
  "useToken env t s =
     (case create env (trace s) t of
        Inl e \<Rightarrow> (Inl e, s)
      | Inr newToken \<Rightarrow> (Inr (JObj (tok newToken)), s\<lparr>token := Some newToken\<rparr>))"

text \<open>
  \<^verbatim>\<open>farm.token.refresh(params)\<close>: one call to the authorization server, recorded
  whether it succeeds or not. The promise carries the token object of the answer.
\<close>

definition token_refresh :: "env \<Rightarrow> access_token \<Rightarrow> string \<Rightarrow> string \<Rightarrow> farm \<Rightarrow> access_token outcome \<times> farm" where
  "token_refresh env t cid secret s =
     (let s' = s\<lparr>trace := trace s @ [Refresh t cid secret]\<rparr> in
      case refresh env (trace s) t cid secret of
        Inl e \<Rightarrow> (Rejected e, s')
      | Inr accessToken \<Rightarrow> (Fulfilled accessToken, s'))"

definition getAccessToken :: "env \<Rightarrow> farm \<Rightarrow> json outcome \<times> farm" where
  "getAccessToken env s =
     (case token s of
        None \<Rightarrow> (Thrown (Error ''client must be authorized before making requests.''), s)
      | Some t \<Rightarrow>
          if expired env (trace s) t then
            then_p (token_refresh env t (client_id env) (client_secret env) s)
              (\<lambda>accessToken s1.
                 case useToken env (JObj (tok accessToken)) s1 of
                   (Inl e, s2) \<Rightarrow> (Thrown e, s2)
                 | (Inr raw, s2) \<Rightarrow>
                     (case get_prop raw ''access_token'' of
                        Inl e \<Rightarrow> (Thrown e, s2)
                      | Inr a \<Rightarrow> (Returned a, s2)))
          else (Fulfilled (obj_get (tok t) ''access_token''), s))"

section \<open>The CSRF fetcher\<close>

text \<open>
  \<^verbatim>\<open>axios(url, opts)\<close>: one HTTP call, recorded whether it succeeds or not. The
  promise carries \<^verbatim>\<open>res.data\<close>, the only property of an answer that the client reads.
\<close>

definition axios_call :: "env \<Rightarrow> string \<Rightarrow> axios_opts \<Rightarrow> farm \<Rightarrow> json outcome \<times> farm" where
  "axios_call env url opts s =
     (let s' = s\<lparr>trace := trace s @ [Axios url opts]\<rparr> in
      case axios env (trace s) url opts of
        Inl e \<Rightarrow> (Rejected e, s')
      | Inr res_data \<Rightarrow> (Fulfilled res_data, s'))"

definition getCSRFToken :: "env \<Rightarrow> json \<Rightarrow> farm \<Rightarrow> json outcome \<times> farm" where
  "getCSRFToken env accessToken s =
     (if nullish (csrfToken s) then
        let opts = \<lparr>method = ''GET'',
                    headers = [(''Content-Type'', JStr ''application/json''),
                               (''Accept'', JStr ''json''),
                               (''Authorization'', JStr (''Bearer '' @ to_string accessToken))],
                    withCredentials = True,
                    data = None\<rparr>
        in then_p (axios_call env (host env @ ''/restws/session/token'') opts s)
             (\<lambda>res_data s1. (Returned res_data, s1\<lparr>csrfToken := res_data\<rparr>))
      else (Fulfilled (csrfToken s), s))"

text \<open>
  The same function in its two halves. \<open>getCSRFToken_start\<close> is what a call runs at
  once: the test of the cache and, with no token there, the HTTP call; the promise it
  returns is resolved already or awaits the answer of that call. \<open>getCSRFToken_then\<close> is
  the callback of \<^verbatim>\<open>then\<close>, run when the answer has arrived: it stores the body. What
  else the program has started runs between the two.
\<close>

datatype 'a promise = Resolved 'a | Awaits "error + 'a"

definition getCSRFToken_start :: "env \<Rightarrow> json \<Rightarrow> farm \<Rightarrow> json promise \<times> farm" where
  "getCSRFToken_start env accessToken s =
     (if nullish (csrfToken s) then
        let opts = \<lparr>method = ''GET'',
                    headers = [(''Content-Type'', JStr ''application/json''),
                               (''Accept'', JStr ''json''),
                               (''Authorization'', JStr (''Bearer '' @ to_string accessToken))],
                    withCredentials = True,
                    data = None\<rparr>;
            url = host env @ ''/restws/session/token''
        in (Awaits (axios env (trace s) url opts), s\<lparr>trace := trace s @ [Axios url opts]\<rparr>)
      else (Resolved (csrfToken s), s))"

definition getCSRFToken_then :: "json promise \<Rightarrow> farm \<Rightarrow> json outcome \<times> farm" where
  "getCSRFToken_then p s =
     (case p of
        Resolved v \<Rightarrow> (Fulfilled v, s)
      | Awaits (Inl e) \<Rightarrow> (Rejected e, s)
      | Awaits (Inr res_data) \<Rightarrow> (Fulfilled res_data, s\<lparr>csrfToken := res_data\<rparr>))"

section \<open>The request executor\<close>

text \<open>\<^verbatim>\<open>obj[k] = v\<close>: an existing key keeps its place, a new one comes last.\<close>

fun set_prop :: "(string \<times> json) list \<Rightarrow> string \<Rightarrow> json \<Rightarrow> (string \<times> json) list" where
  "set_prop [] k v = [(k, v)]"
| "set_prop ((k', v') # kvs) k v = (if k' = k then (k, v) # kvs else (k', v') # set_prop kvs k v)"

text \<open>
  \<^verbatim>\<open>request(endpoint, { method = 'GET', payload = '' } = {})\<close>. A caller that leaves the
  method out passes \<open>''GET''\<close>; a payload that is left out or \<^verbatim>\<open>undefined\<close> is
  \<open>JUndefined\<close> here and takes its default. The local object \<^verbatim>\<open>opts\<close> that the three
  callbacks of the chain share is passed from each to the next.
\<close>

definition request :: "env \<Rightarrow> string \<Rightarrow> string \<Rightarrow> json \<Rightarrow> farm \<Rightarrow> json outcome \<times> farm" where
  "request env endpoint meth payload0 s =
     (let payload = (if payload0 = JUndefined then JStr [] else payload0);
          url = host env @ endpoint;
          opts = \<lparr>method = meth,
                  headers = [(''Content-Type'', JStr ''application/json''),
                             (''Accept'', JStr ''json'')],
                  withCredentials = True,
                  data = None\<rparr>;
          opts = (if meth = ''POST'' \<or> meth = ''PUT''
                  then opts\<lparr>data := Some (JSON_stringify payload)\<rparr> else opts)
      in then_p (getAccessToken env s)
           (\<lambda>accessToken s1.
              let opts1 = opts\<lparr>headers := set_prop (headers opts) ''Authorization''
                                              (JStr (''Bearer '' @ to_string accessToken))\<rparr>
              in then_p (getCSRFToken env accessToken s1)
                   (\<lambda>csrfToken s2.
                      let opts2 = opts1\<lparr>headers := set_prop (headers opts1) ''X-CSRF-Token'' csrfToken\<rparr>
                      in axios_call env url opts2 s2)))"

section \<open>The pagination walker\<close>

text \<open>
  \<^verbatim>\<open>requestAll(url, page = 0, list = [])\<close>. Nothing bounds the recursion, so the function
  is partial: \<open>None\<close> is a walk that never ends.
\<close>

partial_function (option) requestAll ::
  "env \<Rightarrow> string \<Rightarrow> int \<Rightarrow> json list \<Rightarrow> farm \<Rightarrow> (json outcome \<times> farm) option" where
  "requestAll env url page list s =
     (case request env (url @ ''&page='' @ show_int page) ''GET'' JUndefined s of
        (Fulfilled response, s1) \<Rightarrow>
          (case get_prop response ''last'' of
             Inl e \<Rightarrow> Some (Rejected e, s1)
           | Inr l \<Rightarrow>
               (case last_page env l of
                  Inl e \<Rightarrow> Some (Rejected e, s1)
                | Inr lastPage \<Rightarrow>
                    (case get_prop response ''list'' of
                       Inl e \<Rightarrow> Some (Rejected e, s1)
                     | Inr items \<Rightarrow>
                         if lastPage = Some page
                         then Some (Fulfilled (JObj [(''list'', JArr (concat_arr list items))]), s1)
                         else Option.bind
                                (requestAll env url (page + 1) (concat_arr list items) s1)
                                (\<lambda>r. Some (settle r)))))
      | (Rejected e, s1) \<Rightarrow> Some (Rejected e, s1)
      | (Thrown e, s1) \<Rightarrow> Some (Thrown e, s1)
      | (Returned v, s1) \<Rightarrow> Some (Thrown (TypeError ''then is not a function''), s1))"

section \<open>The query builder\<close>

definition endsWith :: "string \<Rightarrow> char \<Rightarrow> bool" where
  "endsWith s c \<longleftrightarrow> s \<noteq> [] \<and> last s = c"

definition appendParam :: "string \<Rightarrow> json \<Rightarrow> string \<Rightarrow> string" where
  "appendParam name v endpoint =
     (if endsWith endpoint CHR ''?'' \<and> v \<noteq> JUndefined
      then endpoint @ name @ ''='' @ to_string v
      else if v \<noteq> JUndefined
      then endpoint @ ''&'' @ name @ ''='' @ to_string v
      else endpoint)"

text \<open>\<^verbatim>\<open>arr.reduce((acc, cur, i) => appendParam(`${name}[${i}]`, cur)(acc), endpoint)\<close>, from index \<open>i\<close> on.\<close>

fun reduce_params :: "string \<Rightarrow> json list \<Rightarrow> nat \<Rightarrow> string \<Rightarrow> string" where
  "reduce_params name [] i acc = acc"
| "reduce_params name (cur # rest) i acc =
     reduce_params name rest (Suc i) (appendParam (name @ ''['' @ show_nat i @ '']'') cur acc)"

fun appendArrayOfParams :: "string \<Rightarrow> json \<Rightarrow> string \<Rightarrow> error + string" where
  "appendArrayOfParams name JUndefined endpoint = Inr endpoint"
| "appendArrayOfParams name (JArr arr) endpoint = Inr (reduce_params name arr 0 endpoint)"
| "appendArrayOfParams name JNull endpoint = Inl (no_properties JNull ''reduce'')"
| "appendArrayOfParams name arr endpoint = Inl (TypeError ''arr.reduce is not a function'')"

section \<open>The batch walker\<close>

text \<open>
  \<^verbatim>\<open>batchRequest(name, arr, endpoint, results = [])\<close>. The argument \<open>results0\<close> is the
  value passed, \<open>JUndefined\<close> for one that is \<^verbatim>\<open>undefined\<close> or left out. The default
  applies at every entry, so also when the recursive call passes a \<^verbatim>\<open>_res.list\<close> that
  is \<^verbatim>\<open>undefined\<close>; of the values that have no \<^verbatim>\<open>concat\<close> only \<^verbatim>\<open>null\<close> gets through.
  \<^verbatim>\<open>arr.slice(0, 99)\<close> is \<open>take 99 arr\<close> and \<^verbatim>\<open>arr.slice(99)\<close> is \<open>drop 99 arr\<close>.
\<close>

function batchRequest ::
  "env \<Rightarrow> string \<Rightarrow> json list \<Rightarrow> string \<Rightarrow> json \<Rightarrow> farm \<Rightarrow> json outcome \<times> farm" where
  "batchRequest env name arr endpoint results0 s =
     (let results = default_to (JArr []) results0 in
      if length arr \<le> 100 then
        (case appendArrayOfParams name (JArr arr) endpoint of
           Inl e \<Rightarrow> (Thrown e, s)
         | Inr query \<Rightarrow>
             then_p (request env query ''GET'' JUndefined s)
               (\<lambda>res s1.
                  if nullish results
                  then (Thrown (no_properties results ''concat''), s1)
                  else
                    (case get_prop res ''list'' of
                       Inl e \<Rightarrow> (Thrown e, s1)
                     | Inr l \<Rightarrow>
                         (case js_concat results l of
                            Inl e \<Rightarrow> (Thrown e, s1)
                          | Inr c \<Rightarrow> (Returned (JObj [(''list'', c)]), s1)))))
      else
        (let thisBatch = take 99 arr;
             nextBatch = drop 99 arr
         in case appendArrayOfParams name (JArr thisBatch) endpoint of
              Inl e \<Rightarrow> (Thrown e, s)
            | Inr query \<Rightarrow>
                then_p (request env query ''GET'' JUndefined s)
                  (\<lambda>res s1.
                     case get_prop res ''list'' of
                       Inl e \<Rightarrow> (Thrown e, s1)
                     | Inr l \<Rightarrow> batchRequest env name nextBatch endpoint l s1)))"
  by pat_completeness auto
termination
  by (relation "measure (\<lambda>(env, name, arr, endpoint, results0, s). length arr)") auto

declare batchRequest.simps [simp del]

section \<open>The resource facades\<close>

text \<open>
  A facade that may walk pages is partial as \<open>requestAll\<close> is. \<open>then_o\<close> is \<open>then_p\<close>
  for a callback that may not come back.
\<close>

fun then_o ::
  "'a outcome \<times> 's \<Rightarrow> ('a \<Rightarrow> 's \<Rightarrow> ('b outcome \<times> 's) option) \<Rightarrow> ('b outcome \<times> 's) option" where
  "then_o (Fulfilled v, s) f = map_option settle (f v s)"
| "then_o (Rejected e, s) f = Some (Rejected e, s)"
| "then_o (Thrown e, s) f = Some (Thrown e, s)"
| "then_o (Returned v, s) f = Some (Thrown (TypeError ''then is not a function''), s)"

definition params :: "json \<Rightarrow> string" where
  "params ident = (if truthy ident then ''/'' @ to_string ident @ ''.json'' else ''.json'')"

text \<open>\<^verbatim>\<open>xs.find(voc => voc.machine_name === 'farm_areas')\<close>\<close>

fun find_farm_areas :: "json list \<Rightarrow> error + json" where
  "find_farm_areas [] = Inr JUndefined"
| "find_farm_areas (voc # rest) =
     (case get_prop voc ''machine_name'' of
        Inl e \<Rightarrow> Inl e
      | Inr m \<Rightarrow> if m = JStr ''farm_areas'' then Inr voc else find_farm_areas rest)"

definition areaVid :: "json \<Rightarrow> error + json" where
  "areaVid vocab =
     (case get_prop vocab ''list'' of
        Inl e \<Rightarrow> Inl e
      | Inr l \<Rightarrow>
          (case l of
             JArr xs \<Rightarrow>
               (case find_farm_areas xs of
                  Inl e \<Rightarrow> Inl e
                | Inr voc \<Rightarrow> get_prop voc ''vid'')
           | JUndefined \<Rightarrow> Inl (no_properties JUndefined ''find'')
           | JNull \<Rightarrow> Inl (no_properties JNull ''find'')
           | _ \<Rightarrow> Inl (TypeError ''vocab.list.find is not a function'')))"

subsection \<open>\<^verbatim>\<open>farm.area\<close>\<close>

definition area_delete :: "env \<Rightarrow> json \<Rightarrow> farm \<Rightarrow> json outcome \<times> farm" where
  "area_delete env ident s =
     then_p (request env ''/taxonomy_vocabulary.json'' ''GET'' JUndefined s)
       (\<lambda>res s1.
          case areaVid res of
            Inl e \<Rightarrow> (Thrown e, s1)
          | Inr vid \<Rightarrow>
              request env (''/taxonomy_term.json?vocabulary='' @ to_string vid @ params ident)
                ''DELETE'' JUndefined s1)"

definition area_get :: "env \<Rightarrow> json \<Rightarrow> farm \<Rightarrow> (json outcome \<times> farm) option" where
  "area_get env opts0 s =
     (let opts = default_to (JObj []) opts0 in
      then_o (request env ''/taxonomy_vocabulary.json'' ''GET'' JUndefined s)
        (\<lambda>res s1.
           case opts of
             JNum n \<Rightarrow>
               (case areaVid res of
                  Inl e \<Rightarrow> Some (Thrown e, s1)
                | Inr vid \<Rightarrow>
                    Some (request env (''/taxonomy_term.json?vocabulary='' @ to_string vid
                                        @ ''&tid='' @ to_string opts) ''GET'' JUndefined s1))
           | _ \<Rightarrow>
               if nullish opts then Some (Thrown (no_properties opts ''page''), s1)
               else
                 let page = default_to JNull (js_prop opts ''page'');
                     type = default_to (JStr []) (js_prop opts ''type'');
                     typeParams = (if type \<noteq> JStr [] then ''area_type='' @ to_string type else []);
                     pageParams = (if page \<noteq> JNull then ''page='' @ to_string page else [])
                 in if page = JNull
                    then (case areaVid res of
                            Inl e \<Rightarrow> Some (Thrown e, s1)
                          | Inr vid \<Rightarrow>
                              requestAll env (''/taxonomy_term.json?vocabulary='' @ to_string vid
                                               @ ''&'' @ typeParams) 0 [] s1)
                    else (case areaVid res of
                            Inl e \<Rightarrow> Some (Thrown e, s1)
                          | Inr vid \<Rightarrow>
                              Some (request env (''/taxonomy_term.json?vocabulary='' @ to_string vid
                                                  @ ''&'' @ typeParams @ ''&'' @ pageParams)
                                      ''GET'' JUndefined s1))))"

definition area_send :: "env \<Rightarrow> json \<Rightarrow> json \<Rightarrow> farm \<Rightarrow> json outcome \<times> farm" where
  "area_send env payload ident s =
     then_p (request env ''/taxonomy_vocabulary.json'' ''GET'' JUndefined s)
       (\<lambda>res s1.
          case areaVid res of
            Inl e \<Rightarrow> (Thrown e, s1)
          | Inr vid \<Rightarrow>
              request env (''/taxonomy_term.json?vocabulary='' @ to_string vid @ params ident)
                ''POST'' payload s1)"

subsection \<open>\<^verbatim>\<open>farm.log.get\<close>\<close>

definition log_get :: "env \<Rightarrow> json \<Rightarrow> farm \<Rightarrow> (json outcome \<times> farm) option" where
  "log_get env opts0 s =
     (let opts = default_to (JObj []) opts0 in
      case opts of
        JNum n \<Rightarrow> Some (request env (''/log/'' @ to_string opts @ ''.json'') ''GET'' JUndefined s)
      | JArr ids \<Rightarrow>
          if length ids > 0
          then Some (batchRequest env ''id'' ids ''/log.json?'' (JArr []) s)
          else Some (Returned (JObj [(''list'', JArr [])]), s)
      | _ \<Rightarrow>
          (if nullish opts then Some (Thrown (no_properties opts ''page''), s)
           else
             (let page = js_prop opts ''page'';
                  type = js_prop opts ''type'';
                  log_owner = js_prop opts ''log_owner'';
                  done = js_prop opts ''done''
              in (case appendArrayOfParams ''type'' type ''/log.json?'' of
                    Inl e \<Rightarrow> Some (Thrown e, s)
                  | Inr q \<Rightarrow>
                      (let query = appendParam ''log_owner'' log_owner (appendParam ''done'' done q)
                       in if page \<noteq> JUndefined
                          then Some (request env (appendParam ''page'' page query) ''GET'' JUndefined s)
                          else requestAll env query 0 [] s)))))"

subsection \<open>\<^verbatim>\<open>farm.asset\<close>\<close>

definition asset_delete :: "env \<Rightarrow> json \<Rightarrow> farm \<Rightarrow> json outcome \<times> farm" where
  "asset_delete env ident s =
     request env (''/farm_asset/'' @ to_string ident @ ''.json'') ''DELETE'' JUndefined s"

definition asset_get :: "env \<Rightarrow> json \<Rightarrow> farm \<Rightarrow> (json outcome \<times> farm) option" where
  "asset_get env opts0 s =
     (let opts = default_to (JObj []) opts0 in
      case opts of
        JNum n \<Rightarrow>
          Some (request env (''/farm_asset/'' @ to_string opts @ ''.json'') ''GET'' JUndefined s)
      | _ \<Rightarrow>
          (if nullish opts then Some (Thrown (no_properties opts ''type''), s)
           else
             (let type = default_to (JStr []) (js_prop opts ''type'');
                  archived = default_to (JBool False) (js_prop opts ''archived'');
                  page = default_to JNull (js_prop opts ''page'');
                  typeParams = (if type \<noteq> JStr [] then ''type='' @ to_string type else []);
                  archiveParams = (if truthy archived then [] else ''&archived=0'');
                  pageParams = (if page \<noteq> JNull then ''&page='' @ to_string page else [])
              in if page = JNull
                 then requestAll env (''/farm_asset.json?'' @ typeParams @ archiveParams) 0 [] s
                 else Some (request env (''/farm_asset.json?'' @ typeParams @ archiveParams @ pageParams)
                              ''GET'' JUndefined s))))"

definition asset_send :: "env \<Rightarrow> json \<Rightarrow> json \<Rightarrow> farm \<Rightarrow> json outcome \<times> farm" where
  "asset_send env payload ident s =
     request env (''/farm_asset'' @ params ident) ''POST'' payload s"

subsection \<open>\<^verbatim>\<open>farm.info\<close>, \<^verbatim>\<open>farm.vocabulary\<close>\<close>

definition info :: "env \<Rightarrow> farm \<Rightarrow> json outcome \<times> farm" where
  "info env s = request env ''/farm.json'' ''GET'' JUndefined s"

definition vocabulary :: "env \<Rightarrow> json \<Rightarrow> farm \<Rightarrow> json outcome \<times> farm" where
  "vocabulary env machineName s =
     (if machineName = JUndefined
      then request env ''/taxonomy_vocabulary.json'' ''GET'' JUndefined s
      else request env (''/taxonomy_vocabulary.json?machine_name='' @ to_string machineName)
             ''GET'' JUndefined s)"

subsection \<open>\<^verbatim>\<open>farm.log.delete\<close>, \<^verbatim>\<open>farm.log.send\<close>\<close>

definition log_delete :: "env \<Rightarrow> json \<Rightarrow> farm \<Rightarrow> json outcome \<times> farm" where
  "log_delete env ident s =
     request env (''/log/'' @ to_string ident @ ''.json'') ''DELETE'' JUndefined s"

text \<open>
  The own enumerable properties that \<^verbatim>\<open>{...res}\<close> copies: those of an object, the
  indexed elements of an array, the indexed characters of a string, none otherwise.
\<close>

fun spread :: "json \<Rightarrow> (string \<times> json) list" where
  "spread (JObj kvs) = kvs"
| "spread (JArr xs) = zip (map show_nat [0..<length xs]) xs"
| "spread (JStr cs) = zip (map show_nat [0..<length cs]) (map (\<lambda>c. JStr [c]) cs)"
| "spread v = []"

definition log_send :: "env \<Rightarrow> json \<Rightarrow> farm \<Rightarrow> json outcome \<times> farm" where
  "log_send env payload s =
     (case get_prop payload ''id'' of
        Inl e \<Rightarrow> (Thrown e, s)
      | Inr ident \<Rightarrow>
          if truthy ident
          then then_p (request env (''/log/'' @ to_string ident) ''PUT'' payload s)
                 (\<lambda>res s1.
                    (Returned
                       (JObj (set_prop
                                (set_prop (set_prop (spread res) ''id'' ident)
                                   ''uri'' (JStr (host env @ ''/log/'' @ to_string ident)))
                                ''resource'' (JStr ''log''))),
                     s1))
          else request env ''/log'' ''POST'' payload s)"

subsection \<open>\<^verbatim>\<open>farm.term\<close>\<close>

definition term_get :: "env \<Rightarrow> json \<Rightarrow> farm \<Rightarrow> (json outcome \<times> farm) option" where
  "term_get env opts0 s =
     (let opts = default_to (JObj []) opts0 in
      case opts of
        JStr bundle \<Rightarrow> requestAll env (''/taxonomy_term.json?bundle='' @ to_string opts) 0 [] s
      | _ \<Rightarrow>
          (if nullish opts then Some (Thrown (no_properties opts ''page''), s)
           else
             (let page = js_prop opts ''page'';
                  vocabulary = js_prop opts ''vocabulary'';
                  name = js_prop opts ''name'';
                  query = appendParam ''vocabulary'' vocabulary
                            (appendParam ''name'' name ''/taxonomy_term.json?'')
              in if page = JUndefined
                 then requestAll env query 0 [] s
                 else Some (request env (appendParam ''page'' page query) ''GET'' JUndefined s))))"

definition term_send :: "env \<Rightarrow> json \<Rightarrow> farm \<Rightarrow> json outcome \<times> farm" where
  "term_send env payload s =
     (case get_prop payload ''tid'' of
        Inl e \<Rightarrow> (Thrown e, s)
      | Inr tid \<Rightarrow>
          if truthy tid
          then request env (''/taxonomy_term/'' @ to_string tid) ''PUT'' payload s
          else request env ''/taxonomy_term'' ''POST'' payload s)"

subsection \<open>\<^verbatim>\<open>farm.authorize\<close>, \<^verbatim>\<open>farm.logout\<close>\<close>

definition authorize :: "env \<Rightarrow> json \<Rightarrow> json \<Rightarrow> json \<Rightarrow> farm \<Rightarrow> json outcome \<times> farm" where
  "authorize env user password scope0 s =
     (let scope = default_to (JStr ''user_access'') scope0 in
      if \<not> nullish user \<and> \<not> nullish password then
        then_p
          (let s' = s\<lparr>trace := trace s @ [GetToken user password scope]\<rparr> in
           case getToken env (trace s) user password scope of
             Inl e \<Rightarrow> (Rejected e, s')
           | Inr result \<Rightarrow> (Fulfilled result, s'))
          (\<lambda>result s1.
             case useToken env result s1 of
               (Inl e, s2) \<Rightarrow> (Thrown e, s2)
             | (Inr t, s2) \<Rightarrow> (Returned t, s2))
      else (Returned JUndefined, s))"

text \<open>
  \<^verbatim>\<open>farm.token.revokeAll().then(farm.token = null)\<close>: the assignment is the argument of
  \<^verbatim>\<open>then\<close>, so it runs as soon as the revocation is issued, and \<^verbatim>\<open>then(null)\<close> passes
  the revocation's own settlement on.
\<close>

definition logout :: "env \<Rightarrow> farm \<Rightarrow> json outcome \<times> farm" where
  "logout env s =
     (case token s of
        Some t \<Rightarrow>
          (let s' = s\<lparr>trace := trace s @ [RevokeAll t], token := None\<rparr> in
           case revokeAll env (trace s) t of
             Inl e \<Rightarrow> (Rejected e, s')
           | Inr v \<Rightarrow> (Fulfilled v, s'))
      | None \<Rightarrow> (Fulfilled JUndefined, s))"

subsection \<open>The public interface\<close>

datatype api =
    UseToken json
  | Authorize json json json
  | Logout
  | AreaDelete json
  | AreaGet json
  | AreaSend json json
  | AssetDelete json
  | AssetGet json
  | AssetSend json json
  | Info
  | LogDelete json
  | LogGet json
  | LogSend json
  | TermGet json
  | TermSend json
  | Vocabulary json

fun call :: "env \<Rightarrow> api \<Rightarrow> farm \<Rightarrow> (json outcome \<times> farm) option" where
  "call env (UseToken t) s =
     (case useToken env t s of
        (Inl e, s') \<Rightarrow> Some (Thrown e, s')
      | (Inr raw, s') \<Rightarrow> Some (Returned raw, s'))"
| "call env (Authorize user password scope) s = Some (authorize env user password scope s)"
| "call env Logout s = Some (logout env s)"
| "call env (AreaDelete ident) s = Some (area_delete env ident s)"
| "call env (AreaGet opts) s = area_get env opts s"
| "call env (AreaSend payload ident) s = Some (area_send env payload ident s)"
| "call env (AssetDelete ident) s = Some (asset_delete env ident s)"
| "call env (AssetGet opts) s = asset_get env opts s"
| "call env (AssetSend payload ident) s = Some (asset_send env payload ident s)"
| "call env Info s = Some (info env s)"
| "call env (LogDelete ident) s = Some (log_delete env ident s)"
| "call env (LogGet opts) s = log_get env opts s"
| "call env (LogSend payload) s = Some (log_send env payload s)"
| "call env (TermGet opts) s = term_get env opts s"
| "call env (TermSend payload) s = Some (term_send env payload s)"
| "call env (Vocabulary machineName) s = Some (vocabulary env machineName s)"

text \<open>The calls a program makes on one client, one after the other.\<close>

fun calls :: "env \<Rightarrow> api list \<Rightarrow> farm \<Rightarrow> farm option" where
  "calls env [] s = Some s"
| "calls env (c # cs) s =
     (case call env c s of
        None \<Rightarrow> None
      | Some (r, s') \<Rightarrow> calls env cs s')"

section \<open>A concrete server\<close>

text \<open>
  An environment to run the client in: a server with one vocabulary list, a log listing of
  two pages and one missing resource; tokens that expire when their \<^verbatim>\<open>expires_at\<close> is 0.
\<close>

definition valid_token :: access_token where
  "valid_token = AccessToken [(''access_token'', JStr ''abc''), (''refresh_token'', JStr ''r1''),
                              (''expires_at'', JNum 1)]"

definition stale_token :: access_token where
  "stale_token = AccessToken [(''access_token'', JStr ''old''), (''refresh_token'', JStr ''r0''),
                              (''expires_at'', JNum 0)]"

definition revoked_token :: access_token where
  "revoked_token = AccessToken [(''access_token'', JStr ''gone''), (''refresh_token'', JStr ''rx''),
                                (''expires_at'', JNum 0)]"

definition vocabularies :: json where
  "vocabularies =
     JObj [(''list'', JArr [JObj [(''machine_name'', JStr ''farm_crops''), (''vid'', JNum 2)],
                            JObj [(''machine_name'', JStr ''farm_areas''), (''vid'', JNum 3)]])]"

definition first_page :: json where
  "first_page = JObj [(''list'', JArr [JNum 1, JNum 2]),
                      (''last'', JStr ''https://farm.example/log.json?page=1'')]"

definition second_page :: json where
  "second_page = JObj [(''list'', JArr [JNum 3]),
                       (''last'', JStr ''https://farm.example/log.json?page=1'')]"

definition demo_server :: "event list \<Rightarrow> string \<Rightarrow> axios_opts \<Rightarrow> error + json" where
  "demo_server h url opts =
     (if url = ''https://farm.example/restws/session/token'' then Inr (JStr ''csrf-1'')
      else if url = ''https://farm.example/taxonomy_vocabulary.json'' then Inr vocabularies
      else if url = ''https://farm.example/missing.json''
        then Inl (LibError ''Request failed with status code 404'')
      else if url = ''https://farm.example/log.json?&page=1'' then Inr second_page
      else Inr first_page)"

definition demo_env :: env where
  "demo_env =
     \<lparr>host = ''https://farm.example'',
      client_id = ''farmos_development'',
      client_secret = [],
      create = (\<lambda>h t. case t of JObj kvs \<Rightarrow> Inr (AccessToken kvs)
                              | _ \<Rightarrow> Inl (TypeError ''token is not an object'')),
      expired = (\<lambda>h t. obj_get (tok t) ''expires_at'' = JNum 0),
      refresh = (\<lambda>h t cid secret.
                   if obj_get (tok t) ''refresh_token'' = JStr ''r0'' then Inr valid_token
                   else Inl (LibError ''invalid_grant'')),
      getToken = (\<lambda>h user password scope.
                    if password = JStr ''secret'' then Inr (JObj (tok valid_token))
                    else Inl (LibError ''invalid_grant'')),
      revokeAll = (\<lambda>h t. Inr JUndefined),
      axios = demo_server,
      last_page = (\<lambda>v. if v = JStr ''https://farm.example/log.json?page=1'' then Inr (Some 1)
                         else Inl (TypeError ''Invalid URL''))\<rparr>"

text \<open>A client that has been authorized and has made a request before.\<close>

definition demo_farm :: farm where
  "demo_farm = \<lparr>token = Some valid_token, csrfToken = JStr ''csrf-1'', trace = []\<rparr>"

text \<open>
  The walk of that client through the log listing: the options of its requests, the two
  answers, and its state after \<open>k\<close> pages.
\<close>

definition demo_opts :: axios_opts where
  "demo_opts =
     \<lparr>method = ''GET'',
      headers = [(''Content-Type'', JStr ''application/json''), (''Accept'', JStr ''json''),
                 (''Authorization'', JStr ''Bearer abc''), (''X-CSRF-Token'', JStr ''csrf-1'')],
      withCredentials = True, data = None\<rparr>"

definition demo_pages :: "nat \<Rightarrow> json" where
  "demo_pages k = (if k = 0 then first_page else second_page)"

definition demo_walk :: "nat \<Rightarrow> farm" where
  "demo_walk k =
     demo_farm\<lparr>trace := take k [Axios ''https://farm.example/log.json?&page=0'' demo_opts,
                                 Axios ''https://farm.example/log.json?&page=1'' demo_opts]\<rparr>"

text \<open>The same client with no connection to the server.\<close>

definition offline_env :: env where
  "offline_env = demo_env\<lparr>axios := (\<lambda>h url opts. Inl (LibError ''Network Error''))\<rparr>"

text \<open>
  A server that answers every call with the same listing. Its \<^verbatim>\<open>last\<close> link has the
  page index \<open>-1\<close>, so that it never names the page it has just served as the last one.
\<close>

definition uniform_page :: json where
  "uniform_page = JObj [(''list'', JArr [JNum 1]),
                        (''last'', JStr ''https://farm.example/log.json?page=-1'')]"

definition uniform_env :: env where
  "uniform_env =
     demo_env\<lparr>axios := (\<lambda>h url opts. Inr uniform_page),
              last_page := (\<lambda>v. if v = JStr ''https://farm.example/log.json?page=-1''
                                 then Inr (Some (- 1))
                                 else Inl (TypeError ''Invalid URL''))\<rparr>"

text \<open>A server that answers every call with the empty object.\<close>

definition bare_env :: env where
  "bare_env = demo_env\<lparr>axios := (\<lambda>h url opts. Inr (JObj []))\<rparr>"

text \<open>
  A server that numbers its answers: the list of an answer holds the number of the calls
  issued before it.
\<close>

definition counting_env :: env where
  "counting_env =
     demo_env\<lparr>axios := (\<lambda>h url opts. Inr (JObj [(''list'', JArr [JNum (int (length h))])]))\<rparr>"

text \<open>A server that makes a new session token each time one is fetched.\<close>

definition rotating_env :: env where
  "rotating_env =
     demo_env\<lparr>axios := (\<lambda>h url opts.
                if url = ''https://farm.example/restws/session/token''
                then Inr (JStr (if h = [] then ''csrf-1'' else ''csrf-2''))
                else demo_server h url opts)\<rparr>"

section \<open>Vocabulary of the properties\<close>

text \<open>The call that \<open>getCSRFToken\<close> issues to fetch a token, for an access token \<open>a\<close>.\<close>

definition csrf_fetch :: "env \<Rightarrow> json \<Rightarrow> event" where
  "csrf_fetch env a =
     Axios (host env @ ''/restws/session/token'')
       \<lparr>method = ''GET'',
        headers = [(''Content-Type'', JStr ''application/json''),
                   (''Accept'', JStr ''json''),
                   (''Authorization'', JStr (''Bearer '' @ to_string a))],
        withCredentials = True,
        data = None\<rparr>"

text \<open>
  From \<open>s\<close> to \<open>s'\<close> the cached CSRF token, if there is one, has stayed the same and no
  call that fetches one has been issued.
\<close>

definition csrf_kept :: "env \<Rightarrow> farm \<Rightarrow> farm \<Rightarrow> bool" where
  "csrf_kept env s s' \<longleftrightarrow>
     (\<not> nullish (csrfToken s) \<longrightarrow>
        csrfToken s' = csrfToken s \<and>
        (\<exists>evs. trace s' = trace s @ evs \<and> (\<forall>a. csrf_fetch env a \<notin> set evs)))"

text \<open>The same, of a call that may not come back.\<close>

definition csrf_kept_opt :: "env \<Rightarrow> farm \<Rightarrow> ('a \<times> farm) option \<Rightarrow> bool" where
  "csrf_kept_opt env s x \<longleftrightarrow> (case x of None \<Rightarrow> True | Some y \<Rightarrow> csrf_kept env s (snd y))"

text \<open>
  The HTTP calls that \<open>request\<close> has issued: they are the calls that carry a CSRF token.
\<close>

definition request_calls :: "event list \<Rightarrow> nat" where
  "request_calls evs =
     length (filter (\<lambda>ev. case ev of
                             Axios url opts \<Rightarrow> map_of (headers opts) ''X-CSRF-Token'' \<noteq> None
                           | _ \<Rightarrow> False) evs)"

text \<open>From \<open>s\<close> to \<open>s'\<close> calls have been issued, and none has been forgotten.\<close>

definition continues :: "farm \<Rightarrow> farm \<Rightarrow> bool" where
  "continues s s' \<longleftrightarrow> (\<exists>evs. trace s' = trace s @ evs)"

definition continues_opt :: "farm \<Rightarrow> ('a \<times> farm) option \<Rightarrow> bool" where
  "continues_opt s x \<longleftrightarrow> (case x of None \<Rightarrow> True | Some y \<Rightarrow> continues s (snd y))"

text \<open>
  An application of the query builder, and a series of them applied to an endpoint one
  after the other.
\<close>

datatype qop = Param string json | ArrayOfParams string "json list"

fun apply_qop :: "qop \<Rightarrow> string \<Rightarrow> string" where
  "apply_qop (Param name v) endpoint = appendParam name v endpoint"
| "apply_qop (ArrayOfParams name arr) endpoint =
     (case appendArrayOfParams name (JArr arr) endpoint of Inr q \<Rightarrow> q | Inl e \<Rightarrow> endpoint)"

fun apply_qops :: "qop list \<Rightarrow> string \<Rightarrow> string" where
  "apply_qops [] endpoint = endpoint"
| "apply_qops (b # bs) endpoint = apply_qops bs (apply_qop b endpoint)"

text \<open>
  The pairs that an application is to add, as they are written: \<^verbatim>\<open>name=value\<close>, and
  \<^verbatim>\<open>name[i]=value\<close> for the element \<open>i\<close> of an array; \<^verbatim>\<open>undefined\<close> adds none.
\<close>

fun indexed_pairs :: "string \<Rightarrow> json list \<Rightarrow> nat \<Rightarrow> string list" where
  "indexed_pairs name [] i = []"
| "indexed_pairs name (x # xs) i =
     (if x = JUndefined then [] else [name @ ''['' @ show_nat i @ '']'' @ ''='' @ to_string x])
     @ indexed_pairs name xs (Suc i)"

fun pairs_of :: "qop \<Rightarrow> string list" where
  "pairs_of (Param name v) = (if v = JUndefined then [] else [name @ ''='' @ to_string v])"
| "pairs_of (ArrayOfParams name arr) = indexed_pairs name arr 0"

definition all_pairs :: "qop list \<Rightarrow> string list" where
  "all_pairs bs = concat (map pairs_of bs)"

text \<open>
  The query that holds the pairs \<open>ps\<close> in this order, as it follows the endpoint \<open>e\<close>:
  the pairs separated by \<^verbatim>\<open>&\<close>, after one more \<^verbatim>\<open>&\<close> unless \<open>e\<close> ends with \<^verbatim>\<open>?\<close>.
\<close>

definition query_of :: "string \<Rightarrow> string list \<Rightarrow> string" where
  "query_of e ps = (if endsWith e CHR ''?'' then join ''&'' ps else concat (map ((@) ''&'') ps))"

text \<open>What the builder does, pair by pair: a pair is added directly after a \<^verbatim>\<open>?\<close>, after a \<^verbatim>\<open>&\<close> otherwise.\<close>

fun add_pairs :: "string \<Rightarrow> string list \<Rightarrow> string" where
  "add_pairs e [] = e"
| "add_pairs e (p # ps) = add_pairs (if endsWith e CHR ''?'' then e @ p else e @ ''&'' @ p) ps"

text \<open>
  The elements that request number \<open>k\<close> of a batch carries: 99 elements from element
  \<open>99 k\<close> on while more than 100 remain, all that remain otherwise.
\<close>

definition batch_chunk :: "json list \<Rightarrow> nat \<Rightarrow> json list" where
  "batch_chunk arr k =
     (if length (drop (99 * k) arr) \<le> 100 then drop (99 * k) arr
      else take 99 (drop (99 * k) arr))"

text \<open>
  The client \<open>demo_farm\<close> in a batch of 200 identifiers on the endpoint
  \<^verbatim>\<open>/log.json?\<close>: its state after \<open>k\<close> requests of the batch.
\<close>

definition batch_walk :: "nat \<Rightarrow> farm" where
  "batch_walk k =
     demo_farm\<lparr>trace :=
       map (\<lambda>j. Axios (''https://farm.example''
                       @ reduce_params ''id'' (batch_chunk (replicate 200 (JNum 7)) j) 0 ''/log.json?'')
                  demo_opts) [0..<k]\<rparr>"

text \<open>
  The query string of a URL is what follows its first \<^verbatim>\<open>?\<close>, and the pairs it holds
  are its parts between \<^verbatim>\<open>&\<close>, the empty ones left out: this is how
  \<^verbatim>\<open>searchParams\<close> separates them, before it decodes names and values. A fragment,
  which would end the query string at a \<^verbatim>\<open>#\<close>, and the decoding are left aside.
  \<open>split_on c s\<close> is \<^verbatim>\<open>s.split(c)\<close>.
\<close>

fun split_on :: "char \<Rightarrow> string \<Rightarrow> string list" where
  "split_on c [] = [[]]"
| "split_on c (x # xs) =
     (if x = c then [] # split_on c xs
      else (case split_on c xs of
              w # ws \<Rightarrow> (x # w) # ws
            | [] \<Rightarrow> [[x]]))"

definition url_search :: "string \<Rightarrow> string" where
  "url_search url = drop 1 (dropWhile (\<lambda>x. x \<noteq> CHR ''?'') url)"

definition query_pairs :: "string \<Rightarrow> string list" where
  "query_pairs url = filter (\<lambda>w. w \<noteq> []) (split_on CHR ''&'' (url_search url))"

section \<open>Properties of the query builder\<close>

text \<open>
  C4. \<^verbatim>\<open>appendParam(n, undefined)\<close> leaves every endpoint as it is. For a value \<open>v\<close> other
  than \<^verbatim>\<open>undefined\<close>, \<^verbatim>\<open>appendParam(n, v)\<close> appends the one pair \<^verbatim>\<open>n=v\<close>: directly
  when the endpoint ends with \<^verbatim>\<open>?\<close>, after a \<^verbatim>\<open>&\<close> otherwise.
\<close>

theorem appendParam_pair:
  "appendParam n JUndefined e = e \<and>
   (v \<noteq> JUndefined \<longrightarrow>
      appendParam n v e =
        (if endsWith e CHR ''?'' then e @ n @ ''='' @ to_string v
         else e @ ''&'' @ n @ ''='' @ to_string v))"
  by (simp add: appendParam_def)

theorem appendParam_pair_witness:
  "JNum 5 \<noteq> JUndefined \<and>
   appendParam ''page'' JUndefined ''/log.json?'' = ''/log.json?'' \<and>
   appendParam ''page'' (JNum 5) ''/log.json?'' = ''/log.json?page=5'' \<and>
   appendParam ''page'' (JNum 5) ''/log.json?done=1'' = ''/log.json?done=1&page=5''"
  using appendParam_pair [of "''page''" "''/log.json?''" "JNum 5"]
        appendParam_pair [of "''page''" "''/log.json?done=1''" "JNum 5"]
  by (simp add: endsWith_def show_int_def show_nat.simps digit_char_def)

lemma add_pairs_append: "add_pairs e (ps @ qs) = add_pairs (add_pairs e ps) qs"
  by (induction ps arbitrary: e) simp_all

lemma reduce_params_pairs:
  "reduce_params name xs i acc = add_pairs acc (indexed_pairs name xs i)"
  by (induction xs arbitrary: i acc) (simp_all add: appendParam_def)

lemma apply_qop_pairs: "apply_qop b e = add_pairs e (pairs_of b)"
  by (cases b) (simp_all add: appendParam_def reduce_params_pairs)

lemma apply_qops_pairs: "apply_qops bs e = add_pairs e (all_pairs bs)"
  by (induction bs arbitrary: e) (simp_all add: all_pairs_def apply_qop_pairs add_pairs_append)

lemma join_Cons: "join sep (p # ps) = p @ concat (map ((@) sep) ps)"
  by (induction ps arbitrary: p) simp_all

lemma add_pairs_plain:
  assumes "\<forall>p\<in>set ps. p \<noteq> [] \<and> \<not> endsWith p CHR ''?''"
  shows "add_pairs e ps = e @ query_of e ps"
  using assms
proof (induction ps arbitrary: e)
  case Nil
  then show ?case by (simp add: query_of_def)
next
  case (Cons p ps)
  then have p: "p \<noteq> []" "last p \<noteq> CHR ''?''" by (auto simp add: endsWith_def)
  let ?e = "if endsWith e CHR ''?'' then e @ p else e @ ''&'' @ p"
  from p have no: "\<not> endsWith ?e CHR ''?''" by (simp add: endsWith_def)
  have "add_pairs e (p # ps) = add_pairs ?e ps" by simp
  also have "\<dots> = ?e @ query_of ?e ps" using Cons by simp
  also have "\<dots> = e @ query_of e (p # ps)"
    using no by (simp add: query_of_def join_Cons)
  finally show ?case .
qed

lemma indexed_pairs_nonempty: "p \<in> set (indexed_pairs name xs i) \<Longrightarrow> p \<noteq> []"
  by (induction xs arbitrary: i) (auto split: if_splits)

lemma all_pairs_nonempty: "p \<in> set (all_pairs bs) \<Longrightarrow> p \<noteq> []"
proof -
  have "p \<in> set (pairs_of b) \<Longrightarrow> p \<noteq> []" for b
    by (cases b) (auto split: if_splits dest: indexed_pairs_nonempty)
  then show "p \<in> set (all_pairs bs) \<Longrightarrow> p \<noteq> []"
    by (auto simp add: all_pairs_def)
qed

lemma mset_all_pairs: "mset (all_pairs bs) = (\<Sum>b\<in>#mset bs. mset (pairs_of b))"
  by (induction bs) (simp_all add: all_pairs_def)

lemma all_pairs_reordered: "mset bs' = mset bs \<Longrightarrow> mset (all_pairs bs') = mset (all_pairs bs)"
  by (simp add: mset_all_pairs)


text \<open>The pairs that the query string holds once pairs have been added to an endpoint.\<close>

lemma split_on_nonempty [simp]: "split_on c xs \<noteq> []"
  by (induction xs) (auto split: list.splits)

lemma split_on_no_sep: "c \<notin> set xs \<Longrightarrow> split_on c xs = [xs]"
  by (induction xs) auto

lemma split_on_append: "split_on c (xs @ c # ys) = split_on c xs @ split_on c ys"
  by (induction xs) (auto split: list.splits)

lemma split_on_pairs:
  assumes "\<forall>p\<in>set ps. c \<notin> set p"
  shows "split_on c (q @ concat (map ((#) c) ps)) = split_on c q @ ps"
  using assms
proof (induction ps arbitrary: q)
  case Nil
  then show ?case by simp
next
  case (Cons p ps)
  have "split_on c (q @ concat (map ((#) c) (p # ps))) =
          split_on c (q @ c # (p @ concat (map ((#) c) ps)))"
    by simp
  also have "\<dots> = split_on c q @ split_on c (p @ concat (map ((#) c) ps))"
    by (rule split_on_append)
  also have "split_on c (p @ concat (map ((#) c) ps)) = split_on c p @ ps"
    using Cons by simp
  also have "split_on c p = [p]"
    using Cons.prems by (simp add: split_on_no_sep)
  finally show ?case by simp
qed

lemma amp_Cons: "(@) ''&'' = (#) CHR ''&''"
  by (rule ext) simp

lemma url_search_append:
  assumes "CHR ''?'' \<in> set e"
  shows "url_search (e @ t) = url_search e @ t"
proof -
  have d: "dropWhile (\<lambda>x. x \<noteq> CHR ''?'') (e @ t) = dropWhile (\<lambda>x. x \<noteq> CHR ''?'') e @ t"
    using assms by (intro dropWhile_append1 [of "CHR ''?''"]) simp_all
  have "dropWhile (\<lambda>x. x \<noteq> CHR ''?'') e \<noteq> []"
    using assms by (auto simp add: dropWhile_eq_Nil_conv)
  then show ?thesis
    unfolding url_search_def d by (cases "dropWhile (\<lambda>x. x \<noteq> CHR ''?'') e") simp_all
qed

lemma url_search_last:
  assumes "url_search e \<noteq> []"
  shows "last (url_search e) = last e"
proof -
  have "url_search e = drop (1 + length (takeWhile (\<lambda>x. x \<noteq> CHR ''?'') e)) e"
    by (simp add: url_search_def dropWhile_eq_drop)
  with assms show ?thesis by (metis drop_eq_Nil last_drop not_le)
qed

lemma query_pairs_add_pairs:
  assumes "CHR ''?'' \<in> set e" and "\<not> endsWith (url_search e) CHR ''?''"
    and "\<forall>p\<in>set ps. p \<noteq> [] \<and> CHR ''&'' \<notin> set p \<and> \<not> endsWith p CHR ''?''"
  shows "query_pairs (add_pairs e ps) = query_pairs e @ ps"
proof -
  from assms(3) have plain: "\<forall>p\<in>set ps. p \<noteq> [] \<and> \<not> endsWith p CHR ''?''"
    and nosep: "\<forall>p\<in>set ps. CHR ''&'' \<notin> set p"
    and nonempty: "filter (\<lambda>w. w \<noteq> []) ps = ps"
    by (auto simp add: filter_id_conv)
  have built: "add_pairs e ps = e @ query_of e ps"
    by (rule add_pairs_plain [OF plain])
  show ?thesis
  proof (cases "endsWith e CHR ''?''")
    case True
    have empty: "url_search e = []"
    proof (rule ccontr)
      assume "url_search e \<noteq> []"
      with url_search_last [OF this] True assms(2) show False
        by (simp add: endsWith_def)
    qed
    have "query_pairs (e @ join ''&'' ps) = ps"
    proof (cases ps)
      case Nil
      then show ?thesis by (simp add: query_pairs_def url_search_append [OF assms(1)] empty)
    next
      case (Cons p ps')
      with nosep have "split_on CHR ''&'' (p @ concat (map ((@) ''&'') ps')) = split_on CHR ''&'' p @ ps'"
        unfolding amp_Cons by (intro split_on_pairs) simp
      moreover have "split_on CHR ''&'' p = [p]"
        using nosep Cons by (simp add: split_on_no_sep)
      ultimately show ?thesis
        using nonempty Cons
        by (simp add: query_pairs_def url_search_append [OF assms(1)] empty join_Cons)
    qed
    with True show ?thesis
      by (simp add: built query_of_def) (simp add: query_pairs_def empty)
  next
    case False
    have "split_on CHR ''&'' (url_search e @ concat (map ((@) ''&'') ps)) =
            split_on CHR ''&'' (url_search e) @ ps"
      unfolding amp_Cons using nosep by (intro split_on_pairs) simp
    with False show ?thesis
      using nonempty
      by (simp add: built query_of_def query_pairs_def url_search_append [OF assms(1)])
  qed
qed

text \<open>
  The claim C5 has every application order, on every endpoint, yield a query string that
  holds each pair exactly once. Nothing is encoded, and \<^verbatim>\<open>&\<close> is written or not by
  the last character of what has been built, so the claim fails
  \<^item> when a value ends with \<^verbatim>\<open>?\<close>: the pair added next follows it with no \<^verbatim>\<open>&\<close>, and
    \<^verbatim>\<open>b=1\<close> is no pair of \<^verbatim>\<open>/log.json?a=x?b=1\<close>, while in the other order it is one;
  \<^item> when a value holds \<^verbatim>\<open>&\<close>: \<^verbatim>\<open>a=1&b=2\<close> reads as two pairs, and \<^verbatim>\<open>b=2\<close> is held twice;
  \<^item> when the endpoint holds the pair already;
  \<^item> when the endpoint has no \<^verbatim>\<open>?\<close>: what is built has no query string;
  \<^item> when the query string of the endpoint ends with \<^verbatim>\<open>?\<close>;
  \<^item> when distinct names write the same pair, as \<^verbatim>\<open>a[0]\<close> and the array \<^verbatim>\<open>a\<close> do.
\<close>

theorem query_order_matters:
  "apply_qops [Param ''a'' (JStr ''x?''), Param ''b'' (JNum 1)] ''/log.json?'' = ''/log.json?a=x?b=1'' \<and>
   count (mset (query_pairs ''/log.json?a=x?b=1'')) ''b=1'' = 0 \<and>
   apply_qops [Param ''b'' (JNum 1), Param ''a'' (JStr ''x?'')] ''/log.json?'' = ''/log.json?b=1&a=x?'' \<and>
   count (mset (query_pairs ''/log.json?b=1&a=x?'')) ''b=1'' = 1 \<and>
   apply_qops [Param ''a'' (JStr ''1&b=2''), Param ''b'' (JNum 2)] ''/x?'' = ''/x?a=1&b=2&b=2'' \<and>
   count (mset (query_pairs ''/x?a=1&b=2&b=2'')) ''b=2'' = 2 \<and>
   apply_qops [Param ''b'' (JNum 2)] ''/x?b=2'' = ''/x?b=2&b=2'' \<and>
   count (mset (query_pairs ''/x?b=2&b=2'')) ''b=2'' = 2 \<and>
   apply_qops [Param ''b'' (JNum 2)] ''/x'' = ''/x&b=2'' \<and>
   count (mset (query_pairs ''/x&b=2'')) ''b=2'' = 0 \<and>
   apply_qops [Param ''b'' (JNum 2)] ''/x?a?'' = ''/x?a?b=2'' \<and>
   count (mset (query_pairs ''/x?a?b=2'')) ''b=2'' = 0 \<and>
   ''a[0]'' \<noteq> ''a'' \<and>
   apply_qops [Param ''a[0]'' (JNum 1), ArrayOfParams ''a'' [JNum 1]] ''/x?'' = ''/x?a[0]=1&a[0]=1'' \<and>
   count (mset (query_pairs ''/x?a[0]=1&a[0]=1'')) ''a[0]=1'' = 2"
  by (simp add: appendParam_def endsWith_def show_int_def show_nat.simps digit_char_def
                query_pairs_def url_search_def)

text \<open>
  C5, as the code has it. Let the endpoint hold a \<^verbatim>\<open>?\<close> and its query string not end
  with \<^verbatim>\<open>?\<close>; let the pairs to be added hold no \<^verbatim>\<open>&\<close>, not end with \<^verbatim>\<open>?\<close>, be
  pairwise distinct and not be held by the endpoint. Then the applications in any order
  turn the endpoint into the endpoint followed by the pairs, each after a \<^verbatim>\<open>&\<close> except
  the one that follows the \<^verbatim>\<open>?\<close> directly; the query string of the result holds the
  pairs of the endpoint followed by the added pairs in the order of the applications, so
  two orders differ in the order of the pairs only, and each added pair is held exactly
  once. This holds whatever the names are, and with values that are \<^verbatim>\<open>undefined\<close>, which
  add no pair.
\<close>

theorem query_order_content:
  assumes "mset bs' = mset bs"
    and "CHR ''?'' \<in> set e" and "\<not> endsWith (url_search e) CHR ''?''"
    and "\<forall>p\<in>set (all_pairs bs).
           CHR ''&'' \<notin> set p \<and> \<not> endsWith p CHR ''?'' \<and> p \<notin> set (query_pairs e)"
    and "distinct (all_pairs bs)"
  shows "apply_qops bs' e = e @ query_of e (all_pairs bs') \<and>
         query_pairs (apply_qops bs' e) = query_pairs e @ all_pairs bs' \<and>
         mset (query_pairs (apply_qops bs' e)) = mset (query_pairs (apply_qops bs e)) \<and>
         (\<forall>p\<in>set (all_pairs bs). count (mset (query_pairs (apply_qops bs' e))) p = 1)"
proof -
  have same: "mset (all_pairs bs') = mset (all_pairs bs)"
    by (rule all_pairs_reordered [OF assms(1)])
  then have set: "set (all_pairs bs') = set (all_pairs bs)"
    by (rule mset_eq_setD)
  have ok: "\<forall>p\<in>set (all_pairs bs). p \<noteq> [] \<and> CHR ''&'' \<notin> set p \<and> \<not> endsWith p CHR ''?''"
    using assms(4) by (auto dest: all_pairs_nonempty)
  then have ok': "\<forall>p\<in>set (all_pairs bs'). p \<noteq> [] \<and> CHR ''&'' \<notin> set p \<and> \<not> endsWith p CHR ''?''"
    unfolding set .
  have "add_pairs e (all_pairs bs') = e @ query_of e (all_pairs bs')"
    by (rule add_pairs_plain) (use ok' in blast)
  then have result: "apply_qops bs' e = e @ query_of e (all_pairs bs')"
    by (simp add: apply_qops_pairs)
  have parts': "query_pairs (apply_qops bs' e) = query_pairs e @ all_pairs bs'"
    unfolding apply_qops_pairs by (rule query_pairs_add_pairs [OF assms(2,3) ok'])
  have parts: "query_pairs (apply_qops bs e) = query_pairs e @ all_pairs bs"
    unfolding apply_qops_pairs by (rule query_pairs_add_pairs [OF assms(2,3) ok])
  have reordered: "mset (query_pairs (apply_qops bs' e)) = mset (query_pairs (apply_qops bs e))"
    unfolding parts parts' by (simp add: same)
  have once: "\<forall>p\<in>set (all_pairs bs). count (mset (query_pairs (apply_qops bs' e))) p = 1"
  proof
    fix p assume p: "p \<in> set (all_pairs bs)"
    with assms(4) have "count (mset (query_pairs e)) p = 0"
      by (simp add: count_eq_zero_iff)
    moreover from p assms(5) have "count (mset (all_pairs bs)) p = 1"
      by (simp add: distinct_count_atmost_1)
    ultimately show "count (mset (query_pairs (apply_qops bs' e))) p = 1"
      unfolding parts' by (simp add: same)
  qed
  from result parts' reordered once show ?thesis by blast
qed

theorem query_order_content_witness:
  "apply_qops [Param ''log_owner'' (JNum 4), ArrayOfParams ''type'' [JStr ''farm_activity'', JStr ''farm_harvest'']]
     ''/log.json?'' = ''/log.json?log_owner=4&type[0]=farm_activity&type[1]=farm_harvest'' \<and>
   apply_qops [ArrayOfParams ''type'' [JStr ''farm_activity'', JStr ''farm_harvest''], Param ''log_owner'' (JNum 4)]
     ''/log.json?'' = ''/log.json?type[0]=farm_activity&type[1]=farm_harvest&log_owner=4'' \<and>
   query_pairs ''/log.json?log_owner=4&type[0]=farm_activity&type[1]=farm_harvest'' =
     [''log_owner=4'', ''type[0]=farm_activity'', ''type[1]=farm_harvest''] \<and>
   query_pairs ''/log.json?type[0]=farm_activity&type[1]=farm_harvest&log_owner=4'' =
     [''type[0]=farm_activity'', ''type[1]=farm_harvest'', ''log_owner=4''] \<and>
   count (mset (query_pairs ''/log.json?type[0]=farm_activity&type[1]=farm_harvest&log_owner=4''))
     ''type[1]=farm_harvest'' = 1 \<and>
   apply_qops [Param ''page'' (JNum 2), Param ''done'' JUndefined] ''/log.json?type=farm_harvest'' =
     ''/log.json?type=farm_harvest&page=2'' \<and>
   query_pairs ''/log.json?type=farm_harvest&page=2'' = [''type=farm_harvest'', ''page=2''] \<and>
   count (mset (query_pairs ''/log.json?type=farm_harvest&page=2'')) ''page=2'' = 1"
proof -
  let ?a = "Param ''log_owner'' (JNum 4)"
  let ?b = "ArrayOfParams ''type'' [JStr ''farm_activity'', JStr ''farm_harvest'']"
  let ?c = "[Param ''page'' (JNum 2), Param ''done'' JUndefined]"
  have pairs: "all_pairs [?a, ?b] = [''log_owner=4'', ''type[0]=farm_activity'', ''type[1]=farm_harvest'']"
    "all_pairs [?b, ?a] = [''type[0]=farm_activity'', ''type[1]=farm_harvest'', ''log_owner=4'']"
    "all_pairs ?c = [''page=2'']"
    by (simp_all add: all_pairs_def show_int_def show_nat.simps digit_char_def)
  have e: "url_search ''/log.json?'' = []" "query_pairs ''/log.json?'' = []"
    "url_search ''/log.json?type=farm_harvest'' = ''type=farm_harvest''"
    "query_pairs ''/log.json?type=farm_harvest'' = [''type=farm_harvest'']"
    by (simp_all add: query_pairs_def url_search_def)
  have pre: "mset [?b, ?a] = mset [?a, ?b]" "mset [?a, ?b] = mset [?a, ?b]"
    "CHR ''?'' \<in> set ''/log.json?''" "\<not> endsWith (url_search ''/log.json?'') CHR ''?''"
    "\<forall>p\<in>set (all_pairs [?a, ?b]).
       CHR ''&'' \<notin> set p \<and> \<not> endsWith p CHR ''?'' \<and> p \<notin> set (query_pairs ''/log.json?'')"
    "distinct (all_pairs [?a, ?b])"
    unfolding pairs e by (simp_all add: endsWith_def)
  have pre': "mset ?c = mset ?c"
    "CHR ''?'' \<in> set ''/log.json?type=farm_harvest''"
    "\<not> endsWith (url_search ''/log.json?type=farm_harvest'') CHR ''?''"
    "\<forall>p\<in>set (all_pairs ?c).
       CHR ''&'' \<notin> set p \<and> \<not> endsWith p CHR ''?'' \<and>
       p \<notin> set (query_pairs ''/log.json?type=farm_harvest'')"
    "distinct (all_pairs ?c)"
    unfolding pairs e by (simp_all add: endsWith_def)
  have built:
    "apply_qops [?a, ?b] ''/log.json?'' = ''/log.json?log_owner=4&type[0]=farm_activity&type[1]=farm_harvest''"
    "apply_qops [?b, ?a] ''/log.json?'' = ''/log.json?type[0]=farm_activity&type[1]=farm_harvest&log_owner=4''"
    "apply_qops ?c ''/log.json?type=farm_harvest'' = ''/log.json?type=farm_harvest&page=2''"
    by (simp_all add: appendParam_def endsWith_def show_int_def show_nat.simps digit_char_def)
  note swapped = query_order_content [OF pre(1,3,4,5,6)]
  note same = query_order_content [OF pre(2,3,4,5,6)]
  note more = query_order_content [OF pre']
  have parts:
    "query_pairs (apply_qops [?b, ?a] ''/log.json?'') = query_pairs ''/log.json?'' @ all_pairs [?b, ?a]"
    "query_pairs (apply_qops [?a, ?b] ''/log.json?'') = query_pairs ''/log.json?'' @ all_pairs [?a, ?b]"
    "query_pairs (apply_qops ?c ''/log.json?type=farm_harvest'') =
       query_pairs ''/log.json?type=farm_harvest'' @ all_pairs ?c"
    using swapped same more by blast+
  have "\<forall>p\<in>set (all_pairs [?a, ?b]). count (mset (query_pairs (apply_qops [?b, ?a] ''/log.json?''))) p = 1"
    using swapped by blast
  then have once: "count (mset (query_pairs (apply_qops [?b, ?a] ''/log.json?''))) ''type[1]=farm_harvest'' = 1"
    unfolding pairs by simp
  have "\<forall>p\<in>set (all_pairs ?c). count (mset (query_pairs (apply_qops ?c ''/log.json?type=farm_harvest''))) p = 1"
    using more by blast
  then have once': "count (mset (query_pairs (apply_qops ?c ''/log.json?type=farm_harvest''))) ''page=2'' = 1"
    unfolding pairs by simp
  show ?thesis
    using parts [unfolded pairs e built] once [unfolded built] once' [unfolded built] built
    by simp
qed


section \<open>Properties of the token manager\<close>

lemmas demo_simps =
  demo_env_def demo_farm_def valid_token_def stale_token_def revoked_token_def obj_get_def

lemmas run_simps =
  request_def getAccessToken_def getCSRFToken_def axios_call_def token_refresh_def useToken_def
  get_prop_def js_prop_def nullish_def default_to_def Let_def demo_server_def
  first_page_def second_page_def vocabularies_def offline_env_def

text \<open>
  C6. \<open>getAccessToken\<close> throws when no token was ever established. A token that has not
  expired is answered from the state: its \<^verbatim>\<open>access_token\<close>, with no call issued and the
  state as it was. An expired token costs one refresh call: when that fails its error is
  the rejection and nothing else is issued; when it succeeds the token made from the
  answer replaces the stored one and its \<^verbatim>\<open>access_token\<close> is the result.
\<close>

theorem getAccessToken_cases:
  "(token s = None \<longrightarrow>
      getAccessToken env s =
        (Thrown (Error ''client must be authorized before making requests.''), s)) \<and>
   (token s = Some t \<and> \<not> expired env (trace s) t \<longrightarrow>
      getAccessToken env s = (Fulfilled (obj_get (tok t) ''access_token''), s)) \<and>
   (token s = Some t \<and> expired env (trace s) t \<and>
    refresh env (trace s) t (client_id env) (client_secret env) = Inl e \<longrightarrow>
      getAccessToken env s =
        (Rejected e, s\<lparr>trace := trace s @ [Refresh t (client_id env) (client_secret env)]\<rparr>)) \<and>
   (token s = Some t \<and> expired env (trace s) t \<and>
    refresh env (trace s) t (client_id env) (client_secret env) = Inr accessToken \<and>
    create env (trace s @ [Refresh t (client_id env) (client_secret env)]) (JObj (tok accessToken))
      = Inr newToken \<longrightarrow>
      getAccessToken env s =
        (Fulfilled (obj_get (tok newToken) ''access_token''),
         s\<lparr>trace := trace s @ [Refresh t (client_id env) (client_secret env)],
           token := Some newToken\<rparr>))"
  by (simp add: getAccessToken_def token_refresh_def useToken_def get_prop_def nullish_def js_prop_def Let_def)

theorem getAccessToken_cases_witness:
  "getAccessToken demo_env (demo_farm\<lparr>token := None\<rparr>) =
     (Thrown (Error ''client must be authorized before making requests.''), demo_farm\<lparr>token := None\<rparr>) \<and>
   getAccessToken demo_env demo_farm = (Fulfilled (JStr ''abc''), demo_farm) \<and>
   getAccessToken demo_env (demo_farm\<lparr>token := Some revoked_token\<rparr>) =
     (Rejected (LibError ''invalid_grant''),
      demo_farm\<lparr>token := Some revoked_token, trace := [Refresh revoked_token ''farmos_development'' []]\<rparr>) \<and>
   getAccessToken demo_env (demo_farm\<lparr>token := Some stale_token\<rparr>) =
     (Fulfilled (JStr ''abc''),
      demo_farm\<lparr>token := Some valid_token, trace := [Refresh stale_token ''farmos_development'' []]\<rparr>)"
  using getAccessToken_cases [where s = "demo_farm\<lparr>token := None\<rparr>" and env = demo_env]
        getAccessToken_cases [where s = demo_farm and t = valid_token and env = demo_env]
        getAccessToken_cases [where s = "demo_farm\<lparr>token := Some revoked_token\<rparr>"
                                and t = revoked_token and env = demo_env
                                and e = "LibError ''invalid_grant''"]
        getAccessToken_cases [where s = "demo_farm\<lparr>token := Some stale_token\<rparr>"
                                and t = stale_token and env = demo_env
                                and accessToken = valid_token and newToken = valid_token]
  by (simp add: demo_simps)

section \<open>Properties of the request executor\<close>

lemma getCSRFToken_present:
  "\<not> nullish (csrfToken s) \<Longrightarrow> getCSRFToken env a s = (Fulfilled (csrfToken s), s)"
  by (simp add: getCSRFToken_def)

lemma getCSRFToken_absent:
  "nullish (csrfToken s) \<Longrightarrow>
   getCSRFToken env a s =
     (let url = host env @ ''/restws/session/token'';
          opts = \<lparr>method = ''GET'',
                  headers = [(''Content-Type'', JStr ''application/json''),
                             (''Accept'', JStr ''json''),
                             (''Authorization'', JStr (''Bearer '' @ to_string a))],
                  withCredentials = True,
                  data = None\<rparr>;
          s1 = s\<lparr>trace := trace s @ [Axios url opts]\<rparr>
      in case axios env (trace s) url opts of
           Inl e \<Rightarrow> (Rejected e, s1)
         | Inr res_data \<Rightarrow> (Fulfilled res_data, s1\<lparr>csrfToken := res_data\<rparr>))"
  by (simp add: getCSRFToken_def axios_call_def Let_def split: sum.splits)


lemma request_token_thrown:
  "getAccessToken env s = (Thrown e, s1) \<Longrightarrow> request env endpoint meth payload s = (Thrown e, s1)"
  by (simp add: request_def Let_def)

lemma request_token_rejected:
  "getAccessToken env s = (Rejected e, s1) \<Longrightarrow> request env endpoint meth payload s = (Rejected e, s1)"
  by (simp add: request_def Let_def)

lemma request_csrf_rejected:
  "getAccessToken env s = (Fulfilled a, s1) \<Longrightarrow> getCSRFToken env a s1 = (Rejected e, s2) \<Longrightarrow>
   request env endpoint meth payload s = (Rejected e, s2)"
  by (simp add: request_def Let_def)

lemma settle_axios_call [simp]: "settle (axios_call env url opts s) = axios_call env url opts s"
  by (simp add: axios_call_def Let_def split: sum.splits)

lemma request_http:
  "getAccessToken env s = (Fulfilled a, s1) \<Longrightarrow> getCSRFToken env a s1 = (Fulfilled c, s2) \<Longrightarrow>
   request env endpoint meth payload s =
     axios_call env (host env @ endpoint)
       \<lparr>method = meth,
        headers = [(''Content-Type'', JStr ''application/json''),
                   (''Accept'', JStr ''json''),
                   (''Authorization'', JStr (''Bearer '' @ to_string a)),
                   (''X-CSRF-Token'', c)],
        withCredentials = True,
        data = (if meth = ''POST'' \<or> meth = ''PUT''
                then Some (JSON_stringify (default_to (JStr []) payload))
                else None)\<rparr> s2"
  by (simp add: request_def Let_def default_to_def)

text \<open>
  C8. \<open>request\<close> first obtains the access token, then the CSRF token, then issues
  exactly one HTTP call, whose headers carry both (\<^verbatim>\<open>Authorization: Bearer\<close> and
  \<^verbatim>\<open>X-CSRF-Token\<close>) and whose body is the serialized payload exactly when the method is
  \<^verbatim>\<open>POST\<close> or \<^verbatim>\<open>PUT\<close>; the result is the body of the response. An error of any of
  the three steps is the error of \<open>request\<close>, and no later step is run.
\<close>

theorem request_pipeline:
  "(getAccessToken env s = (Thrown e, sa) \<longrightarrow>
      request env endpoint meth payload s = (Thrown e, sa)) \<and>
   (getAccessToken env s = (Rejected e, sa) \<longrightarrow>
      request env endpoint meth payload s = (Rejected e, sa)) \<and>
   (getAccessToken env s = (Fulfilled accessToken, sa) \<and>
    getCSRFToken env accessToken sa = (Rejected e, sb) \<longrightarrow>
      request env endpoint meth payload s = (Rejected e, sb)) \<and>
   (getAccessToken env s = (Fulfilled accessToken, sa) \<and>
    getCSRFToken env accessToken sa = (Fulfilled csrf, sb) \<longrightarrow>
      (let opts = \<lparr>method = meth,
                   headers = [(''Content-Type'', JStr ''application/json''),
                              (''Accept'', JStr ''json''),
                              (''Authorization'', JStr (''Bearer '' @ to_string accessToken)),
                              (''X-CSRF-Token'', csrf)],
                   withCredentials = True,
                   data = (if meth = ''POST'' \<or> meth = ''PUT''
                           then Some (JSON_stringify (default_to (JStr []) payload))
                           else None)\<rparr>;
           sc = sb\<lparr>trace := trace sb @ [Axios (host env @ endpoint) opts]\<rparr>
       in request env endpoint meth payload s =
            (case axios env (trace sb) (host env @ endpoint) opts of
               Inl e' \<Rightarrow> (Rejected e', sc)
             | Inr res_data \<Rightarrow> (Fulfilled res_data, sc))))"
  using request_token_thrown [of env s e sa endpoint meth payload]
        request_token_rejected [of env s e sa endpoint meth payload]
        request_csrf_rejected [of env s accessToken sa e sb endpoint meth payload]
        request_http [of env s accessToken sa csrf sb endpoint meth payload]
  by (simp add: axios_call_def Let_def split: sum.splits)

theorem request_pipeline_witness:
  "request demo_env ''/farm.json'' ''GET'' JUndefined (demo_farm\<lparr>token := None\<rparr>) =
     (Thrown (Error ''client must be authorized before making requests.''),
      demo_farm\<lparr>token := None\<rparr>) \<and>
   request demo_env ''/farm.json'' ''GET'' JUndefined (demo_farm\<lparr>token := Some revoked_token\<rparr>) =
     (Rejected (LibError ''invalid_grant''),
      demo_farm\<lparr>token := Some revoked_token,
                trace := [Refresh revoked_token ''farmos_development'' []]\<rparr>) \<and>
   request offline_env ''/farm.json'' ''GET'' JUndefined (demo_farm\<lparr>csrfToken := JNull\<rparr>) =
     (Rejected (LibError ''Network Error''),
      demo_farm\<lparr>csrfToken := JNull, trace := [csrf_fetch offline_env (JStr ''abc'')]\<rparr>) \<and>
   request demo_env ''/missing.json'' ''GET'' JUndefined demo_farm =
     (Rejected (LibError ''Request failed with status code 404''),
      demo_farm\<lparr>trace :=
        [Axios ''https://farm.example/missing.json''
           \<lparr>method = ''GET'',
            headers = [(''Content-Type'', JStr ''application/json''), (''Accept'', JStr ''json''),
                       (''Authorization'', JStr ''Bearer abc''), (''X-CSRF-Token'', JStr ''csrf-1'')],
            withCredentials = True, data = None\<rparr>]\<rparr>) \<and>
   request demo_env ''/log'' ''POST'' (JObj [(''title'', JStr ''x'')]) demo_farm =
     (Fulfilled first_page,
      demo_farm\<lparr>trace :=
        [Axios ''https://farm.example/log''
           \<lparr>method = ''POST'',
            headers = [(''Content-Type'', JStr ''application/json''), (''Accept'', JStr ''json''),
                       (''Authorization'', JStr ''Bearer abc''), (''X-CSRF-Token'', JStr ''csrf-1'')],
            withCredentials = True,
            data = Some (JSON_stringify (JObj [(''title'', JStr ''x'')]))\<rparr>]\<rparr>)"
  using request_pipeline [where env = demo_env and s = "demo_farm\<lparr>token := None\<rparr>"
                            and sa = "demo_farm\<lparr>token := None\<rparr>"
                            and e = "Error ''client must be authorized before making requests.''"
                            and endpoint = "''/farm.json''" and meth = "''GET''" and payload = JUndefined]
        request_pipeline [where env = demo_env and s = "demo_farm\<lparr>token := Some revoked_token\<rparr>"
                            and sa = "demo_farm\<lparr>token := Some revoked_token,
                                       trace := [Refresh revoked_token ''farmos_development'' []]\<rparr>"
                            and e = "LibError ''invalid_grant''"
                            and endpoint = "''/farm.json''" and meth = "''GET''" and payload = JUndefined]
        request_pipeline [where env = offline_env and s = "demo_farm\<lparr>csrfToken := JNull\<rparr>"
                            and sa = "demo_farm\<lparr>csrfToken := JNull\<rparr>"
                            and accessToken = "JStr ''abc''"
                            and sb = "demo_farm\<lparr>csrfToken := JNull,
                                       trace := [csrf_fetch offline_env (JStr ''abc'')]\<rparr>"
                            and e = "LibError ''Network Error''"
                            and endpoint = "''/farm.json''" and meth = "''GET''" and payload = JUndefined]
        request_pipeline [where env = demo_env and s = demo_farm and sa = demo_farm
                            and accessToken = "JStr ''abc''" and sb = demo_farm
                            and csrf = "JStr ''csrf-1''"
                            and endpoint = "''/missing.json''" and meth = "''GET''" and payload = JUndefined]
        request_pipeline [where env = demo_env and s = demo_farm and sa = demo_farm
                            and accessToken = "JStr ''abc''" and sb = demo_farm
                            and csrf = "JStr ''csrf-1''"
                            and endpoint = "''/log''" and meth = "''POST''"
                            and payload = "JObj [(''title'', JStr ''x'')]"]
  by (simp add: getAccessToken_def getCSRFToken_def axios_call_def token_refresh_def useToken_def
                get_prop_def js_prop_def nullish_def default_to_def Let_def demo_server_def
                offline_env_def demo_simps csrf_fetch_def)

section \<open>The cached CSRF token\<close>

lemma snd_settle [simp]: "snd (settle p) = snd p"
  by (cases p, cases "fst p") auto

lemma csrf_kept_refl [simp]: "csrf_kept env s s"
  by (simp add: csrf_kept_def)

lemma csrf_kept_trans: "csrf_kept env s s1 \<Longrightarrow> csrf_kept env s1 s2 \<Longrightarrow> csrf_kept env s s2"
  unfolding csrf_kept_def by auto

lemma csrf_kept_then_p:
  assumes "csrf_kept env s (snd p)"
    and "\<And>v s1. csrf_kept env s1 (snd (f v s1))"
  shows "csrf_kept env s (snd (then_p p f))"
proof (cases p)
  case (Pair r s1)
  with assms show ?thesis
    by (cases r) (auto intro: csrf_kept_trans)
qed

lemma csrf_kept_then_o:
  assumes "then_o p f = Some (r, s')"
    and "csrf_kept env s (snd p)"
    and "\<And>v s1 r' s2. f v s1 = Some (r', s2) \<Longrightarrow> csrf_kept env s1 s2"
  shows "csrf_kept env s s'"
proof (cases p)
  case (Pair r0 s1)
  show ?thesis
  proof (cases r0)
    case (Fulfilled v)
    with Pair assms(1) obtain q where q: "f v s1 = Some q" "settle q = (r, s')" by auto
    then have "f v s1 = Some (fst q, s')"
      by (metis prod.collapse snd_conv snd_settle)
    then have "csrf_kept env s1 s'" by (rule assms(3))
    with assms(2) Pair show ?thesis by (auto intro: csrf_kept_trans)
  qed (use Pair assms in auto)
qed

lemma csrf_kept_token_only [simp]:
  "csrf_kept env s (s\<lparr>token := t\<rparr>)"
  by (simp add: csrf_kept_def)

lemma csrf_kept_event:
  "(\<And>a. ev \<noteq> csrf_fetch env a) \<Longrightarrow> csrf_kept env s (s\<lparr>trace := trace s @ [ev]\<rparr>)"
  by (auto simp add: csrf_kept_def)

lemma csrf_kept_event_token:
  "(\<And>a. ev \<noteq> csrf_fetch env a) \<Longrightarrow> csrf_kept env s (s\<lparr>trace := trace s @ [ev], token := t\<rparr>)"
  by (auto simp add: csrf_kept_def)

lemma csrf_kept_useToken: "csrf_kept env s (snd (useToken env t s))"
  by (simp add: useToken_def split: sum.splits)

lemma csrf_kept_token_refresh: "csrf_kept env s (snd (token_refresh env t c d s))"
  by (auto simp add: token_refresh_def Let_def csrf_fetch_def intro!: csrf_kept_event split: sum.splits)

lemma csrf_kept_getAccessToken: "csrf_kept env s (snd (getAccessToken env s))"
proof -
  have cb: "csrf_kept env s1
              (snd (case useToken env (JObj (tok a)) s1 of
                      (Inl e, s2) \<Rightarrow> (Thrown e, s2)
                    | (Inr raw, s2) \<Rightarrow>
                        (case get_prop raw ''access_token'' of
                           Inl e \<Rightarrow> (Thrown e, s2)
                         | Inr a \<Rightarrow> (Returned a, s2))))" for a s1
    using csrf_kept_useToken [of env s1 "JObj (tok a)"]
    by (auto split: prod.splits sum.splits)
  show ?thesis
    unfolding getAccessToken_def
    by (auto split: option.splits intro!: csrf_kept_then_p csrf_kept_token_refresh cb)
qed

lemma csrf_kept_getCSRFToken: "csrf_kept env s (snd (getCSRFToken env a s))"
  by (simp add: csrf_kept_def getCSRFToken_def)

lemma csrf_kept_axios_call:
  "map_of (headers opts) ''X-CSRF-Token'' \<noteq> None \<Longrightarrow> csrf_kept env s (snd (axios_call env url opts s))"
  by (auto simp add: axios_call_def Let_def csrf_fetch_def intro!: csrf_kept_event split: sum.splits)

lemma csrf_kept_request: "csrf_kept env s (snd (request env endpoint meth payload s))"
  unfolding request_def Let_def
  by (intro csrf_kept_then_p csrf_kept_getAccessToken csrf_kept_getCSRFToken csrf_kept_axios_call) simp

lemma csrf_kept_requestAll:
  assumes "requestAll env url page list s = Some y"
  shows "csrf_kept env s (snd y)"
proof (rule requestAll.raw_induct
         [where P = "\<lambda>env url page list s y. csrf_kept env s (snd y)", OF _ assms], goal_cases)
  case (1 f env url page list s y)
  obtain r1 s1 where req: "request env (url @ ''&page='' @ show_int page) ''GET'' JUndefined s = (r1, s1)"
    by (cases "request env (url @ ''&page='' @ show_int page) ''GET'' JUndefined s")
  have k1: "csrf_kept env s s1"
    using csrf_kept_request [of env s "url @ ''&page='' @ show_int page" "''GET''" JUndefined] req by simp
  note body = 1(2) [unfolded req prod.case]
  show ?case
  proof (cases r1)
    case (Fulfilled response)
    show ?thesis
    proof (cases "snd y = s1")
      case True
      with k1 show ?thesis by simp
    next
      case False
      with body Fulfilled obtain items q where
        rec: "f env url (page + 1) (concat_arr list items) s1 = Some q" and q: "settle q = y"
        by (auto split: sum.splits if_splits simp: Option.bind_eq_Some_conv)
      from rec have "csrf_kept env s1 (snd q)" by (rule 1(1))
      with q have "csrf_kept env s1 (snd y)" by auto
      with k1 show ?thesis by (rule csrf_kept_trans)
    qed
  qed (use body k1 in auto)
qed

lemma csrf_kept_batchRequest:
  "csrf_kept env s (snd (batchRequest env name arr endpoint results s))"
proof (induction env name arr endpoint results s rule: batchRequest.induct)
  case (1 env name arr endpoint results s)
  show ?case
  proof (cases "length arr \<le> 100")
    case True
    then show ?thesis
      by (subst batchRequest.simps)
         (auto simp add: Let_def split: sum.splits intro!: csrf_kept_then_p csrf_kept_request)
  next
    case False
    show ?thesis
    proof (cases "appendArrayOfParams name (JArr (take 99 arr)) endpoint")
      case (Inl e)
      with False show ?thesis by (subst batchRequest.simps) (simp add: Let_def)
    next
      case (Inr query)
      have cb: "csrf_kept env s1
                  (snd (case get_prop res ''list'' of
                          Inl e \<Rightarrow> (Thrown e, s1)
                        | Inr l \<Rightarrow> batchRequest env name (drop 99 arr) endpoint l s1))" for res s1
        using "1.IH" [OF refl False refl refl Inr] by (auto split: sum.splits)
      from False Inr show ?thesis
        by (subst batchRequest.simps)
           (auto simp add: Let_def intro!: csrf_kept_then_p csrf_kept_request cb)
    qed
  qed
qed

lemma csrf_kept_area_delete: "csrf_kept env s (snd (area_delete env ident s))"
  unfolding area_delete_def
  by (auto split: sum.splits intro!: csrf_kept_then_p csrf_kept_request)

lemma csrf_kept_area_send: "csrf_kept env s (snd (area_send env payload ident s))"
  unfolding area_send_def
  by (auto split: sum.splits intro!: csrf_kept_then_p csrf_kept_request)

lemma csrf_kept_opt_Some [simp]: "csrf_kept_opt env s (Some y) = csrf_kept env s (snd y)"
  by (simp add: csrf_kept_opt_def)

lemma csrf_kept_opt_requestAll [simp]: "csrf_kept_opt env s (requestAll env url page list s)"
  by (auto simp add: csrf_kept_opt_def split: option.splits dest: csrf_kept_requestAll)

lemma csrf_kept_opt_then_o:
  assumes "csrf_kept env s (snd p)"
    and "\<And>v s1. csrf_kept_opt env s1 (f v s1)"
  shows "csrf_kept_opt env s (then_o p f)"
proof (cases "then_o p f")
  case None
  then show ?thesis by (simp add: csrf_kept_opt_def)
next
  case (Some y)
  then have "then_o p f = Some (fst y, snd y)" by simp
  then have "csrf_kept env s (snd y)"
  proof (rule csrf_kept_then_o)
    show "csrf_kept env s (snd p)" by fact
    show "csrf_kept env s1 s2" if "f v s1 = Some (r', s2)" for v s1 r' s2
      using assms(2) [of s1 v] that by simp
  qed
  with Some show ?thesis by simp
qed

lemma csrf_kept_area_get: "csrf_kept_opt env s (area_get env opts s)"
  unfolding area_get_def Let_def
  by (rule csrf_kept_opt_then_o)
     (auto simp add: csrf_kept_request split: json.splits sum.splits)

lemma csrf_kept_log_get: "csrf_kept_opt env s (log_get env opts s)"
  unfolding log_get_def Let_def
  by (auto simp add: csrf_kept_request csrf_kept_batchRequest split: json.splits sum.splits)

lemma csrf_kept_asset_get: "csrf_kept_opt env s (asset_get env opts s)"
  unfolding asset_get_def Let_def
  by (auto simp add: csrf_kept_request split: json.splits sum.splits)

lemma csrf_kept_term_get: "csrf_kept_opt env s (term_get env opts s)"
  unfolding term_get_def Let_def
  by (auto simp add: csrf_kept_request split: json.splits sum.splits)

lemma csrf_kept_log_send: "csrf_kept env s (snd (log_send env payload s))"
  unfolding log_send_def
  by (auto simp add: csrf_kept_request split: sum.splits intro!: csrf_kept_then_p)

lemma csrf_kept_term_send: "csrf_kept env s (snd (term_send env payload s))"
  unfolding term_send_def
  by (auto simp add: csrf_kept_request split: sum.splits)

lemma csrf_kept_authorize: "csrf_kept env s (snd (authorize env user password scope s))"
proof -
  have cb: "csrf_kept env s1
              (snd (case useToken env result s1 of
                      (Inl e, s2) \<Rightarrow> (Thrown e, s2)
                    | (Inr t, s2) \<Rightarrow> (Returned t, s2)))" for result s1
    using csrf_kept_useToken [of env s1 result] by (auto split: prod.splits sum.splits)
  have ev: "csrf_kept env s
              (snd (case getToken env (trace s) user password sc of
                      Inl e \<Rightarrow> (Rejected e, s\<lparr>trace := trace s @ [GetToken user password sc]\<rparr>)
                    | Inr result \<Rightarrow>
                        (Fulfilled result, s\<lparr>trace := trace s @ [GetToken user password sc]\<rparr>)))" for sc
    by (auto simp add: csrf_fetch_def split: sum.splits intro!: csrf_kept_event)
  show ?thesis
    unfolding authorize_def Let_def
    by (auto intro!: csrf_kept_then_p cb ev)
qed

lemma csrf_kept_logout: "csrf_kept env s (snd (logout env s))"
  unfolding logout_def Let_def
  by (auto simp add: csrf_fetch_def split: sum.splits option.splits intro!: csrf_kept_event_token)

lemma csrf_kept_call: "csrf_kept_opt env s (call env c s)"
proof (cases c)
  case (UseToken t)
  then show ?thesis
    using csrf_kept_useToken [of env s t] by (auto split: prod.splits sum.splits)
qed (simp_all add: csrf_kept_authorize csrf_kept_logout csrf_kept_area_delete csrf_kept_area_get
       csrf_kept_area_send asset_delete_def asset_send_def info_def log_delete_def vocabulary_def
       csrf_kept_request csrf_kept_asset_get csrf_kept_log_get csrf_kept_log_send
       csrf_kept_term_get csrf_kept_term_send)

lemma csrf_kept_calls: "calls env cs s = Some s' \<Longrightarrow> csrf_kept env s s'"
proof (induction cs arbitrary: s)
  case Nil
  then show ?case by simp
next
  case (Cons c cs)
  then obtain r s1 where c: "call env c s = Some (r, s1)" and rest: "calls env cs s1 = Some s'"
    by (auto split: option.splits)
  from c have "csrf_kept env s s1"
    using csrf_kept_call [of env s c] by simp
  moreover from rest have "csrf_kept env s1 s'" by (rule Cons.IH)
  ultimately show ?case by (rule csrf_kept_trans)
qed

text \<open>A call run to its end is the first half followed at once by the second.\<close>

lemma getCSRFToken_halves:
  "getCSRFToken env a s = (case getCSRFToken_start env a s of (p, s') \<Rightarrow> getCSRFToken_then p s')"
  by (simp add: getCSRFToken_def getCSRFToken_start_def getCSRFToken_then_def axios_call_def Let_def
           split: sum.splits)

text \<open>
  The claim C7 has a cached token never replaced. Two calls started together, as by two
  requests that the program makes without awaiting the first, both find the cache empty
  and both issue the fetch. When the answer of the first arrives its token is cached; when
  the answer of the second arrives, its token replaces the cached one.
\<close>

theorem getCSRFToken_overlapping:
  "getCSRFToken_start rotating_env (JStr ''abc'') (demo_farm\<lparr>csrfToken := JNull\<rparr>) =
     (Awaits (Inr (JStr ''csrf-1'')),
      demo_farm\<lparr>csrfToken := JNull, trace := [csrf_fetch rotating_env (JStr ''abc'')]\<rparr>) \<and>
   getCSRFToken_start rotating_env (JStr ''abc'')
       (demo_farm\<lparr>csrfToken := JNull, trace := [csrf_fetch rotating_env (JStr ''abc'')]\<rparr>) =
     (Awaits (Inr (JStr ''csrf-2'')),
      demo_farm\<lparr>csrfToken := JNull,
                trace := [csrf_fetch rotating_env (JStr ''abc''), csrf_fetch rotating_env (JStr ''abc'')]\<rparr>) \<and>
   getCSRFToken_then (Awaits (Inr (JStr ''csrf-1'')))
       (demo_farm\<lparr>csrfToken := JNull,
                  trace := [csrf_fetch rotating_env (JStr ''abc''), csrf_fetch rotating_env (JStr ''abc'')]\<rparr>) =
     (Fulfilled (JStr ''csrf-1''),
      demo_farm\<lparr>csrfToken := JStr ''csrf-1'',
                trace := [csrf_fetch rotating_env (JStr ''abc''), csrf_fetch rotating_env (JStr ''abc'')]\<rparr>) \<and>
   getCSRFToken_then (Awaits (Inr (JStr ''csrf-2'')))
       (demo_farm\<lparr>csrfToken := JStr ''csrf-1'',
                  trace := [csrf_fetch rotating_env (JStr ''abc''), csrf_fetch rotating_env (JStr ''abc'')]\<rparr>) =
     (Fulfilled (JStr ''csrf-2''),
      demo_farm\<lparr>csrfToken := JStr ''csrf-2'',
                trace := [csrf_fetch rotating_env (JStr ''abc''), csrf_fetch rotating_env (JStr ''abc'')]\<rparr>) \<and>
   \<not> nullish (JStr ''csrf-1'') \<and> JStr ''csrf-2'' \<noteq> JStr ''csrf-1''"
  by (simp add: getCSRFToken_start_def getCSRFToken_then_def rotating_env_def demo_env_def
                demo_farm_def csrf_fetch_def nullish_def Let_def)


text \<open>
  C7, as the code has it. With a CSRF token present, \<open>getCSRFToken\<close> answers it from the
  state and issues no call. Without one it issues one \<^verbatim>\<open>GET\<close> of the session-token
  endpoint with the access token as bearer; the body of the response becomes the cached
  token and is the result. Once a token is cached, no sequence of calls of the public
  interface made one after the other, each run to its end before the next is started,
  replaces it or issues a call that fetches one.
\<close>

theorem getCSRFToken_cached:
  "(\<not> nullish (csrfToken s) \<longrightarrow> getCSRFToken env a s = (Fulfilled (csrfToken s), s)) \<and>
   (nullish (csrfToken s) \<longrightarrow>
      getCSRFToken env a s =
        (let url = host env @ ''/restws/session/token'';
             opts = \<lparr>method = ''GET'',
                     headers = [(''Content-Type'', JStr ''application/json''),
                                (''Accept'', JStr ''json''),
                                (''Authorization'', JStr (''Bearer '' @ to_string a))],
                     withCredentials = True,
                     data = None\<rparr>;
             s1 = s\<lparr>trace := trace s @ [csrf_fetch env a]\<rparr>
         in case axios env (trace s) url opts of
              Inl e \<Rightarrow> (Rejected e, s1)
            | Inr res_data \<Rightarrow> (Fulfilled res_data, s1\<lparr>csrfToken := res_data\<rparr>))) \<and>
   (\<not> nullish (csrfToken s) \<and> calls env cs s = Some s' \<longrightarrow>
      csrfToken s' = csrfToken s \<and>
      (\<exists>evs. trace s' = trace s @ evs \<and> (\<forall>a'. csrf_fetch env a' \<notin> set evs)))"
proof -
  have present: "getCSRFToken env a s = (Fulfilled (csrfToken s), s)" if "\<not> nullish (csrfToken s)"
    using that by (rule getCSRFToken_present)
  have absent: "getCSRFToken env a s =
        (let url = host env @ ''/restws/session/token'';
             opts = \<lparr>method = ''GET'',
                     headers = [(''Content-Type'', JStr ''application/json''),
                                (''Accept'', JStr ''json''),
                                (''Authorization'', JStr (''Bearer '' @ to_string a))],
                     withCredentials = True,
                     data = None\<rparr>;
             s1 = s\<lparr>trace := trace s @ [csrf_fetch env a]\<rparr>
         in case axios env (trace s) url opts of
              Inl e \<Rightarrow> (Rejected e, s1)
            | Inr res_data \<Rightarrow> (Fulfilled res_data, s1\<lparr>csrfToken := res_data\<rparr>))"
    if "nullish (csrfToken s)"
    unfolding getCSRFToken_absent [OF that] by (simp add: Let_def csrf_fetch_def)
  have kept: "csrfToken s' = csrfToken s \<and>
      (\<exists>evs. trace s' = trace s @ evs \<and> (\<forall>a'. csrf_fetch env a' \<notin> set evs))"
    if "\<not> nullish (csrfToken s) \<and> calls env cs s = Some s'"
    using that csrf_kept_calls [of env cs s s'] by (simp add: csrf_kept_def)
  from present absent kept show ?thesis by blast
qed

theorem getCSRFToken_cached_witness:
  "getCSRFToken demo_env (JStr ''abc'') demo_farm = (Fulfilled (JStr ''csrf-1''), demo_farm) \<and>
   getCSRFToken demo_env (JStr ''abc'') (demo_farm\<lparr>csrfToken := JNull\<rparr>) =
     (Fulfilled (JStr ''csrf-1''), demo_farm\<lparr>trace := [csrf_fetch demo_env (JStr ''abc'')]\<rparr>) \<and>
   getCSRFToken offline_env (JStr ''abc'') (demo_farm\<lparr>csrfToken := JNull\<rparr>) =
     (Rejected (LibError ''Network Error''),
      demo_farm\<lparr>csrfToken := JNull, trace := [csrf_fetch offline_env (JStr ''abc'')]\<rparr>) \<and>
   calls demo_env [Info, LogGet (JNum 7)] demo_farm =
     Some (demo_farm\<lparr>trace :=
        [Axios ''https://farm.example/farm.json''
           \<lparr>method = ''GET'',
            headers = [(''Content-Type'', JStr ''application/json''), (''Accept'', JStr ''json''),
                       (''Authorization'', JStr ''Bearer abc''), (''X-CSRF-Token'', JStr ''csrf-1'')],
            withCredentials = True, data = None\<rparr>,
         Axios ''https://farm.example/log/7.json''
           \<lparr>method = ''GET'',
            headers = [(''Content-Type'', JStr ''application/json''), (''Accept'', JStr ''json''),
                       (''Authorization'', JStr ''Bearer abc''), (''X-CSRF-Token'', JStr ''csrf-1'')],
            withCredentials = True, data = None\<rparr>]\<rparr>) \<and>
   csrfToken (the (calls demo_env [Info, LogGet (JNum 7)] demo_farm)) = JStr ''csrf-1''"
  using getCSRFToken_cached [where s = demo_farm and env = demo_env and a = "JStr ''abc''"
                               and cs = "[Info, LogGet (JNum 7)]"
                               and s' = "the (calls demo_env [Info, LogGet (JNum 7)] demo_farm)"]
        getCSRFToken_cached [where s = "demo_farm\<lparr>csrfToken := JNull\<rparr>" and env = demo_env
                               and a = "JStr ''abc''"]
        getCSRFToken_cached [where s = "demo_farm\<lparr>csrfToken := JNull\<rparr>" and env = offline_env
                               and a = "JStr ''abc''"]
  by (simp add: run_simps demo_simps csrf_fetch_def info_def log_get_def
                show_int_def show_nat.simps digit_char_def)

section \<open>Properties of the pagination walker\<close>

lemma get_prop_defined: "\<not> nullish v \<Longrightarrow> get_prop v k = Inr (js_prop v k)"
  by (simp add: get_prop_def)

lemma js_prop_array_defined: "js_prop v k = JArr xs \<Longrightarrow> \<not> nullish v"
  by (auto simp add: js_prop_def nullish_def)

text \<open>One page of the walk: the request of page \<open>page\<close> is answered by \<open>response\<close>.\<close>

lemma requestAll_last:
  assumes "request env (url @ ''&page='' @ show_int page) ''GET'' JUndefined s = (Fulfilled response, s')"
    and "\<not> nullish response"
    and "last_page env (js_prop response ''last'') = Inr (Some page)"
  shows "requestAll env url page list s =
           Some (Fulfilled (JObj [(''list'', JArr (concat_arr list (js_prop response ''list'')))]), s')"
  using assms by (subst requestAll.simps) (simp add: get_prop_defined)

lemma requestAll_next:
  assumes "request env (url @ ''&page='' @ show_int page) ''GET'' JUndefined s = (Fulfilled response, s')"
    and "\<not> nullish response"
    and "last_page env (js_prop response ''last'') = Inr L"
    and "L \<noteq> Some page"
  shows "requestAll env url page list s =
           Option.bind (requestAll env url (page + 1) (concat_arr list (js_prop response ''list'')) s')
             (\<lambda>r. Some (settle r))"
  using assms by (subst requestAll.simps) (simp add: get_prop_defined)

text \<open>
  A walk whose requests \<open>0, ..., k\<close> from page \<open>p\<close> on are answered, the last of them
  being the first to name its own page as the last one.
\<close>

lemma requestAll_walk:
  assumes "\<forall>j\<le>k. request env (url @ ''&page='' @ show_int (p + int j)) ''GET'' JUndefined (ss j)
                     = (Fulfilled (rs j), ss (Suc j)) \<and>
                   \<not> nullish (rs j) \<and>
                   last_page env (js_prop (rs j) ''last'') = Inr (L j)"
    and "\<forall>j<k. L j \<noteq> Some (p + int j)"
    and "L k = Some (p + int k)"
    and "i \<le> k"
  shows "requestAll env url (p + int i) acc (ss i) =
           Some (Fulfilled (JObj [(''list'',
                   JArr (foldl concat_arr acc (map (\<lambda>j. js_prop (rs j) ''list'') [i..<Suc k])))]),
                 ss (Suc k))"
  using assms(4)
proof (induction "k - i" arbitrary: i acc)
  case 0
  then have i: "i = k" by simp
  from assms(1) have "request env (url @ ''&page='' @ show_int (p + int k)) ''GET'' JUndefined (ss k)
                     = (Fulfilled (rs k), ss (Suc k))" "\<not> nullish (rs k)"
      "last_page env (js_prop (rs k) ''last'') = Inr (Some (p + int k))"
    using assms(3) by auto
  then show ?case unfolding i by (simp add: requestAll_last)
next
  case (Suc d)
  then have lt: "i < k" and le: "Suc i \<le> k" and d: "d = k - Suc i" by auto
  from assms(1) lt have req: "request env (url @ ''&page='' @ show_int (p + int i)) ''GET'' JUndefined (ss i)
                     = (Fulfilled (rs i), ss (Suc i))" "\<not> nullish (rs i)"
      "last_page env (js_prop (rs i) ''last'') = Inr (L i)"
    by auto
  from assms(2) lt have ne: "L i \<noteq> Some (p + int i)" by simp
  have next_page: "p + int i + 1 = p + int (Suc i)" by simp
  have upt: "[i..<Suc k] = i # [Suc i..<Suc k]"
    using lt by (simp add: upt_conv_Cons)
  show ?case
    unfolding requestAll_next [OF req ne] next_page Suc.hyps(1) [OF d le] upt
    by simp
qed


lemma foldl_concat_arr_arrays:
  "foldl concat_arr acc (map (\<lambda>j. JArr (items j)) js) = acc @ concat (map items js)"
  by (induction js arbitrary: acc) simp_all

text \<open>
  C2. When the requests of pages \<open>0, ..., N - 1\<close> are answered in turn and every answer
  names \<open>N - 1\<close> as the last page, \<open>requestAll\<close> is fulfilled with the lists of the \<open>N\<close>
  answers, concatenated in page order.
\<close>

theorem requestAll_pages:
  assumes "0 < N"
    and "\<forall>k<N. request env (url @ ''&page='' @ show_int (int k)) ''GET'' JUndefined (ss k)
                     = (Fulfilled (rs k), ss (Suc k)) \<and>
                  js_prop (rs k) ''list'' = JArr (items k) \<and>
                  last_page env (js_prop (rs k) ''last'') = Inr (Some (int N - 1))"
  shows "requestAll env url 0 [] (ss 0) =
           Some (Fulfilled (JObj [(''list'', JArr (concat (map items [0..<N])))]), ss N)"
proof -
  obtain k where N: "N = Suc k" using assms(1) by (cases N) auto
  have chain: "\<forall>j\<le>k. request env (url @ ''&page='' @ show_int (0 + int j)) ''GET'' JUndefined (ss j)
                     = (Fulfilled (rs j), ss (Suc j)) \<and>
                   \<not> nullish (rs j) \<and>
                   last_page env (js_prop (rs j) ''last'') = Inr (Some (int k))"
  proof (intro allI impI)
    fix j assume "j \<le> k"
    with N have "j < N" by simp
    with assms(2) have j: "request env (url @ ''&page='' @ show_int (int j)) ''GET'' JUndefined (ss j)
                     = (Fulfilled (rs j), ss (Suc j))" "js_prop (rs j) ''list'' = JArr (items j)"
      "last_page env (js_prop (rs j) ''last'') = Inr (Some (int N - 1))"
      by auto
    from j(2) have "\<not> nullish (rs j)" by (rule js_prop_array_defined)
    with j N show "request env (url @ ''&page='' @ show_int (0 + int j)) ''GET'' JUndefined (ss j)
                     = (Fulfilled (rs j), ss (Suc j)) \<and>
                   \<not> nullish (rs j) \<and>
                   last_page env (js_prop (rs j) ''last'') = Inr (Some (int k))"
      by simp
  qed
  have early: "\<forall>j<k. Some (int k) \<noteq> Some (0 + int j)" by simp
  have lists: "map (\<lambda>j. js_prop (rs j) ''list'') [0..<Suc k] = map (\<lambda>j. JArr (items j)) [0..<Suc k]"
    by (rule map_cong [OF refl]) (use assms(2) N in auto)
  have "requestAll env url (0 + int 0) [] (ss 0) =
          Some (Fulfilled (JObj [(''list'',
                  JArr (foldl concat_arr [] (map (\<lambda>j. js_prop (rs j) ''list'') [0..<Suc k])))]),
                ss (Suc k))"
    by (rule requestAll_walk [OF chain early]) simp_all
  then show ?thesis
    unfolding lists foldl_concat_arr_arrays N by simp
qed

lemma demo_request:
  assumes "token s = Some valid_token" and "csrfToken s = JStr ''csrf-1''"
  shows "request demo_env endpoint ''GET'' JUndefined s =
           (let url = ''https://farm.example'' @ endpoint;
                s' = s\<lparr>trace := trace s @ [Axios url demo_opts]\<rparr>
            in case demo_server (trace s) url demo_opts of
                 Inl e \<Rightarrow> (Rejected e, s')
               | Inr res_data \<Rightarrow> (Fulfilled res_data, s'))"
  using assms
  by (simp add: request_def getAccessToken_def getCSRFToken_def axios_call_def nullish_def Let_def
                demo_env_def valid_token_def obj_get_def demo_opts_def split: sum.splits)

lemma demo_last_page:
  "last_page demo_env v =
     (if v = JStr ''https://farm.example/log.json?page=1'' then Inr (Some 1)
      else Inl (TypeError ''Invalid URL''))"
  by (simp add: demo_env_def)

lemma demo_walk_pages:
  "k < 2 \<Longrightarrow>
   request demo_env (''/log.json?'' @ ''&page='' @ show_int (int k)) ''GET'' JUndefined (demo_walk k)
     = (Fulfilled (demo_pages k), demo_walk (Suc k)) \<and>
   js_prop (demo_pages k) ''list'' = JArr (if k = 0 then [JNum 1, JNum 2] else [JNum 3]) \<and>
   last_page demo_env (js_prop (demo_pages k) ''last'') = Inr (Some 1)"
  by (auto simp add: less_2_cases_iff demo_request demo_last_page demo_farm_def Let_def
                     demo_walk_def demo_pages_def
                     demo_server_def first_page_def second_page_def js_prop_def obj_get_def
                     show_int_def show_nat.simps digit_char_def)

theorem requestAll_pages_witness:
  "requestAll demo_env ''/log.json?'' 0 [] demo_farm =
     Some (Fulfilled (JObj [(''list'', JArr [JNum 1, JNum 2, JNum 3])]),
           demo_farm\<lparr>trace := [Axios ''https://farm.example/log.json?&page=0'' demo_opts,
                               Axios ''https://farm.example/log.json?&page=1'' demo_opts]\<rparr>)"
proof -
  have "requestAll demo_env ''/log.json?'' 0 [] (demo_walk 0) =
          Some (Fulfilled (JObj [(''list'',
                  JArr (concat (map (\<lambda>k. if k = 0 then [JNum 1, JNum 2] else [JNum 3]) [0..<2])))]),
                demo_walk 2)"
    using demo_walk_pages
    by (intro requestAll_pages [where N = 2 and env = demo_env and url = "''/log.json?''"
                                   and ss = demo_walk and rs = demo_pages]) simp_all
  then show ?thesis
    by (simp add: upt_rec [of 0 2] upt_rec [of 1 2] numeral_2_eq_2 demo_walk_def demo_farm_def)
qed

lemma uniform_request:
  assumes "token s = Some valid_token" and "csrfToken s = JStr ''csrf-1''"
  shows "\<exists>s'. request uniform_env endpoint ''GET'' JUndefined s = (Fulfilled uniform_page, s') \<and>
              token s' = Some valid_token \<and> csrfToken s' = JStr ''csrf-1''"
  using assms
  by (simp add: request_def getAccessToken_def getCSRFToken_def axios_call_def nullish_def Let_def
                uniform_env_def demo_env_def valid_token_def obj_get_def)

lemma uniform_walk:
  assumes "requestAll env url page list s = Some y"
  shows "env = uniform_env \<and> token s = Some valid_token \<and> csrfToken s = JStr ''csrf-1'' \<and> 0 \<le> page
           \<longrightarrow> False"
proof (rule requestAll.raw_induct
         [where P = "\<lambda>env url page list s y.
                       env = uniform_env \<and> token s = Some valid_token \<and>
                       csrfToken s = JStr ''csrf-1'' \<and> 0 \<le> page \<longrightarrow> False",
          OF _ assms], goal_cases)
  case (1 f env url page list s y)
  show ?case
  proof (intro impI, elim conjE)
    assume env: "env = uniform_env" and tok: "token s = Some valid_token"
      and csrf: "csrfToken s = JStr ''csrf-1''" and page: "0 \<le> page"
    from uniform_request [OF tok csrf] obtain s' where
      req: "request uniform_env (url @ ''&page='' @ show_int page) ''GET'' JUndefined s
              = (Fulfilled uniform_page, s')"
      and s': "token s' = Some valid_token" "csrfToken s' = JStr ''csrf-1''"
      by blast
    have last: "get_prop uniform_page ''last'' = Inr (JStr ''https://farm.example/log.json?page=-1'')"
      and items: "get_prop uniform_page ''list'' = Inr (JArr [JNum 1])"
      by (simp_all add: uniform_page_def get_prop_def nullish_def js_prop_def obj_get_def)
    have lp: "last_page uniform_env (JStr ''https://farm.example/log.json?page=-1'') = Inr (Some (- 1))"
      by (simp add: uniform_env_def)
    from 1(2) obtain q where
      "f uniform_env url (page + 1) (concat_arr list (JArr [JNum 1])) s' = Some q"
      unfolding env req prod.case outcome.case last items lp sum.case
      using page by (auto simp add: Option.bind_eq_Some_conv)
    from 1(1) [OF this] s' page show False by simp
  qed
qed

lemma requestAll_uniform: "requestAll uniform_env url 0 [] demo_farm = None"
proof (cases "requestAll uniform_env url 0 [] demo_farm")
  case (Some y)
  from uniform_walk [OF this] show ?thesis by (simp add: demo_farm_def)
qed simp

text \<open>
  C3. A walk from page \<open>p\<close> whose request number \<open>k\<close> is answered with its own page
  \<open>p + k\<close> as the last one ends, after at most \<open>k + 1\<close> requests (that the reported
  values do not decrease is not needed). When every answer reports the same last page
  \<open>L \<ge> p\<close>, the walk ends after exactly \<open>L - p + 1\<close> requests. Against a server that
  never reports the requested page, the walk does not end.
\<close>

theorem requestAll_terminates:
  "((\<forall>j\<le>k. request env (url @ ''&page='' @ show_int (p + int j)) ''GET'' JUndefined (ss j)
                = (Fulfilled (rs j), ss (Suc j)) \<and>
              \<not> nullish (rs j) \<and>
              last_page env (js_prop (rs j) ''last'') = Inr (Some (L j))) \<and>
    (\<forall>i j. i \<le> j \<and> j \<le> k \<longrightarrow> L i \<le> L j) \<and>
    L k = p + int k \<longrightarrow>
      (\<exists>n\<le>k. \<exists>y. requestAll env url p acc (ss 0) = Some (Fulfilled y, ss (Suc n)))) \<and>
   (p \<le> Lc \<and>
    (\<forall>j\<le>nat (Lc - p). request env (url @ ''&page='' @ show_int (p + int j)) ''GET'' JUndefined (ss j)
                = (Fulfilled (rs j), ss (Suc j)) \<and>
              \<not> nullish (rs j) \<and>
              last_page env (js_prop (rs j) ''last'') = Inr (Some Lc)) \<longrightarrow>
      (\<exists>y. requestAll env url p acc (ss 0) = Some (Fulfilled y, ss (nat (Lc - p) + 1)))) \<and>
   requestAll uniform_env ''/log.json?'' 0 [] demo_farm = None"
proof (intro conjI impI)
  assume h: "(\<forall>j\<le>k. request env (url @ ''&page='' @ show_int (p + int j)) ''GET'' JUndefined (ss j)
                = (Fulfilled (rs j), ss (Suc j)) \<and>
              \<not> nullish (rs j) \<and>
              last_page env (js_prop (rs j) ''last'') = Inr (Some (L j))) \<and>
    (\<forall>i j. i \<le> j \<and> j \<le> k \<longrightarrow> L i \<le> L j) \<and>
    L k = p + int k"
  define n where "n = (LEAST n. L n = p + int n)"
  from h have Lk: "L k = p + int k" by blast
  from Lk have hit: "L n = p + int n" unfolding n_def by (rule LeastI)
  from Lk have nk: "n \<le> k" unfolding n_def by (rule Least_le)
  have first: "\<forall>j<n. Some (L j) \<noteq> Some (p + int j)"
  proof (intro allI impI)
    fix j assume "j < n"
    then have "\<not> L j = p + int j" unfolding n_def by (rule not_less_Least)
    then show "Some (L j) \<noteq> Some (p + int j)" by simp
  qed
  have chain: "\<forall>j\<le>n. request env (url @ ''&page='' @ show_int (p + int j)) ''GET'' JUndefined (ss j)
                = (Fulfilled (rs j), ss (Suc j)) \<and>
              \<not> nullish (rs j) \<and>
              last_page env (js_prop (rs j) ''last'') = Inr (Some (L j))"
  proof (intro allI impI)
    fix j assume "j \<le> n"
    with nk have "j \<le> k" by simp
    with h show "request env (url @ ''&page='' @ show_int (p + int j)) ''GET'' JUndefined (ss j)
                = (Fulfilled (rs j), ss (Suc j)) \<and>
              \<not> nullish (rs j) \<and>
              last_page env (js_prop (rs j) ''last'') = Inr (Some (L j))"
      by blast
  qed
  have "requestAll env url (p + int 0) acc (ss 0) =
          Some (Fulfilled (JObj [(''list'',
                  JArr (foldl concat_arr acc (map (\<lambda>j. js_prop (rs j) ''list'') [0..<Suc n])))]),
                ss (Suc n))"
    by (rule requestAll_walk [OF chain first]) (simp_all add: hit)
  then have "requestAll env url p acc (ss 0) =
          Some (Fulfilled (JObj [(''list'',
                  JArr (foldl concat_arr acc (map (\<lambda>j. js_prop (rs j) ''list'') [0..<Suc n])))]),
                ss (Suc n))"
    by simp
  with nk show "\<exists>n\<le>k. \<exists>y. requestAll env url p acc (ss 0) = Some (Fulfilled y, ss (Suc n))"
    by blast
next
  assume h: "p \<le> Lc \<and>
    (\<forall>j\<le>nat (Lc - p). request env (url @ ''&page='' @ show_int (p + int j)) ''GET'' JUndefined (ss j)
                = (Fulfilled (rs j), ss (Suc j)) \<and>
              \<not> nullish (rs j) \<and>
              last_page env (js_prop (rs j) ''last'') = Inr (Some Lc))"
  then have chain: "\<forall>j\<le>nat (Lc - p). request env (url @ ''&page='' @ show_int (p + int j)) ''GET'' JUndefined (ss j)
                = (Fulfilled (rs j), ss (Suc j)) \<and>
              \<not> nullish (rs j) \<and>
              last_page env (js_prop (rs j) ''last'') = Inr (Some Lc)"
    by (rule conjunct2)
  have first: "\<forall>j<nat (Lc - p). Some Lc \<noteq> Some (p + int j)"
  proof (intro allI impI)
    fix j assume "j < nat (Lc - p)"
    then have "p + int j < Lc" by linarith
    then show "Some Lc \<noteq> Some (p + int j)" by simp
  qed
  from h have "p \<le> Lc" by (rule conjunct1)
  then have hit: "Some Lc = Some (p + int (nat (Lc - p)))" by simp
  have "requestAll env url (p + int 0) acc (ss 0) =
          Some (Fulfilled (JObj [(''list'',
                  JArr (foldl concat_arr acc (map (\<lambda>j. js_prop (rs j) ''list'') [0..<Suc (nat (Lc - p))])))]),
                ss (Suc (nat (Lc - p))))"
    by (rule requestAll_walk [OF chain first hit]) simp
  then show "\<exists>y. requestAll env url p acc (ss 0) = Some (Fulfilled y, ss (nat (Lc - p) + 1))"
    by simp
next
  show "requestAll uniform_env ''/log.json?'' 0 [] demo_farm = None"
    by (rule requestAll_uniform)
qed


theorem requestAll_terminates_witness:
  "(\<exists>n\<le>1. \<exists>y. requestAll demo_env ''/log.json?'' 0 [] demo_farm = Some (Fulfilled y, demo_walk (Suc n))) \<and>
   (\<exists>y. requestAll demo_env ''/log.json?'' 0 [] demo_farm = Some (Fulfilled y, demo_walk 2)) \<and>
   requestAll uniform_env ''/log.json?'' 0 [] demo_farm = None"
proof -
  have pages: "\<forall>j\<le>1. request demo_env (''/log.json?'' @ ''&page='' @ show_int (0 + int j)) ''GET''
                       JUndefined (demo_walk j)
                  = (Fulfilled (demo_pages j), demo_walk (Suc j)) \<and>
                \<not> nullish (demo_pages j) \<and>
                last_page demo_env (js_prop (demo_pages j) ''last'') = Inr (Some 1)"
  proof (intro allI impI)
    fix j :: nat assume "j \<le> 1"
    then have "j < 2" by simp
    from demo_walk_pages [OF this]
    show "request demo_env (''/log.json?'' @ ''&page='' @ show_int (0 + int j)) ''GET''
                       JUndefined (demo_walk j)
                  = (Fulfilled (demo_pages j), demo_walk (Suc j)) \<and>
                \<not> nullish (demo_pages j) \<and>
                last_page demo_env (js_prop (demo_pages j) ''last'') = Inr (Some 1)"
      by (auto dest: js_prop_array_defined)
  qed
  have start: "demo_walk 0 = demo_farm"
    by (simp add: demo_walk_def demo_farm_def)
  show ?thesis
    using requestAll_terminates
            [where env = demo_env and url = "''/log.json?''" and p = 0 and k = 1
               and ss = demo_walk and rs = demo_pages and L = "\<lambda>j. 1" and Lc = 1 and acc = "[]"]
          pages
    by (simp add: start numeral_2_eq_2)
qed

section \<open>Properties of the batch walker\<close>

lemma request_calls_append [simp]: "request_calls (xs @ ys) = request_calls xs + request_calls ys"
  by (simp add: request_calls_def)

lemma request_calls_Nil [simp]: "request_calls [] = 0"
  by (simp add: request_calls_def)

lemma fst_settle_Returned [simp]: "fst (settle p) \<noteq> Returned v"
  by (cases p, cases "fst p") auto

lemma fst_then_p_Returned [simp]: "fst (then_p p f) \<noteq> Returned v"
  by (cases p, cases "fst p") auto

lemma then_p_Fulfilled:
  "fst (then_p p f) = Fulfilled v \<Longrightarrow>
   \<exists>w. fst p = Fulfilled w \<and> then_p p f = settle (f w (snd p))"
  by (cases p, cases "fst p") auto

lemma calls_getAccessToken:
  "request_calls (trace (snd (getAccessToken env s))) = request_calls (trace s)"
  by (simp add: getAccessToken_def token_refresh_def useToken_def Let_def request_calls_def
           split: option.splits sum.splits)

lemma calls_getCSRFToken:
  "request_calls (trace (snd (getCSRFToken env a s))) = request_calls (trace s)"
  by (simp add: getCSRFToken_def axios_call_def Let_def request_calls_def split: sum.splits)

lemma request_Fulfilled_calls:
  assumes "fst (request env endpoint meth payload s) = Fulfilled v"
  shows "request_calls (trace (snd (request env endpoint meth payload s))) = Suc (request_calls (trace s))"
proof -
  obtain r1 s1 where t: "getAccessToken env s = (r1, s1)" by (cases "getAccessToken env s")
  from assms t obtain a where r1: "r1 = Fulfilled a"
    by (cases r1) (simp_all add: request_def Let_def)
  obtain r2 s2 where c: "getCSRFToken env a s1 = (r2, s2)" by (cases "getCSRFToken env a s1")
  from assms t r1 c obtain tk where r2: "r2 = Fulfilled tk"
    by (cases r2) (simp_all add: request_def Let_def)
  have "request_calls (trace s1) = request_calls (trace s)"
    using calls_getAccessToken [of env s] t by simp
  moreover have "request_calls (trace s2) = request_calls (trace s1)"
    using calls_getCSRFToken [of env a s1] c by simp
  moreover have "request_calls (trace (snd (request env endpoint meth payload s))) = Suc (request_calls (trace s2))"
    using t r1 c r2 by (simp add: request_http axios_call_def Let_def request_calls_def split: sum.splits)
  ultimately show ?thesis by simp
qed


lemma batchRequest_small:
  "length arr \<le> 100 \<Longrightarrow>
   batchRequest env name arr endpoint results s =
     then_p (request env (reduce_params name arr 0 endpoint) ''GET'' JUndefined s)
       (\<lambda>res s1.
          if nullish (default_to (JArr []) results)
          then (Thrown (no_properties (default_to (JArr []) results) ''concat''), s1)
          else
            (case get_prop res ''list'' of
               Inl e \<Rightarrow> (Thrown e, s1)
             | Inr l \<Rightarrow>
                 (case js_concat (default_to (JArr []) results) l of
                    Inl e \<Rightarrow> (Thrown e, s1)
                  | Inr c \<Rightarrow> (Returned (JObj [(''list'', c)]), s1))))"
  by (subst batchRequest.simps) (simp add: Let_def)

lemma batchRequest_large:
  "100 < length arr \<Longrightarrow>
   batchRequest env name arr endpoint results s =
     then_p (request env (reduce_params name (take 99 arr) 0 endpoint) ''GET'' JUndefined s)
       (\<lambda>res s1.
          case get_prop res ''list'' of
            Inl e \<Rightarrow> (Thrown e, s1)
          | Inr l \<Rightarrow> batchRequest env name (drop 99 arr) endpoint l s1)"
  by (subst batchRequest.simps) (simp add: Let_def)

lemma batchRequest_not_Returned [simp]:
  "fst (batchRequest env name arr endpoint results s) \<noteq> Returned v"
  by (cases "length arr \<le> 100") (simp_all add: batchRequest_small batchRequest_large)

lemma settle_Fulfilled: "fst (settle p) = Fulfilled v \<longleftrightarrow> fst p = Fulfilled v \<or> fst p = Returned v"
  by (cases p, cases "fst p") auto

lemma chunks_step:
  assumes "100 < (n::nat)"
  shows "(if n - 99 \<le> 100 then 1 else (n - 99 + 97) div 99) + 1 = (n + 97) div 99"
proof -
  have "n + 97 = (n - 99 + 97) + 99" using assms by linarith
  then have "(n + 97) div 99 = ((n - 99 + 97) + 99) div 99" by simp
  also have "\<dots> = (n - 99 + 97) div 99 + 1" by (rule div_add_self2) simp
  finally have A: "(n + 97) div 99 = (n - 99 + 97) div 99 + 1" .
  have B: "(n - 99 + 97) div 99 = 1" if "n - 99 \<le> 100"
    using assms that by (intro div_nat_eqI) simp_all
  show ?thesis using A B by simp
qed

lemma batchRequest_calls:
  "fst (batchRequest env name arr endpoint results s) = Fulfilled v \<Longrightarrow>
   request_calls (trace (snd (batchRequest env name arr endpoint results s))) =
     request_calls (trace s) + (if length arr \<le> 100 then 1 else (length arr + 97) div 99)"
proof (induction env name arr endpoint results s rule: batchRequest.induct)
  case (1 env name arr endpoint results s)
  show ?case
  proof (cases "length arr \<le> 100")
    case True
    let ?req = "request env (reduce_params name arr 0 endpoint) ''GET'' JUndefined s"
    from "1.prems" True obtain w where w: "fst ?req = Fulfilled w"
      by (auto simp add: batchRequest_small dest: then_p_Fulfilled)
    then have "snd (batchRequest env name arr endpoint results s) = snd ?req"
      using True by (cases ?req) (auto simp add: batchRequest_small split: sum.splits)
    with request_Fulfilled_calls [OF w] True show ?thesis by simp
  next
    case False
    then have large: "100 < length arr" by simp
    let ?req = "request env (reduce_params name (take 99 arr) 0 endpoint) ''GET'' JUndefined s"
    obtain r1 s1 where req: "?req = (r1, s1)" by (cases ?req)
    from "1.prems" obtain w where w: "r1 = Fulfilled w"
      unfolding batchRequest_large [OF large] req by (cases r1) auto
    from "1.prems" obtain l where l: "get_prop w ''list'' = Inr l"
      unfolding batchRequest_large [OF large] req w by (cases "get_prop w ''list''") auto
    have eq: "batchRequest env name arr endpoint results s =
                settle (batchRequest env name (drop 99 arr) endpoint l s1)"
      unfolding batchRequest_large [OF large] req w by (simp add: l)
    with "1.prems" have rec: "fst (batchRequest env name (drop 99 arr) endpoint l s1) = Fulfilled v"
      by (simp add: settle_Fulfilled)
    have q: "appendArrayOfParams name (JArr (take 99 arr)) endpoint
               = Inr (reduce_params name (take 99 arr) 0 endpoint)"
      by simp
    have "request_calls (trace (snd (batchRequest env name (drop 99 arr) endpoint l s1))) =
            request_calls (trace s1) +
              (if length (drop 99 arr) \<le> 100 then 1 else (length (drop 99 arr) + 97) div 99)"
      using "1.IH" [OF refl False refl refl q l rec] .
    moreover have "request_calls (trace s1) = Suc (request_calls (trace s))"
      using request_Fulfilled_calls [of env "reduce_params name (take 99 arr) 0 endpoint" "''GET''" JUndefined s w]
        req w by simp
    moreover have "(if length (drop 99 arr) \<le> 100 then 1 else (length (drop 99 arr) + 97) div 99) + 1
                     = (length arr + 97) div 99"
      unfolding length_drop by (rule chunks_step [OF large])
    ultimately show ?thesis
      using False by (simp add: eq)
  qed
qed

lemma batchRequest_one_request:
  assumes "length arr \<le> 100"
    and "appendArrayOfParams name (JArr arr) endpoint = Inr q"
    and "request env q ''GET'' JUndefined s = (Fulfilled r, s')"
    and "js_prop r ''list'' = JArr l"
  shows "batchRequest env name arr endpoint (JArr acc) s =
           (Fulfilled (JObj [(''list'', JArr (acc @ l))]), s')"
proof -
  from assms(4) have "\<not> nullish r" by (auto simp add: js_prop_def nullish_def)
  with assms show ?thesis
    by (simp add: batchRequest_small get_prop_def nullish_def default_to_def)
qed

lemma batchRequest_next_request:
  assumes "100 < length arr"
    and "appendArrayOfParams name (JArr (take 99 arr)) endpoint = Inr q"
    and "request env q ''GET'' JUndefined s = (Fulfilled r, s')"
    and "js_prop r ''list'' = JArr l"
  shows "batchRequest env name arr endpoint results s =
           settle (batchRequest env name (drop 99 arr) endpoint (JArr l) s')"
proof -
  from assms(4) have "\<not> nullish r" by (auto simp add: js_prop_def nullish_def)
  with assms show ?thesis
    by (simp add: batchRequest_large get_prop_def)
qed

text \<open>
  An answer without a \<^verbatim>\<open>list\<close> leaves the next call with the default, the empty array;
  the value of \<open>results\<close> that the caller left out is the empty array too.
\<close>

lemma batchRequest_default:
  "batchRequest env name arr endpoint JUndefined s = batchRequest env name arr endpoint (JArr []) s"
proof (cases "length arr \<le> 100")
  case True
  have d: "default_to (JArr []) JUndefined = default_to (JArr []) (JArr [])"
    by (simp add: default_to_def)
  show ?thesis
    unfolding batchRequest_small [OF True] d ..
next
  case False
  then show ?thesis by (simp add: batchRequest_large)
qed

lemma batchRequest_next_list:
  assumes "100 < length arr"
    and "appendArrayOfParams name (JArr (take 99 arr)) endpoint = Inr q"
    and "request env q ''GET'' JUndefined s = (Fulfilled r, s')"
    and "\<not> nullish r"
  shows "batchRequest env name arr endpoint results s =
           settle (batchRequest env name (drop 99 arr) endpoint (js_prop r ''list'') s')"
  using assms by (simp add: batchRequest_large get_prop_def)

lemma batchRequest_last_list:
  assumes "length arr \<le> 100"
    and "appendArrayOfParams name (JArr arr) endpoint = Inr q"
    and "request env q ''GET'' JUndefined s = (Fulfilled r, s')"
    and "\<not> nullish r"
    and "js_concat (default_to (JArr []) results) (js_prop r ''list'') = Inr c"
  shows "batchRequest env name arr endpoint results s = (Fulfilled (JObj [(''list'', c)]), s')"
proof -
  from assms(5) have "\<not> nullish (default_to (JArr []) results)"
    by (auto simp add: nullish_def)
  with assms show ?thesis
    by (simp add: batchRequest_small get_prop_def)
qed

text \<open>
  With three requests the lists are not all kept: the recursive call passes the list of the
  answer just received as the results so far, in place of the results so far with that
  list appended, so that the result holds the lists of the last two answers only.
\<close>

lemma batchRequest_three_requests:
  assumes "199 < length arr" and "length arr \<le> 298"
    and "appendArrayOfParams name (JArr (take 99 arr)) endpoint = Inr qa"
    and "request env qa ''GET'' JUndefined s = (Fulfilled ra, sa)"
    and "js_prop ra ''list'' = JArr la"
    and "appendArrayOfParams name (JArr (take 99 (drop 99 arr))) endpoint = Inr qb"
    and "request env qb ''GET'' JUndefined sa = (Fulfilled rb, sb)"
    and "js_prop rb ''list'' = JArr lb"
    and "appendArrayOfParams name (JArr (drop 99 (drop 99 arr))) endpoint = Inr qc"
    and "request env qc ''GET'' JUndefined sb = (Fulfilled rc, sc)"
    and "js_prop rc ''list'' = JArr lc"
  shows "batchRequest env name arr endpoint (JArr []) s =
           (Fulfilled (JObj [(''list'', JArr (lb @ lc))]), sc)"
proof -
  from assms(1) have n1: "100 < length arr" by simp
  from assms(1) have n2: "100 < length (drop 99 arr)" by simp
  from assms(2) have n3: "length (drop 99 (drop 99 arr)) \<le> 100" by simp
  have "batchRequest env name arr endpoint (JArr []) s =
          settle (batchRequest env name (drop 99 arr) endpoint (JArr la) sa)"
    by (rule batchRequest_next_request [OF n1 assms(3,4,5)])
  also have "batchRequest env name (drop 99 arr) endpoint (JArr la) sa =
               settle (batchRequest env name (drop 99 (drop 99 arr)) endpoint (JArr lb) sb)"
    by (rule batchRequest_next_request [OF n2 assms(6,7,8)])
  also have "batchRequest env name (drop 99 (drop 99 arr)) endpoint (JArr lb) sb =
               (Fulfilled (JObj [(''list'', JArr (lb @ lc))]), sc)"
    by (rule batchRequest_one_request [OF n3 assms(9,10,11)])
  finally show ?thesis by simp
qed

text \<open>
  A batch whose requests are answered, chunk by chunk, with lists: each request is issued
  from the state that the one before has left, and after the last one the batch is
  fulfilled.
\<close>

lemma batch_chunk_drop: "batch_chunk (drop 99 arr) k = batch_chunk arr (Suc k)"
  by (simp add: batch_chunk_def add.commute)

lemma batchRequest_chain:
  assumes "\<forall>k<K. request env (reduce_params name (batch_chunk arr k) 0 endpoint) ''GET'' JUndefined (ss k)
                    = (Fulfilled (rs k), ss (Suc k)) \<and>
                  js_prop (rs k) ''list'' = JArr (items k)"
    and "K = (if length arr \<le> 100 then 1 else (length arr + 97) div 99)"
  shows "\<exists>l. batchRequest env name arr endpoint (JArr acc) (ss 0) =
               (Fulfilled (JObj [(''list'', JArr l)]), ss K)"
  using assms
proof (induction "length arr" arbitrary: arr K ss rs items acc rule: less_induct)
  case less
  show ?case
  proof (cases "length arr \<le> 100")
    case True
    with less.prems(2) have K: "K = 1" by simp
    from True have chunk: "batch_chunk arr 0 = arr" by (simp add: batch_chunk_def)
    from less.prems(1) K chunk have
      r: "request env (reduce_params name arr 0 endpoint) ''GET'' JUndefined (ss 0)
            = (Fulfilled (rs 0), ss (Suc 0))"
      and l: "js_prop (rs 0) ''list'' = JArr (items 0)"
      by auto
    have "batchRequest env name arr endpoint (JArr acc) (ss 0) =
            (Fulfilled (JObj [(''list'', JArr (acc @ items 0))]), ss (Suc 0))"
      by (rule batchRequest_one_request [OF True _ r l]) simp
    with K show ?thesis by auto
  next
    case False
    then have large: "100 < length arr" by simp
    with less.prems(2) have K: "K = (length arr + 97) div 99" by simp
    have step: "(if length (drop 99 arr) \<le> 100 then 1 else (length (drop 99 arr) + 97) div 99) + 1 = K"
      unfolding length_drop K by (rule chunks_step [OF large])
    define K' where "K' = (if length (drop 99 arr) \<le> 100 then 1 else (length (drop 99 arr) + 97) div 99)"
    with step have KK: "K = Suc K'" by simp
    from large have chunk: "batch_chunk arr 0 = take 99 arr" by (simp add: batch_chunk_def)
    from less.prems(1) KK chunk have
      r: "request env (reduce_params name (take 99 arr) 0 endpoint) ''GET'' JUndefined (ss 0)
            = (Fulfilled (rs 0), ss (Suc 0))"
      and l: "js_prop (rs 0) ''list'' = JArr (items 0)"
      by auto
    have first: "batchRequest env name arr endpoint (JArr acc) (ss 0) =
                   settle (batchRequest env name (drop 99 arr) endpoint (JArr (items 0)) (ss (Suc 0)))"
      by (rule batchRequest_next_request [OF large _ r l]) simp
    have rest: "\<forall>k<K'. request env (reduce_params name (batch_chunk (drop 99 arr) k) 0 endpoint) ''GET''
                           JUndefined ((\<lambda>k. ss (Suc k)) k)
                    = (Fulfilled ((\<lambda>k. rs (Suc k)) k), (\<lambda>k. ss (Suc k)) (Suc k)) \<and>
                  js_prop ((\<lambda>k. rs (Suc k)) k) ''list'' = JArr ((\<lambda>k. items (Suc k)) k)"
      using less.prems(1) KK by (simp add: batch_chunk_drop)
    have shorter: "length (drop 99 arr) < length arr" using large by simp
    from less.hyps [OF shorter rest K'_def, of "items 0"]
    obtain l' where "batchRequest env name (drop 99 arr) endpoint (JArr (items 0)) (ss (Suc 0)) =
                       (Fulfilled (JObj [(''list'', JArr l')]), ss (Suc K'))"
      by auto
    with first KK show ?thesis by simp
  qed
qed

text \<open>
  C1, as the code has it. For an array of more than 99 elements, the batch issues
  \<open>\<lceil>(length - 1) / 99\<rceil>\<close> requests, one after the other: chunks of 99 elements
  while more than 100 elements remain, then one chunk of what remains. When these requests
  are answered with lists, the batch is fulfilled after the last of them; and a batch that
  is fulfilled has issued exactly that many requests. With up to 199 elements, which
  take one or two requests, the list of the result is the concatenation of the lists of
  the answers.
\<close>

theorem batchRequest_requests:
  "(99 < length arr \<and>
    (\<forall>k<(length arr + 97) div 99.
        request env (reduce_params name (batch_chunk arr k) 0 endpoint) ''GET'' JUndefined (ss k)
          = (Fulfilled (rs k), ss (Suc k)) \<and>
        js_prop (rs k) ''list'' = JArr (items k)) \<longrightarrow>
      (\<exists>l'. batchRequest env name arr endpoint (JArr []) (ss 0) =
              (Fulfilled (JObj [(''list'', JArr l')]), ss ((length arr + 97) div 99)))) \<and>
   (99 < length arr \<and> fst (batchRequest env name arr endpoint results s) = Fulfilled v \<longrightarrow>
      request_calls (trace (snd (batchRequest env name arr endpoint results s))) =
        request_calls (trace s) + (length arr + 97) div 99) \<and>
   (99 < length arr \<and> length arr \<le> 100 \<and>
    appendArrayOfParams name (JArr arr) endpoint = Inr q \<and>
    request env q ''GET'' JUndefined s = (Fulfilled r, s') \<and> js_prop r ''list'' = JArr l \<longrightarrow>
      batchRequest env name arr endpoint (JArr []) s = (Fulfilled (JObj [(''list'', JArr l)]), s')) \<and>
   (100 < length arr \<and> length arr \<le> 199 \<and>
    appendArrayOfParams name (JArr (take 99 arr)) endpoint = Inr qa \<and>
    request env qa ''GET'' JUndefined s = (Fulfilled ra, sa) \<and> js_prop ra ''list'' = JArr la \<and>
    appendArrayOfParams name (JArr (drop 99 arr)) endpoint = Inr qb \<and>
    request env qb ''GET'' JUndefined sa = (Fulfilled rb, sb) \<and> js_prop rb ''list'' = JArr lb \<longrightarrow>
      batchRequest env name arr endpoint (JArr []) s =
        (Fulfilled (JObj [(''list'', JArr (la @ lb))]), sb))"
proof (intro conjI impI)
  assume h: "99 < length arr \<and>
    (\<forall>k<(length arr + 97) div 99.
        request env (reduce_params name (batch_chunk arr k) 0 endpoint) ''GET'' JUndefined (ss k)
          = (Fulfilled (rs k), ss (Suc k)) \<and>
        js_prop (rs k) ''list'' = JArr (items k))"
  then have n: "99 < length arr"
    and chain: "\<forall>k<(length arr + 97) div 99.
        request env (reduce_params name (batch_chunk arr k) 0 endpoint) ''GET'' JUndefined (ss k)
          = (Fulfilled (rs k), ss (Suc k)) \<and>
        js_prop (rs k) ''list'' = JArr (items k)"
    by simp_all
  have "(length arr + 97) div 99 = 1" if "length arr \<le> 100"
    using n that by (intro div_nat_eqI) simp_all
  then have K: "(length arr + 97) div 99 = (if length arr \<le> 100 then 1 else (length arr + 97) div 99)"
    by simp
  show "\<exists>l'. batchRequest env name arr endpoint (JArr []) (ss 0) =
              (Fulfilled (JObj [(''list'', JArr l')]), ss ((length arr + 97) div 99))"
    by (rule batchRequest_chain [OF chain K])
next
  assume h: "99 < length arr \<and> fst (batchRequest env name arr endpoint results s) = Fulfilled v"
  then have n: "99 < length arr" and ok: "fst (batchRequest env name arr endpoint results s) = Fulfilled v"
    by simp_all
  have "(length arr + 97) div 99 = 1" if "length arr \<le> 100"
    using n that by (intro div_nat_eqI) simp_all
  with batchRequest_calls [OF ok]
  show "request_calls (trace (snd (batchRequest env name arr endpoint results s))) =
          request_calls (trace s) + (length arr + 97) div 99"
    by (simp split: if_splits)
next
  assume h: "99 < length arr \<and> length arr \<le> 100 \<and>
    appendArrayOfParams name (JArr arr) endpoint = Inr q \<and>
    request env q ''GET'' JUndefined s = (Fulfilled r, s') \<and> js_prop r ''list'' = JArr l"
  then have n: "length arr \<le> 100"
    and q: "appendArrayOfParams name (JArr arr) endpoint = Inr q"
    and r: "request env q ''GET'' JUndefined s = (Fulfilled r, s')"
    and l: "js_prop r ''list'' = JArr l"
    by blast+
  have "batchRequest env name arr endpoint (JArr []) s =
               (Fulfilled (JObj [(''list'', JArr ([] @ l))]), s')"
    by (rule batchRequest_one_request [OF n q r l])
  then show "batchRequest env name arr endpoint (JArr []) s = (Fulfilled (JObj [(''list'', JArr l)]), s')"
    by simp
next
  assume h: "100 < length arr \<and> length arr \<le> 199 \<and>
    appendArrayOfParams name (JArr (take 99 arr)) endpoint = Inr qa \<and>
    request env qa ''GET'' JUndefined s = (Fulfilled ra, sa) \<and> js_prop ra ''list'' = JArr la \<and>
    appendArrayOfParams name (JArr (drop 99 arr)) endpoint = Inr qb \<and>
    request env qb ''GET'' JUndefined sa = (Fulfilled rb, sb) \<and> js_prop rb ''list'' = JArr lb"
  then have n: "100 < length arr" "length arr \<le> 199"
    and qa: "appendArrayOfParams name (JArr (take 99 arr)) endpoint = Inr qa"
    and ra: "request env qa ''GET'' JUndefined s = (Fulfilled ra, sa)"
    and la: "js_prop ra ''list'' = JArr la"
    and qb: "appendArrayOfParams name (JArr (drop 99 arr)) endpoint = Inr qb"
    and rb: "request env qb ''GET'' JUndefined sa = (Fulfilled rb, sb)"
    and lb: "js_prop rb ''list'' = JArr lb"
    by blast+
  have first: "batchRequest env name arr endpoint (JArr []) s =
                      settle (batchRequest env name (drop 99 arr) endpoint (JArr la) sa)"
    by (rule batchRequest_next_request [OF n(1) qa ra la])
  from n have rest: "length (drop 99 arr) \<le> 100" by simp
  have "batchRequest env name (drop 99 arr) endpoint (JArr la) sa =
                 (Fulfilled (JObj [(''list'', JArr (la @ lb))]), sb)"
    by (rule batchRequest_one_request [OF rest qb rb lb])
  with first show "batchRequest env name arr endpoint (JArr []) s =
                     (Fulfilled (JObj [(''list'', JArr (la @ lb))]), sb)"
    by simp
qed

lemma uniform_request_eq:
  assumes "token s = Some valid_token" and "csrfToken s = JStr ''csrf-1''"
  shows "request uniform_env endpoint ''GET'' JUndefined s =
           (Fulfilled uniform_page,
            s\<lparr>trace := trace s @ [Axios (''https://farm.example'' @ endpoint) demo_opts]\<rparr>)"
  using assms
  by (simp add: request_def getAccessToken_def getCSRFToken_def axios_call_def nullish_def Let_def
                uniform_env_def demo_env_def valid_token_def obj_get_def demo_opts_def)

lemma uniform_page_list: "js_prop uniform_page ''list'' = JArr [JNum 1]"
  by (simp add: uniform_page_def js_prop_def obj_get_def)

lemma request_calls_demo_opts [simp]: "request_calls [Axios url demo_opts] = 1"
  by (simp add: request_calls_def demo_opts_def)

lemma bare_request_eq:
  assumes "token s = Some valid_token" and "csrfToken s = JStr ''csrf-1''"
  shows "request bare_env endpoint ''GET'' JUndefined s =
           (Fulfilled (JObj []),
            s\<lparr>trace := trace s @ [Axios (''https://farm.example'' @ endpoint) demo_opts]\<rparr>)"
  using assms
  by (simp add: request_def getAccessToken_def getCSRFToken_def axios_call_def nullish_def Let_def
                bare_env_def demo_env_def valid_token_def obj_get_def demo_opts_def)

lemma counting_request_eq:
  assumes "token s = Some valid_token" and "csrfToken s = JStr ''csrf-1''"
  shows "request counting_env endpoint ''GET'' JUndefined s =
           (Fulfilled (JObj [(''list'', JArr [JNum (int (length (trace s)))])]),
            s\<lparr>trace := trace s @ [Axios (''https://farm.example'' @ endpoint) demo_opts]\<rparr>)"
  using assms
  by (simp add: request_def getAccessToken_def getCSRFToken_def axios_call_def nullish_def Let_def
                counting_env_def demo_env_def valid_token_def obj_get_def demo_opts_def)


lemma request_calls_map_demo_opts:
  "request_calls (map (\<lambda>j. Axios (u j) demo_opts) js) = length js"
  by (induction js) (simp_all add: request_calls_def demo_opts_def)

lemma batch_walk_step:
  "request counting_env (reduce_params ''id'' (batch_chunk (replicate 200 (JNum 7)) k) 0 ''/log.json?'')
      ''GET'' JUndefined (batch_walk k)
     = (Fulfilled (JObj [(''list'', JArr [JNum (int k)])]), batch_walk (Suc k))"
proof -
  have "token (batch_walk k) = Some valid_token" "csrfToken (batch_walk k) = JStr ''csrf-1''"
    by (simp_all add: batch_walk_def demo_farm_def)
  from counting_request_eq [OF this]
  show ?thesis by (simp add: batch_walk_def)
qed

theorem batchRequest_requests_witness:
  "fst (batchRequest uniform_env ''id'' (replicate 100 (JNum 7)) ''/log.json?'' (JArr []) demo_farm)
     = Fulfilled (JObj [(''list'', JArr [JNum 1])]) \<and>
   fst (batchRequest uniform_env ''id'' (replicate 101 (JNum 7)) ''/log.json?'' (JArr []) demo_farm)
     = Fulfilled (JObj [(''list'', JArr [JNum 1, JNum 1])]) \<and>
   request_calls (trace (snd (batchRequest uniform_env ''id'' (replicate 101 (JNum 7)) ''/log.json?''
                                (JArr []) demo_farm))) = 2 \<and>
   fst (batchRequest bare_env ''id'' (replicate 101 (JNum 7)) ''/log.json?'' (JArr []) demo_farm)
     = Fulfilled (JObj [(''list'', JArr [JUndefined])]) \<and>
   request_calls (trace (snd (batchRequest bare_env ''id'' (replicate 101 (JNum 7)) ''/log.json?''
                                (JArr []) demo_farm))) = 2 \<and>
   (\<exists>l. batchRequest counting_env ''id'' (replicate 200 (JNum 7)) ''/log.json?'' (JArr []) demo_farm =
          (Fulfilled (JObj [(''list'', JArr l)]), batch_walk 3)) \<and>
   request_calls (trace (batch_walk 3)) = 3"
proof -
  let ?small = "replicate 100 (JNum 7)"
  let ?arr = "replicate 101 (JNum 7)"
  let ?q = "reduce_params ''id'' ?small 0 ''/log.json?''"
  let ?qa = "reduce_params ''id'' (take 99 ?arr) 0 ''/log.json?''"
  let ?qb = "reduce_params ''id'' (drop 99 ?arr) 0 ''/log.json?''"
  let ?s' = "demo_farm\<lparr>trace := trace demo_farm @ [Axios (''https://farm.example'' @ ?q) demo_opts]\<rparr>"
  let ?sa = "demo_farm\<lparr>trace := trace demo_farm @ [Axios (''https://farm.example'' @ ?qa) demo_opts]\<rparr>"
  let ?sb = "?sa\<lparr>trace := trace ?sa @ [Axios (''https://farm.example'' @ ?qb) demo_opts]\<rparr>"
  have one: "request uniform_env ?q ''GET'' JUndefined demo_farm = (Fulfilled uniform_page, ?s')"
    by (rule uniform_request_eq) (simp_all add: demo_farm_def)
  have ra: "request uniform_env ?qa ''GET'' JUndefined demo_farm = (Fulfilled uniform_page, ?sa)"
    by (rule uniform_request_eq) (simp_all add: demo_farm_def)
  have rb: "request uniform_env ?qb ''GET'' JUndefined ?sa = (Fulfilled uniform_page, ?sb)"
    by (rule uniform_request_eq) (simp_all add: demo_farm_def)
  have ba: "request bare_env ?qa ''GET'' JUndefined demo_farm = (Fulfilled (JObj []), ?sa)"
    by (rule bare_request_eq) (simp_all add: demo_farm_def)
  have bb: "request bare_env ?qb ''GET'' JUndefined ?sa = (Fulfilled (JObj []), ?sb)"
    by (rule bare_request_eq) (simp_all add: demo_farm_def)
  have bare: "batchRequest bare_env ''id'' ?arr ''/log.json?'' (JArr []) demo_farm =
                (Fulfilled (JObj [(''list'', JArr [JUndefined])]), ?sb)"
  proof -
    have "batchRequest bare_env ''id'' ?arr ''/log.json?'' (JArr []) demo_farm =
            settle (batchRequest bare_env ''id'' (drop 99 ?arr) ''/log.json?'' (js_prop (JObj []) ''list'') ?sa)"
      by (rule batchRequest_next_list [OF _ _ ba]) (simp_all add: nullish_def)
    also have "batchRequest bare_env ''id'' (drop 99 ?arr) ''/log.json?'' (js_prop (JObj []) ''list'') ?sa =
                 (Fulfilled (JObj [(''list'', JArr [JUndefined])]), ?sb)"
      by (rule batchRequest_last_list [OF _ _ bb])
         (simp_all add: nullish_def js_prop_def obj_get_def default_to_def)
    finally show ?thesis by simp
  qed
  note thm100 = batchRequest_requests
    [where arr = ?small and env = uniform_env and name = "''id''" and endpoint = "''/log.json?''"
       and s = demo_farm and q = ?q and r = uniform_page and s' = ?s' and l = "[JNum 1]"]
  note thm101 = batchRequest_requests
    [where arr = ?arr and env = uniform_env and name = "''id''" and endpoint = "''/log.json?''"
       and s = demo_farm and results = "JArr []"
       and v = "JObj [(''list'', JArr [JNum 1, JNum 1])]"
       and qa = ?qa and ra = uniform_page and sa = ?sa and la = "[JNum 1]"
       and qb = ?qb and rb = uniform_page and sb = ?sb and lb = "[JNum 1]"]
  note thmbare = batchRequest_requests
    [where arr = ?arr and env = bare_env and name = "''id''" and endpoint = "''/log.json?''"
       and s = demo_farm and results = "JArr []"
       and v = "JObj [(''list'', JArr [JUndefined])]"]
  note thm200 = batchRequest_requests
    [where arr = "replicate 200 (JNum 7)" and env = counting_env and name = "''id''"
       and endpoint = "''/log.json?''" and ss = batch_walk
       and rs = "\<lambda>k. JObj [(''list'', JArr [JNum (int k)])]" and items = "\<lambda>k. [JNum (int k)]"]
  have small: "batchRequest uniform_env ''id'' ?small ''/log.json?'' (JArr []) demo_farm =
                 (Fulfilled (JObj [(''list'', JArr [JNum 1])]), ?s')"
    using thm100 one uniform_page_list by simp
  have two: "batchRequest uniform_env ''id'' ?arr ''/log.json?'' (JArr []) demo_farm =
               (Fulfilled (JObj [(''list'', JArr [JNum 1, JNum 1])]), ?sb)"
    using thm101 ra rb uniform_page_list by simp
  have "request_calls (trace (snd (batchRequest uniform_env ''id'' ?arr ''/log.json?'' (JArr []) demo_farm)))
          = request_calls (trace demo_farm) + (length ?arr + 97) div 99"
    using thm101 two by simp
  moreover
  have "request_calls (trace (snd (batchRequest bare_env ''id'' ?arr ''/log.json?'' (JArr []) demo_farm)))
          = request_calls (trace demo_farm) + (length ?arr + 97) div 99"
    using thmbare bare by simp
  moreover
  have start: "batch_walk 0 = demo_farm"
    by (simp add: batch_walk_def demo_farm_def)
  have three: "(length (replicate 200 (JNum 7)) + 97) div 99 = (3::nat)"
    by simp
  have "\<exists>l. batchRequest counting_env ''id'' (replicate 200 (JNum 7)) ''/log.json?'' (JArr []) (batch_walk 0) =
          (Fulfilled (JObj [(''list'', JArr l)]), batch_walk 3)"
    using thm200 batch_walk_step unfolding three
    by (simp add: js_prop_def obj_get_def)
  moreover have "request_calls (trace (batch_walk 3)) = 3"
    by (simp add: batch_walk_def request_calls_map_demo_opts)
  ultimately show ?thesis
    using small two bare by (simp add: demo_farm_def start)
qed


text \<open>
  The claim C1 gives \<open>\<lceil>length / 99\<rceil>\<close> requests and a result list as long as the
  lists of all answers together. An array of 100 elements is not split: it takes one
  request, where the claim has two. An array of 200 elements takes three requests; with
  the answers \<^verbatim>\<open>{list: [0]}\<close>, \<^verbatim>\<open>{list: [1]}\<close>, \<^verbatim>\<open>{list: [2]}\<close> the result is
  \<^verbatim>\<open>{list: [1, 2]}\<close>, of length two and not three: the list of the first answer is lost.
\<close>

theorem batchRequest_hundred_two_hundred:
  "fst (batchRequest uniform_env ''id'' (replicate 100 (JNum 7)) ''/log.json?'' (JArr []) demo_farm)
     = Fulfilled (JObj [(''list'', JArr [JNum 1])]) \<and>
   request_calls (trace (snd (batchRequest uniform_env ''id'' (replicate 100 (JNum 7)) ''/log.json?''
                                (JArr []) demo_farm))) = 1 \<and>
   (length (replicate 100 (JNum 7)) + 98) div 99 = (2::nat) \<and>
   request counting_env (reduce_params ''id'' (replicate 99 (JNum 7)) 0 ''/log.json?'') ''GET'' JUndefined
       demo_farm =
     (Fulfilled (JObj [(''list'', JArr [JNum 0])]),
      demo_farm\<lparr>trace :=
        [Axios (''https://farm.example'' @ reduce_params ''id'' (replicate 99 (JNum 7)) 0 ''/log.json?'') demo_opts]\<rparr>) \<and>
   request counting_env (reduce_params ''id'' (replicate 99 (JNum 7)) 0 ''/log.json?'') ''GET'' JUndefined
       (demo_farm\<lparr>trace :=
          [Axios (''https://farm.example'' @ reduce_params ''id'' (replicate 99 (JNum 7)) 0 ''/log.json?'') demo_opts]\<rparr>) =
     (Fulfilled (JObj [(''list'', JArr [JNum 1])]),
      demo_farm\<lparr>trace :=
        [Axios (''https://farm.example'' @ reduce_params ''id'' (replicate 99 (JNum 7)) 0 ''/log.json?'') demo_opts,
         Axios (''https://farm.example'' @ reduce_params ''id'' (replicate 99 (JNum 7)) 0 ''/log.json?'') demo_opts]\<rparr>) \<and>
   request counting_env (reduce_params ''id'' (replicate 2 (JNum 7)) 0 ''/log.json?'') ''GET'' JUndefined
       (demo_farm\<lparr>trace :=
          [Axios (''https://farm.example'' @ reduce_params ''id'' (replicate 99 (JNum 7)) 0 ''/log.json?'') demo_opts,
           Axios (''https://farm.example'' @ reduce_params ''id'' (replicate 99 (JNum 7)) 0 ''/log.json?'') demo_opts]\<rparr>) =
     (Fulfilled (JObj [(''list'', JArr [JNum 2])]),
      demo_farm\<lparr>trace :=
        [Axios (''https://farm.example'' @ reduce_params ''id'' (replicate 99 (JNum 7)) 0 ''/log.json?'') demo_opts,
         Axios (''https://farm.example'' @ reduce_params ''id'' (replicate 99 (JNum 7)) 0 ''/log.json?'') demo_opts,
         Axios ''https://farm.example/log.json?id[0]=7&id[1]=7'' demo_opts]\<rparr>) \<and>
   batchRequest counting_env ''id'' (replicate 200 (JNum 7)) ''/log.json?'' (JArr []) demo_farm =
     (Fulfilled (JObj [(''list'', JArr [JNum 1, JNum 2])]),
      demo_farm\<lparr>trace :=
        [Axios (''https://farm.example'' @ reduce_params ''id'' (replicate 99 (JNum 7)) 0 ''/log.json?'') demo_opts,
         Axios (''https://farm.example'' @ reduce_params ''id'' (replicate 99 (JNum 7)) 0 ''/log.json?'') demo_opts,
         Axios ''https://farm.example/log.json?id[0]=7&id[1]=7'' demo_opts]\<rparr>)"
proof -
  let ?q = "reduce_params ''id'' (replicate 99 (JNum 7)) 0 ''/log.json?''"
  let ?c = "reduce_params ''id'' (replicate 2 (JNum 7)) 0 ''/log.json?''"
  let ?sa = "demo_farm\<lparr>trace := [Axios (''https://farm.example'' @ ?q) demo_opts]\<rparr>"
  let ?sb = "demo_farm\<lparr>trace := [Axios (''https://farm.example'' @ ?q) demo_opts,
                                   Axios (''https://farm.example'' @ ?q) demo_opts]\<rparr>"
  let ?sc = "demo_farm\<lparr>trace := [Axios (''https://farm.example'' @ ?q) demo_opts,
                                   Axios (''https://farm.example'' @ ?q) demo_opts,
                                   Axios ''https://farm.example/log.json?id[0]=7&id[1]=7'' demo_opts]\<rparr>"
  have c: "?c = ''/log.json?id[0]=7&id[1]=7''"
    by (simp add: numeral_2_eq_2 appendParam_def endsWith_def show_int_def show_nat.simps digit_char_def)
  have hundred: "batchRequest uniform_env ''id'' (replicate 100 (JNum 7)) ''/log.json?'' (JArr []) demo_farm =
          (Fulfilled (JObj [(''list'', JArr ([] @ [JNum 1]))]),
           demo_farm\<lparr>trace := trace demo_farm @
              [Axios (''https://farm.example'' @ reduce_params ''id'' (replicate 100 (JNum 7)) 0 ''/log.json?'')
                 demo_opts]\<rparr>)"
    by (rule batchRequest_one_request [OF _ _ uniform_request_eq uniform_page_list])
       (simp_all add: demo_farm_def)
  have ra: "request counting_env ?q ''GET'' JUndefined demo_farm
              = (Fulfilled (JObj [(''list'', JArr [JNum 0])]), ?sa)"
    by (simp add: counting_request_eq demo_farm_def)
  have rb: "request counting_env ?q ''GET'' JUndefined ?sa
              = (Fulfilled (JObj [(''list'', JArr [JNum 1])]), ?sb)"
    by (simp add: counting_request_eq demo_farm_def)
  have rc: "request counting_env ?c ''GET'' JUndefined ?sb
              = (Fulfilled (JObj [(''list'', JArr [JNum 2])]), ?sc)"
    unfolding c by (simp add: counting_request_eq demo_farm_def)
  have lists: "js_prop (JObj [(''list'', JArr [JNum k])]) ''list'' = JArr [JNum k]" for k
    by (simp add: js_prop_def obj_get_def)
  have qa: "appendArrayOfParams ''id'' (JArr (take 99 (replicate 200 (JNum 7)))) ''/log.json?'' = Inr ?q"
    by simp
  have qb: "appendArrayOfParams ''id'' (JArr (take 99 (drop 99 (replicate 200 (JNum 7))))) ''/log.json?'' = Inr ?q"
    by simp
  have qc: "appendArrayOfParams ''id'' (JArr (drop 99 (drop 99 (replicate 200 (JNum 7))))) ''/log.json?'' = Inr ?c"
    by simp
  have three: "batchRequest counting_env ''id'' (replicate 200 (JNum 7)) ''/log.json?'' (JArr []) demo_farm =
                 (Fulfilled (JObj [(''list'', JArr ([JNum 1] @ [JNum 2]))]), ?sc)"
    by (rule batchRequest_three_requests [OF _ _ qa ra lists qb rb lists qc rc lists]) simp_all
  show ?thesis
    using hundred ra rb rc three by (simp add: demo_farm_def c)
qed


section \<open>Properties of the facades\<close>

lemma request_not_Returned [simp]: "fst (request env endpoint meth payload s) \<noteq> Returned v"
  by (simp add: request_def Let_def)

lemma request_Returned:
  "request env endpoint meth payload s = (Returned v, s') \<Longrightarrow> False"
  using request_not_Returned [of env endpoint meth payload s v] by simp

lemma batchRequest_Returned:
  "batchRequest env name arr endpoint results s = (Returned v, s') \<Longrightarrow> False"
  using batchRequest_not_Returned [of env name arr endpoint results s v] by simp

lemma requestAll_not_Returned:
  assumes "requestAll env url page list s = Some y"
  shows "fst y \<noteq> Returned v"
proof (rule requestAll.raw_induct
         [where P = "\<lambda>env url page list s y. fst y \<noteq> Returned v", OF _ assms], goal_cases)
  case (1 f env url page list s y)
  obtain r1 s1 where req: "request env (url @ ''&page='' @ show_int page) ''GET'' JUndefined s = (r1, s1)"
    by (cases "request env (url @ ''&page='' @ show_int page) ''GET'' JUndefined s")
  note body = 1(2) [unfolded req prod.case]
  show ?case
  proof (cases r1)
    case (Fulfilled response)
    with body show ?thesis
      by (auto split: sum.splits if_splits simp: Option.bind_eq_Some_conv)
  qed (use body in auto)
qed

text \<open>
  C10. For the empty array \<open>log.get\<close> returns the object \<^verbatim>\<open>{ list: [] }\<close> itself, at once:
  no call is issued and the state is as it was. An array that is not empty goes to
  \<open>batchRequest\<close>. For every other argument the result is a promise (or a synchronous
  throw), never a plain value.
\<close>

theorem log_get_empty:
  "log_get env (JArr []) s = Some (Returned (JObj [(''list'', JArr [])]), s) \<and>
   (ids \<noteq> [] \<longrightarrow>
      log_get env (JArr ids) s = Some (batchRequest env ''id'' ids ''/log.json?'' (JArr []) s)) \<and>
   (opts \<noteq> JArr [] \<and> log_get env opts s = Some (r, s') \<longrightarrow> (\<forall>v. r \<noteq> Returned v))"
proof (intro conjI impI allI)
  show "log_get env (JArr []) s = Some (Returned (JObj [(''list'', JArr [])]), s)"
    by (simp add: log_get_def default_to_def)
next
  assume "ids \<noteq> []"
  then show "log_get env (JArr ids) s = Some (batchRequest env ''id'' ids ''/log.json?'' (JArr []) s)"
    by (simp add: log_get_def default_to_def)
next
  fix v
  assume h: "opts \<noteq> JArr [] \<and> log_get env opts s = Some (r, s')"
  show "r \<noteq> Returned v"
  proof
    assume r: "r = Returned v"
    from h r have "log_get env opts s = Some (Returned v, s')" by simp
    then show False
      using h
      by (auto simp add: log_get_def default_to_def Let_def
               split: json.splits if_splits sum.splits
               dest: requestAll_not_Returned [where v = v] request_Returned batchRequest_Returned)
  qed
qed


theorem log_get_empty_witness:
  "log_get demo_env (JArr []) demo_farm = Some (Returned (JObj [(''list'', JArr [])]), demo_farm) \<and>
   log_get uniform_env (JArr [JNum 4, JNum 9]) demo_farm =
     Some (Fulfilled (JObj [(''list'', JArr [JNum 1])]),
           demo_farm\<lparr>trace := [Axios ''https://farm.example/log.json?id[0]=4&id[1]=9'' demo_opts]\<rparr>) \<and>
   log_get demo_env (JNum 7) demo_farm =
     Some (Fulfilled first_page,
           demo_farm\<lparr>trace := [Axios ''https://farm.example/log/7.json'' demo_opts]\<rparr>) \<and>
   (\<forall>v. Fulfilled first_page \<noteq> Returned v)"
proof -
  have seven: "log_get demo_env (JNum 7) demo_farm =
     Some (Fulfilled first_page,
           demo_farm\<lparr>trace := [Axios ''https://farm.example/log/7.json'' demo_opts]\<rparr>)"
    by (simp add: log_get_def default_to_def demo_request demo_farm_def demo_server_def
                  show_int_def show_nat.simps digit_char_def)
  have batch: "batchRequest uniform_env ''id'' [JNum 4, JNum 9] ''/log.json?'' (JArr []) demo_farm =
     (Fulfilled (JObj [(''list'', JArr [JNum 1])]),
      demo_farm\<lparr>trace := [Axios ''https://farm.example/log.json?id[0]=4&id[1]=9'' demo_opts]\<rparr>)"
    by (simp add: batchRequest_small uniform_request_eq demo_farm_def nullish_def get_prop_def
                  js_prop_def obj_get_def uniform_page_def appendParam_def endsWith_def
                  default_to_def show_int_def show_nat.simps digit_char_def)
  show ?thesis
    using log_get_empty [where env = demo_env and s = demo_farm and opts = "JNum 7"
                           and r = "Fulfilled first_page"
                           and s' = "demo_farm\<lparr>trace := [Axios ''https://farm.example/log/7.json'' demo_opts]\<rparr>"]
          log_get_empty [where env = uniform_env and s = demo_farm and ids = "[JNum 4, JNum 9]"]
          seven batch
    by simp
qed

lemma find_farm_areas_first:
  assumes "\<forall>p\<in>set pre. \<not> nullish p \<and> js_prop p ''machine_name'' \<noteq> JStr ''farm_areas''"
    and "js_prop voc ''machine_name'' = JStr ''farm_areas''"
  shows "find_farm_areas (pre @ voc # post) = Inr voc"
  using assms(1)
proof (induction pre)
  case Nil
  from assms(2) have "\<not> nullish voc" by (auto simp add: js_prop_def nullish_def)
  with assms(2) show ?case by (simp add: get_prop_def)
next
  case (Cons p pre)
  then show ?case by (simp add: get_prop_def)
qed

lemma areaVid_first:
  assumes "\<forall>p\<in>set pre. \<not> nullish p \<and> js_prop p ''machine_name'' \<noteq> JStr ''farm_areas''"
    and "js_prop voc ''machine_name'' = JStr ''farm_areas''"
  shows "areaVid (JObj [(''list'', JArr (pre @ voc # post))]) = Inr (js_prop voc ''vid'')"
proof -
  from assms(2) have "\<not> nullish voc" by (auto simp add: js_prop_def nullish_def)
  then show ?thesis
    by (simp add: areaVid_def get_prop_def nullish_def js_prop_def obj_get_def
                  find_farm_areas_first [OF assms])
qed

lemma area_get_number:
  assumes "request env ''/taxonomy_vocabulary.json'' ''GET'' JUndefined s = (Fulfilled res, s1)"
    and "areaVid res = Inr vid"
  shows "area_get env (JNum n) s =
           Some (settle (request env (''/taxonomy_term.json?vocabulary='' @ to_string vid
                                       @ ''&tid='' @ show_int n) ''GET'' JUndefined s1))"
  using assms by (simp add: area_get_def default_to_def)

lemma area_send_main:
  assumes "request env ''/taxonomy_vocabulary.json'' ''GET'' JUndefined s = (Fulfilled res, s1)"
    and "areaVid res = Inr vid"
  shows "area_send env payload ident s =
           settle (request env (''/taxonomy_term.json?vocabulary='' @ to_string vid @ params ident)
                     ''POST'' payload s1)"
  using assms by (simp add: area_send_def)

lemma area_delete_main:
  assumes "request env ''/taxonomy_vocabulary.json'' ''GET'' JUndefined s = (Fulfilled res, s1)"
    and "areaVid res = Inr vid"
  shows "area_delete env ident s =
           settle (request env (''/taxonomy_term.json?vocabulary='' @ to_string vid @ params ident)
                     ''DELETE'' JUndefined s1)"
  using assms by (simp add: area_delete_def)

lemma area_lookup_failed:
  assumes "request env ''/taxonomy_vocabulary.json'' ''GET'' JUndefined s = (r1, s1)"
    and "r1 = Rejected e \<or> r1 = Thrown e"
  shows "area_get env opts s = Some (r1, s1)"
    and "area_send env payload ident s = (r1, s1)"
    and "area_delete env ident s = (r1, s1)"
  using assms by (auto simp add: area_get_def area_send_def area_delete_def Let_def)


lemma area_get_options:
  assumes "request env ''/taxonomy_vocabulary.json'' ''GET'' JUndefined s = (Fulfilled res, s1)"
    and "areaVid res = Inr vid"
    and "\<forall>n. opts \<noteq> JNum n" and "opts \<noteq> JNull"
  shows "area_get env opts s =
           (let given = default_to (JObj []) opts;
                page = default_to JNull (js_prop given ''page'');
                type = default_to (JStr []) (js_prop given ''type'');
                typeParams = (if type = JStr [] then [] else ''area_type='' @ to_string type)
            in if page = JNull
               then map_option settle
                      (requestAll env (''/taxonomy_term.json?vocabulary='' @ to_string vid
                                        @ ''&'' @ typeParams) 0 [] s1)
               else Some (settle (request env (''/taxonomy_term.json?vocabulary='' @ to_string vid
                                                @ ''&'' @ typeParams @ ''&page='' @ to_string page)
                                    ''GET'' JUndefined s1)))"
proof (cases "default_to (JObj []) opts")
  case (JNum n)
  with assms(3) show ?thesis by (simp add: default_to_def split: if_splits)
next
  case JNull
  with assms(4) show ?thesis by (simp add: default_to_def split: if_splits)
next
  case JUndefined
  then show ?thesis by (simp add: default_to_def split: if_splits)
qed (use assms(1,2) in \<open>simp_all add: area_get_def Let_def nullish_def\<close>)

lemma area_get_null:
  assumes "request env ''/taxonomy_vocabulary.json'' ''GET'' JUndefined s = (Fulfilled res, s1)"
  shows "area_get env JNull s = Some (Rejected (no_properties JNull ''page''), s1)"
  using assms by (simp add: area_get_def Let_def nullish_def default_to_def)

lemma area_vid_failed:
  assumes "request env ''/taxonomy_vocabulary.json'' ''GET'' JUndefined s = (Fulfilled res, s1)"
    and "areaVid res = Inl e"
  shows "opts \<noteq> JNull \<Longrightarrow> area_get env opts s = Some (Rejected e, s1)"
    and "area_send env payload ident s = (Rejected e, s1)"
    and "area_delete env ident s = (Rejected e, s1)"
proof -
  show "area_send env payload ident s = (Rejected e, s1)"
    using assms by (simp add: area_send_def)
  show "area_delete env ident s = (Rejected e, s1)"
    using assms by (simp add: area_delete_def)
  assume n: "opts \<noteq> JNull"
  show "area_get env opts s = Some (Rejected e, s1)"
  proof (cases "default_to (JObj []) opts")
    case JNull
    with n show ?thesis by (simp add: default_to_def split: if_splits)
  next
    case JUndefined
    then show ?thesis by (simp add: default_to_def split: if_splits)
  qed (use assms in \<open>simp_all add: area_get_def Let_def nullish_def\<close>)
qed


lemma continues_refl [simp]: "continues s s"
  by (simp add: continues_def)

lemma continues_trans: "continues s s1 \<Longrightarrow> continues s1 s2 \<Longrightarrow> continues s s2"
  by (auto simp add: continues_def)

lemma continues_event [simp]: "continues s (s\<lparr>trace := trace s @ evs\<rparr>)"
  by (simp add: continues_def)

lemma continues_then_p:
  assumes "continues s (snd p)"
    and "\<And>v s1. continues s1 (snd (f v s1))"
  shows "continues s (snd (then_p p f))"
proof (cases p)
  case (Pair r s1)
  show ?thesis
  proof (cases r)
    case (Fulfilled v)
    have "continues s1 (snd (f v s1))" by (rule assms(2))
    with assms(1) Pair Fulfilled show ?thesis by (auto intro: continues_trans)
  qed (use assms(1) Pair in auto)
qed

lemma continues_getAccessToken: "continues s (snd (getAccessToken env s))"
  by (simp add: getAccessToken_def token_refresh_def useToken_def Let_def continues_def
           split: option.splits sum.splits)

lemma continues_getCSRFToken: "continues s (snd (getCSRFToken env a s))"
  by (simp add: getCSRFToken_def axios_call_def Let_def continues_def split: sum.splits)

lemma continues_axios_call: "continues s (snd (axios_call env url opts s))"
  by (simp add: axios_call_def Let_def continues_def split: sum.splits)

lemma continues_request: "continues s (snd (request env endpoint meth payload s))"
  unfolding request_def Let_def
  by (intro continues_then_p continues_getAccessToken continues_getCSRFToken continues_axios_call)

lemma continues_requestAll:
  assumes "requestAll env url page list s = Some y"
  shows "continues s (snd y)"
proof (rule requestAll.raw_induct
         [where P = "\<lambda>env url page list s y. continues s (snd y)", OF _ assms], goal_cases)
  case (1 f env url page list s y)
  obtain r1 s1 where req: "request env (url @ ''&page='' @ show_int page) ''GET'' JUndefined s = (r1, s1)"
    by (cases "request env (url @ ''&page='' @ show_int page) ''GET'' JUndefined s")
  have k1: "continues s s1"
    using continues_request [of s env "url @ ''&page='' @ show_int page" "''GET''" JUndefined] req by simp
  note body = 1(2) [unfolded req prod.case]
  show ?case
  proof (cases r1)
    case (Fulfilled response)
    show ?thesis
    proof (cases "snd y = s1")
      case True
      with k1 show ?thesis by simp
    next
      case False
      with body Fulfilled obtain items q where
        rec: "f env url (page + 1) (concat_arr list items) s1 = Some q" and q: "settle q = y"
        by (auto split: sum.splits if_splits simp: Option.bind_eq_Some_conv)
      from rec have "continues s1 (snd q)" by (rule 1(1))
      with q have "continues s1 (snd y)" by auto
      with k1 show ?thesis by (rule continues_trans)
    qed
  qed (use body k1 in auto)
qed

lemma continues_opt_Some [simp]: "continues_opt s (Some y) = continues s (snd y)"
  by (simp add: continues_opt_def)

lemma continues_opt_requestAll [simp]: "continues_opt s (requestAll env url page list s)"
  by (auto simp add: continues_opt_def split: option.splits dest: continues_requestAll)

lemma continues_opt_then_o:
  assumes "\<And>v. continues_opt s1 (f v s1)"
  shows "continues_opt s1 (then_o (r1, s1) f)"
proof (cases r1)
  case (Fulfilled v)
  with assms [of v] show ?thesis
    by (cases "f v s1") (simp_all add: continues_opt_def)
qed simp_all

lemma continues_area_get:
  assumes "request env ''/taxonomy_vocabulary.json'' ''GET'' JUndefined s = (r1, s1)"
  shows "continues_opt s1 (area_get env opts s)"
  unfolding area_get_def Let_def assms
  by (rule continues_opt_then_o)
     (auto simp add: continues_request split: json.splits sum.splits)

lemma continues_area_send:
  assumes "request env ''/taxonomy_vocabulary.json'' ''GET'' JUndefined s = (r1, s1)"
  shows "continues s1 (snd (area_send env payload ident s))"
  unfolding area_send_def assms
  by (cases r1) (auto simp add: continues_request split: sum.splits)

lemma continues_area_delete:
  assumes "request env ''/taxonomy_vocabulary.json'' ''GET'' JUndefined s = (r1, s1)"
  shows "continues s1 (snd (area_delete env ident s))"
  unfolding area_delete_def assms
  by (cases r1) (auto simp add: continues_request split: sum.splits)


text \<open>
  C9. Every area operation starts with \<open>request\<close> of \<^verbatim>\<open>/taxonomy_vocabulary.json\<close> by
  \<^verbatim>\<open>GET\<close>, whatever the state (nothing is kept of an earlier lookup). When the lookup
  fails, its failure is the result and nothing else is issued. When it is answered, the
  \<^verbatim>\<open>vid\<close> of the first vocabulary named \<^verbatim>\<open>farm_areas\<close> is read from the answer and the
  main request follows from the state the lookup left: for \<^verbatim>\<open>area.get(n)\<close> it is
  \<^verbatim>\<open>/taxonomy_term.json?vocabulary={vid}&tid={n}\<close>; for \<^verbatim>\<open>area.get\<close> with an options
  object (or with nothing) it is \<^verbatim>\<open>/taxonomy_term.json?vocabulary={vid}&{typeParams}\<close>,
  walked through all pages when the options name no page and followed by
  \<^verbatim>\<open>&page={page}\<close> when they do; for \<^verbatim>\<open>area.send\<close> and \<^verbatim>\<open>area.delete\<close> it is
  \<^verbatim>\<open>/taxonomy_term.json?vocabulary={vid}\<close> followed by \<^verbatim>\<open>/{id}.json\<close> or
  \<^verbatim>\<open>.json\<close>. When the answer has no such vocabulary, or the options are \<^verbatim>\<open>null\<close>,
  the operation is rejected after the lookup and no main request is issued. In every case
  what the operation issues comes after the lookup.
\<close>

theorem area_lookup_first:
  "(request env ''/taxonomy_vocabulary.json'' ''GET'' JUndefined s = (Fulfilled res, sa) \<and>
    areaVid res = Inr vid \<longrightarrow>
      area_get env (JNum n) s =
        Some (settle (request env (''/taxonomy_term.json?vocabulary='' @ to_string vid
                                    @ ''&tid='' @ show_int n) ''GET'' JUndefined sa)) \<and>
      area_send env payload ident s =
        settle (request env (''/taxonomy_term.json?vocabulary='' @ to_string vid @ params ident)
                  ''POST'' payload sa) \<and>
      area_delete env ident s =
        settle (request env (''/taxonomy_term.json?vocabulary='' @ to_string vid @ params ident)
                  ''DELETE'' JUndefined sa)) \<and>
   (request env ''/taxonomy_vocabulary.json'' ''GET'' JUndefined s = (Fulfilled res, sa) \<and>
    areaVid res = Inr vid \<and> (\<forall>i. opts \<noteq> JNum i) \<and> opts \<noteq> JNull \<longrightarrow>
      area_get env opts s =
        (let options = default_to (JObj []) opts;
             page = default_to JNull (js_prop options ''page'');
             type = default_to (JStr []) (js_prop options ''type'');
             typeParams = (if type = JStr [] then [] else ''area_type='' @ to_string type)
         in if page = JNull
            then map_option settle
                   (requestAll env (''/taxonomy_term.json?vocabulary='' @ to_string vid
                                     @ ''&'' @ typeParams) 0 [] sa)
            else Some (settle (request env (''/taxonomy_term.json?vocabulary='' @ to_string vid
                                             @ ''&'' @ typeParams @ ''&page='' @ to_string page)
                                 ''GET'' JUndefined sa)))) \<and>
   (request env ''/taxonomy_vocabulary.json'' ''GET'' JUndefined s = (Fulfilled res, sa) \<longrightarrow>
      area_get env JNull s = Some (Rejected (no_properties JNull ''page''), sa)) \<and>
   (request env ''/taxonomy_vocabulary.json'' ''GET'' JUndefined s = (Fulfilled res, sa) \<and>
    areaVid res = Inl e \<longrightarrow>
      (opts \<noteq> JNull \<longrightarrow> area_get env opts s = Some (Rejected e, sa)) \<and>
      area_send env payload ident s = (Rejected e, sa) \<and>
      area_delete env ident s = (Rejected e, sa)) \<and>
   (request env ''/taxonomy_vocabulary.json'' ''GET'' JUndefined s = (ra, sa) \<and>
    (ra = Rejected e \<or> ra = Thrown e) \<longrightarrow>
      area_get env opts s = Some (ra, sa) \<and>
      area_send env payload ident s = (ra, sa) \<and>
      area_delete env ident s = (ra, sa)) \<and>
   (request env ''/taxonomy_vocabulary.json'' ''GET'' JUndefined s = (ra, sa) \<longrightarrow>
      (area_get env opts s = Some (r, s') \<longrightarrow> (\<exists>evs. trace s' = trace sa @ evs)) \<and>
      (\<exists>evs. trace (snd (area_send env payload ident s)) = trace sa @ evs) \<and>
      (\<exists>evs. trace (snd (area_delete env ident s)) = trace sa @ evs)) \<and>
   ((\<forall>p\<in>set pre. \<not> nullish p \<and> js_prop p ''machine_name'' \<noteq> JStr ''farm_areas'') \<and>
    js_prop voc ''machine_name'' = JStr ''farm_areas'' \<longrightarrow>
      areaVid (JObj [(''list'', JArr (pre @ voc # post))]) = Inr (js_prop voc ''vid''))"
proof (intro conjI impI)
  assume "request env ''/taxonomy_vocabulary.json'' ''GET'' JUndefined s = (Fulfilled res, sa) \<and>
          areaVid res = Inr vid"
  then have l: "request env ''/taxonomy_vocabulary.json'' ''GET'' JUndefined s = (Fulfilled res, sa)"
    and v: "areaVid res = Inr vid"
    by simp_all
  show "area_get env (JNum n) s =
        Some (settle (request env (''/taxonomy_term.json?vocabulary='' @ to_string vid
                                    @ ''&tid='' @ show_int n) ''GET'' JUndefined sa))"
    by (rule area_get_number [OF l v])
  show "area_send env payload ident s =
        settle (request env (''/taxonomy_term.json?vocabulary='' @ to_string vid @ params ident)
                  ''POST'' payload sa)"
    by (rule area_send_main [OF l v])
  show "area_delete env ident s =
        settle (request env (''/taxonomy_term.json?vocabulary='' @ to_string vid @ params ident)
                  ''DELETE'' JUndefined sa)"
    by (rule area_delete_main [OF l v])
next
  assume "request env ''/taxonomy_vocabulary.json'' ''GET'' JUndefined s = (Fulfilled res, sa) \<and>
    areaVid res = Inr vid \<and> (\<forall>i. opts \<noteq> JNum i) \<and> opts \<noteq> JNull"
  then have l: "request env ''/taxonomy_vocabulary.json'' ''GET'' JUndefined s = (Fulfilled res, sa)"
    and v: "areaVid res = Inr vid" and g: "\<forall>i. opts \<noteq> JNum i" "opts \<noteq> JNull"
    by simp_all
  show "area_get env opts s =
        (let options = default_to (JObj []) opts;
             page = default_to JNull (js_prop options ''page'');
             type = default_to (JStr []) (js_prop options ''type'');
             typeParams = (if type = JStr [] then [] else ''area_type='' @ to_string type)
         in if page = JNull
            then map_option settle
                   (requestAll env (''/taxonomy_term.json?vocabulary='' @ to_string vid
                                     @ ''&'' @ typeParams) 0 [] sa)
            else Some (settle (request env (''/taxonomy_term.json?vocabulary='' @ to_string vid
                                             @ ''&'' @ typeParams @ ''&page='' @ to_string page)
                                 ''GET'' JUndefined sa)))"
    by (rule area_get_options [OF l v g])
next
  assume l: "request env ''/taxonomy_vocabulary.json'' ''GET'' JUndefined s = (Fulfilled res, sa)"
  show "area_get env JNull s = Some (Rejected (no_properties JNull ''page''), sa)"
    by (rule area_get_null [OF l])
next
  assume "request env ''/taxonomy_vocabulary.json'' ''GET'' JUndefined s = (Fulfilled res, sa) \<and>
    areaVid res = Inl e"
  then have l: "request env ''/taxonomy_vocabulary.json'' ''GET'' JUndefined s = (Fulfilled res, sa)"
    and v: "areaVid res = Inl e"
    by simp_all
  show "area_send env payload ident s = (Rejected e, sa)" by (rule area_vid_failed(2) [OF l v])
  show "area_delete env ident s = (Rejected e, sa)" by (rule area_vid_failed(3) [OF l v])
  assume "opts \<noteq> JNull"
  then show "area_get env opts s = Some (Rejected e, sa)" by (rule area_vid_failed(1) [OF l v])
next
  assume "request env ''/taxonomy_vocabulary.json'' ''GET'' JUndefined s = (ra, sa) \<and>
          (ra = Rejected e \<or> ra = Thrown e)"
  then have l: "request env ''/taxonomy_vocabulary.json'' ''GET'' JUndefined s = (ra, sa)"
    and f: "ra = Rejected e \<or> ra = Thrown e"
    by simp_all
  show "area_get env opts s = Some (ra, sa)" by (rule area_lookup_failed(1) [OF l f])
  show "area_send env payload ident s = (ra, sa)" by (rule area_lookup_failed(2) [OF l f])
  show "area_delete env ident s = (ra, sa)" by (rule area_lookup_failed(3) [OF l f])
next
  assume l: "request env ''/taxonomy_vocabulary.json'' ''GET'' JUndefined s = (ra, sa)"
  show "\<exists>evs. trace (snd (area_send env payload ident s)) = trace sa @ evs"
    using continues_area_send [OF l] by (simp add: continues_def)
  show "\<exists>evs. trace (snd (area_delete env ident s)) = trace sa @ evs"
    using continues_area_delete [OF l] by (simp add: continues_def)
  assume "area_get env opts s = Some (r, s')"
  then show "\<exists>evs. trace s' = trace sa @ evs"
    using continues_area_get [OF l, of opts] by (simp add: continues_def)
next
  assume "(\<forall>p\<in>set pre. \<not> nullish p \<and> js_prop p ''machine_name'' \<noteq> JStr ''farm_areas'') \<and>
          js_prop voc ''machine_name'' = JStr ''farm_areas''"
  then show "areaVid (JObj [(''list'', JArr (pre @ voc # post))]) = Inr (js_prop voc ''vid'')"
    by (intro areaVid_first) simp_all
qed


theorem area_lookup_first_witness:
  "areaVid vocabularies = Inr (JNum 3) \<and>
   area_get demo_env (JNum 5) demo_farm =
     Some (Fulfilled first_page,
           demo_farm\<lparr>trace :=
             [Axios ''https://farm.example/taxonomy_vocabulary.json'' demo_opts,
              Axios ''https://farm.example/taxonomy_term.json?vocabulary=3&tid=5'' demo_opts]\<rparr>) \<and>
   area_get demo_env (JObj [(''type'', JStr ''field''), (''page'', JNum 0)]) demo_farm =
     Some (Fulfilled first_page,
           demo_farm\<lparr>trace :=
             [Axios ''https://farm.example/taxonomy_vocabulary.json'' demo_opts,
              Axios ''https://farm.example/taxonomy_term.json?vocabulary=3&area_type=field&page=0''
                demo_opts]\<rparr>) \<and>
   area_get demo_env JUndefined demo_farm =
     Some (Fulfilled (JObj [(''list'', JArr [JNum 1, JNum 2, JNum 1, JNum 2])]),
           demo_farm\<lparr>trace :=
             [Axios ''https://farm.example/taxonomy_vocabulary.json'' demo_opts,
              Axios ''https://farm.example/taxonomy_term.json?vocabulary=3&&page=0'' demo_opts,
              Axios ''https://farm.example/taxonomy_term.json?vocabulary=3&&page=1'' demo_opts]\<rparr>) \<and>
   area_get demo_env JNull demo_farm =
     Some (Rejected (no_properties JNull ''page''),
           demo_farm\<lparr>trace := [Axios ''https://farm.example/taxonomy_vocabulary.json'' demo_opts]\<rparr>) \<and>
   area_delete demo_env (JNum 5) demo_farm =
     (Fulfilled first_page,
      demo_farm\<lparr>trace :=
        [Axios ''https://farm.example/taxonomy_vocabulary.json'' demo_opts,
         Axios ''https://farm.example/taxonomy_term.json?vocabulary=3/5.json''
           (demo_opts\<lparr>method := ''DELETE''\<rparr>)]\<rparr>) \<and>
   area_delete bare_env (JNum 5) demo_farm =
     (Rejected (no_properties JUndefined ''find''),
      demo_farm\<lparr>trace := [Axios ''https://farm.example/taxonomy_vocabulary.json'' demo_opts]\<rparr>) \<and>
   area_send offline_env (JObj [(''name'', JStr ''North field'')]) JUndefined demo_farm =
     (Rejected (LibError ''Network Error''),
      demo_farm\<lparr>trace := [Axios ''https://farm.example/taxonomy_vocabulary.json'' demo_opts]\<rparr>) \<and>
   calls demo_env [AreaGet (JNum 5), AreaGet (JNum 5)] demo_farm =
     Some (demo_farm\<lparr>trace :=
             [Axios ''https://farm.example/taxonomy_vocabulary.json'' demo_opts,
              Axios ''https://farm.example/taxonomy_term.json?vocabulary=3&tid=5'' demo_opts,
              Axios ''https://farm.example/taxonomy_vocabulary.json'' demo_opts,
              Axios ''https://farm.example/taxonomy_term.json?vocabulary=3&tid=5'' demo_opts]\<rparr>)"
proof -
  let ?lookup = "Axios ''https://farm.example/taxonomy_vocabulary.json'' demo_opts"
  let ?main = "Axios ''https://farm.example/taxonomy_term.json?vocabulary=3&tid=5'' demo_opts"
  let ?paged = "Axios ''https://farm.example/taxonomy_term.json?vocabulary=3&area_type=field&page=0'' demo_opts"
  let ?p0 = "Axios ''https://farm.example/taxonomy_term.json?vocabulary=3&&page=0'' demo_opts"
  let ?p1 = "Axios ''https://farm.example/taxonomy_term.json?vocabulary=3&&page=1'' demo_opts"
  let ?s1 = "demo_farm\<lparr>trace := [?lookup]\<rparr>"
  let ?s2 = "demo_farm\<lparr>trace := [?lookup, ?main]\<rparr>"
  let ?s3 = "demo_farm\<lparr>trace := [?lookup, ?main, ?lookup]\<rparr>"
  let ?s4 = "demo_farm\<lparr>trace := [?lookup, ?main, ?lookup, ?main]\<rparr>"
  let ?w1 = "demo_farm\<lparr>trace := [?lookup, ?p0]\<rparr>"
  let ?w2 = "demo_farm\<lparr>trace := [?lookup, ?p0, ?p1]\<rparr>"
  have vid: "areaVid vocabularies = Inr (JNum 3)"
    using area_lookup_first
      [where pre = "[JObj [(''machine_name'', JStr ''farm_crops''), (''vid'', JNum 2)]]"
         and voc = "JObj [(''machine_name'', JStr ''farm_areas''), (''vid'', JNum 3)]"
         and post = "[]"]
    by (simp add: vocabularies_def js_prop_def obj_get_def nullish_def)
  have novid: "areaVid (JObj []) = Inl (no_properties JUndefined ''find'')"
    by (simp add: areaVid_def get_prop_def nullish_def js_prop_def obj_get_def)
  have lookup1: "request demo_env ''/taxonomy_vocabulary.json'' ''GET'' JUndefined demo_farm
                   = (Fulfilled vocabularies, ?s1)"
    by (simp add: demo_request demo_farm_def demo_server_def Let_def)
  have main1: "request demo_env ''/taxonomy_term.json?vocabulary=3&tid=5'' ''GET'' JUndefined ?s1
                 = (Fulfilled first_page, ?s2)"
    by (simp add: demo_request demo_farm_def demo_server_def Let_def)
  have lookup2: "request demo_env ''/taxonomy_vocabulary.json'' ''GET'' JUndefined ?s2
                   = (Fulfilled vocabularies, ?s3)"
    by (simp add: demo_request demo_farm_def demo_server_def Let_def)
  have main2: "request demo_env ''/taxonomy_term.json?vocabulary=3&tid=5'' ''GET'' JUndefined ?s3
                 = (Fulfilled first_page, ?s4)"
    by (simp add: demo_request demo_farm_def demo_server_def Let_def)
  have paged: "request demo_env ''/taxonomy_term.json?vocabulary=3&area_type=field&page=0'' ''GET''
                 JUndefined ?s1 = (Fulfilled first_page, demo_farm\<lparr>trace := [?lookup, ?paged]\<rparr>)"
    by (simp add: demo_request demo_farm_def demo_server_def Let_def)
  have page0: "request demo_env (''/taxonomy_term.json?vocabulary=3&'' @ ''&page='' @ show_int 0) ''GET''
                 JUndefined ?s1 = (Fulfilled first_page, ?w1)"
    by (simp add: demo_request demo_farm_def demo_server_def Let_def
                  show_int_def show_nat.simps digit_char_def)
  have page1: "request demo_env (''/taxonomy_term.json?vocabulary=3&'' @ ''&page='' @ show_int (0 + 1)) ''GET''
                 JUndefined ?w1 = (Fulfilled first_page, ?w2)"
    by (simp add: demo_request demo_farm_def demo_server_def Let_def
                  show_int_def show_nat.simps digit_char_def)
  have fp: "\<not> nullish first_page"
    "last_page demo_env (js_prop first_page ''last'') = Inr (Some 1)"
    "js_prop first_page ''list'' = JArr [JNum 1, JNum 2]"
    by (simp_all add: first_page_def nullish_def js_prop_def obj_get_def demo_last_page)
  have walk: "requestAll demo_env ''/taxonomy_term.json?vocabulary=3&'' 0 [] ?s1 =
                Some (Fulfilled (JObj [(''list'', JArr [JNum 1, JNum 2, JNum 1, JNum 2])]), ?w2)"
  proof -
    have "requestAll demo_env ''/taxonomy_term.json?vocabulary=3&'' 0 [] ?s1 =
            Option.bind (requestAll demo_env ''/taxonomy_term.json?vocabulary=3&'' (0 + 1)
                           (concat_arr [] (js_prop first_page ''list'')) ?w1)
              (\<lambda>r. Some (settle r))"
      by (rule requestAll_next [OF page0 fp(1) fp(2)]) simp
    also have "requestAll demo_env ''/taxonomy_term.json?vocabulary=3&'' (0 + 1)
                 (concat_arr [] (js_prop first_page ''list'')) ?w1 =
               Some (Fulfilled (JObj [(''list'',
                       JArr (concat_arr (concat_arr [] (js_prop first_page ''list''))
                               (js_prop first_page ''list'')))]), ?w2)"
      by (rule requestAll_last [OF page1 fp(1)]) (simp add: fp(2))
    finally show ?thesis by (simp add: fp(3))
  qed
  have del: "request demo_env ''/taxonomy_term.json?vocabulary=3/5.json'' ''DELETE'' JUndefined ?s1
               = (Fulfilled first_page,
                  demo_farm\<lparr>trace := [?lookup,
                     Axios ''https://farm.example/taxonomy_term.json?vocabulary=3/5.json''
                       (demo_opts\<lparr>method := ''DELETE''\<rparr>)]\<rparr>)"
    by (simp add: request_def getAccessToken_def getCSRFToken_def axios_call_def nullish_def Let_def
                  demo_env_def valid_token_def obj_get_def demo_opts_def demo_farm_def
                  demo_server_def)
  have off: "request offline_env ''/taxonomy_vocabulary.json'' ''GET'' JUndefined demo_farm
               = (Rejected (LibError ''Network Error''), ?s1)"
    by (simp add: request_def getAccessToken_def getCSRFToken_def axios_call_def nullish_def Let_def
                  offline_env_def demo_env_def valid_token_def obj_get_def demo_opts_def demo_farm_def)
  have bare: "request bare_env ''/taxonomy_vocabulary.json'' ''GET'' JUndefined demo_farm
               = (Fulfilled (JObj []), ?s1)"
    by (simp add: bare_request_eq demo_farm_def)
  have get1: "area_get demo_env (JNum 5) demo_farm = Some (Fulfilled first_page, ?s2)"
    using area_lookup_first [where env = demo_env and s = demo_farm and res = vocabularies
                               and sa = ?s1 and vid = "JNum 3" and n = 5]
          lookup1 vid main1
    by (simp add: show_int_def show_nat.simps digit_char_def params_def)
  have get2: "area_get demo_env (JNum 5) ?s2 = Some (Fulfilled first_page, ?s4)"
    using area_lookup_first [where env = demo_env and s = ?s2 and res = vocabularies
                               and sa = ?s3 and vid = "JNum 3" and n = 5]
          lookup2 vid main2
    by (simp add: show_int_def show_nat.simps digit_char_def params_def)
  have get_paged: "area_get demo_env (JObj [(''type'', JStr ''field''), (''page'', JNum 0)]) demo_farm =
                     Some (Fulfilled first_page, demo_farm\<lparr>trace := [?lookup, ?paged]\<rparr>)"
    using area_lookup_first [where env = demo_env and s = demo_farm and res = vocabularies
                               and sa = ?s1 and vid = "JNum 3"
                               and opts = "JObj [(''type'', JStr ''field''), (''page'', JNum 0)]"]
          lookup1 vid paged
    by (simp add: default_to_def js_prop_def obj_get_def Let_def
                  show_int_def show_nat.simps digit_char_def)
  have get_all: "area_get demo_env JUndefined demo_farm =
                   Some (Fulfilled (JObj [(''list'', JArr [JNum 1, JNum 2, JNum 1, JNum 2])]), ?w2)"
    using area_lookup_first [where env = demo_env and s = demo_farm and res = vocabularies
                               and sa = ?s1 and vid = "JNum 3" and opts = JUndefined]
          lookup1 vid walk
    by (simp add: default_to_def js_prop_def obj_get_def Let_def
                  show_int_def show_nat.simps digit_char_def)
  have get_null: "area_get demo_env JNull demo_farm = Some (Rejected (no_properties JNull ''page''), ?s1)"
    using area_lookup_first [where env = demo_env and s = demo_farm and res = vocabularies
                               and sa = ?s1]
          lookup1
    by simp
  have delete: "area_delete demo_env (JNum 5) demo_farm =
     (Fulfilled first_page,
      demo_farm\<lparr>trace := [?lookup,
         Axios ''https://farm.example/taxonomy_term.json?vocabulary=3/5.json''
           (demo_opts\<lparr>method := ''DELETE''\<rparr>)]\<rparr>)"
    using area_lookup_first [where env = demo_env and s = demo_farm and res = vocabularies
                               and sa = ?s1 and vid = "JNum 3" and ident = "JNum 5"]
          lookup1 vid del
    by (simp add: show_int_def show_nat.simps digit_char_def params_def)
  have delete_bare: "area_delete bare_env (JNum 5) demo_farm =
                       (Rejected (no_properties JUndefined ''find''), ?s1)"
    using area_lookup_first [where env = bare_env and s = demo_farm and res = "JObj []"
                               and sa = ?s1 and e = "no_properties JUndefined ''find''"
                               and ident = "JNum 5"]
          bare novid
    by simp
  have send: "area_send offline_env (JObj [(''name'', JStr ''North field'')]) JUndefined demo_farm =
     (Rejected (LibError ''Network Error''), ?s1)"
    using area_lookup_first [where env = offline_env and s = demo_farm
                               and ra = "Rejected (LibError ''Network Error'')"
                               and e = "LibError ''Network Error''" and sa = ?s1
                               and payload = "JObj [(''name'', JStr ''North field'')]"
                               and ident = JUndefined]
          off
    by simp
  show ?thesis
    using vid get1 get2 get_paged get_all get_null delete delete_bare send by simp
qed

end
